(* ===== verification/Prelude.thy ===== *)
theory Prelude
  imports Main
begin

text \<open>
  Shared vocabulary of the development. The collections \<open>handler_defs\<close> (the
  definitions of the components' event handlers) and \<open>view_defs\<close> (the definitions of
  what a component renders) are unfolded by the component proofs. The JavaScript values
  the sources rely on are modelled here: numbers produced by \<open>parseInt\<close> (an integer or
  \<open>NaN\<close>), the decimal string React writes into an \<open>option\<close>'s \<open>value\<close> attribute,
  and JavaScript truthiness of an identifier.
\<close>

named_theorems handler_defs "definitions of the event handlers of the components"
named_theorems view_defs "definitions of what the components render"

type_synonym org_id = int
type_synonym user_id = int
type_synonym msg = string

section \<open>JavaScript numbers from parseInt\<close>

text \<open>\<open>parseInt(s, 10)\<close> returns an integer or \<open>NaN\<close> when no digit follows the
  optional blanks and sign.\<close>

datatype js_num = Num int | NaN

definition is_digit :: "char \<Rightarrow> bool" where
  "is_digit c \<longleftrightarrow> (48::nat) \<le> of_char c \<and> of_char c \<le> (57::nat)"

definition digit_val :: "char \<Rightarrow> nat" where
  "digit_val c = of_char c - 48"

definition digit_char :: "nat \<Rightarrow> char" where
  "digit_char d = char_of (48 + d)"

definition is_js_space :: "char \<Rightarrow> bool" where
  "is_js_space c \<longleftrightarrow> c = CHR '' '' \<or> c = CHR 0x09 \<or> c = CHR 0x0A \<or> c = CHR 0x0B
     \<or> c = CHR 0x0C \<or> c = CHR 0x0D \<or> c = CHR 0xA0"

definition digits_value :: "string \<Rightarrow> nat" where
  "digits_value ds = foldl (\<lambda>acc c. 10 * acc + digit_val c) 0 ds"

definition split_sign :: "string \<Rightarrow> bool \<times> string" where
  "split_sign t = (case t of
       [] \<Rightarrow> (False, [])
     | c # r \<Rightarrow> (if c = CHR ''-'' then (True, r)
                else if c = CHR ''+'' then (False, r) else (False, c # r)))"

definition parse_int10 :: "string \<Rightarrow> js_num" where
  "parse_int10 s =
     (let (neg, u) = split_sign (dropWhile is_js_space s);
          ds = takeWhile is_digit u
      in if ds = [] then NaN
         else Num ((if neg then -1 else 1) * int (digits_value ds)))"

section \<open>Decimal rendering of numbers\<close>

text \<open>The decimal digits of \<open>n\<close>.\<close>

fun nat_to_string :: "nat \<Rightarrow> string" where
  "nat_to_string n =
     (if n < 10 then [digit_char n] else nat_to_string (n div 10) @ [digit_char (n mod 10)])"

declare nat_to_string.simps [simp del]

text \<open>\<open>String(n)\<close> for an integer \<open>n\<close>, as React writes it into the DOM
  (\<open>Number::toString\<close>): plain decimal digits below \<open>10^21\<close>, exponent notation
  \<open>d.ddde+k\<close> from \<open>10^21\<close> on. The mantissa is written with the exact digits of
  \<open>n\<close> without trailing zeros; JavaScript writes the shortest digits that identify the
  double, which are these whenever they have at most 17 digits.\<close>

definition exp_string :: "nat \<Rightarrow> string" where
  "exp_string n =
     (let ds = nat_to_string n; m = rev (dropWhile (\<lambda>c. c = CHR ''0'') (rev ds))
      in hd m # (if tl m = [] then [] else CHR ''.'' # tl m) @ ''e+'' @ nat_to_string (length ds - 1))"

definition num_to_string :: "nat \<Rightarrow> string" where
  "num_to_string n = (if n < 10 ^ 21 then nat_to_string n else exp_string n)"

definition int_to_string :: "int \<Rightarrow> string" where
  "int_to_string i =
     (if i < 0 then CHR ''-'' # num_to_string (nat \<bar>i\<bar>) else num_to_string (nat \<bar>i\<bar>))"

section \<open>JavaScript truthiness of an optional identifier\<close>

text \<open>\<open>!x\<close> holds of \<open>null\<close> and of \<open>0\<close>.\<close>

definition js_truthy_id :: "int option \<Rightarrow> bool" where
  "js_truthy_id x = (case x of None \<Rightarrow> False | Some n \<Rightarrow> n \<noteq> 0)"

section \<open>Lists\<close>

text \<open>The list without its \<open>k\<close>-th element: a request that settles leaves the list of
  requests in flight.\<close>

definition remove_nth :: "nat \<Rightarrow> 'a list \<Rightarrow> 'a list" where
  "remove_nth k xs = take k xs @ drop (Suc k) xs"

section \<open>Generic lemmas\<close>

lemma mem_remove_nth:
  assumes "x \<in> set xs" and "k < length xs" and "xs ! k \<noteq> x"
  shows "x \<in> set (remove_nth k xs)"
proof -
  have "xs = take k xs @ xs ! k # drop (Suc k) xs" using assms(2) by (rule id_take_nth_drop)
  then have "set xs = set (take k xs) \<union> {xs ! k} \<union> set (drop (Suc k) xs)"
    by (metis Un_insert_right insert_is_Un list.simps(15) set_append sup_commute)
  with assms show ?thesis by (auto simp: remove_nth_def)
qed


lemma digit_char_is_digit [simp]: "d < 10 \<Longrightarrow> is_digit (digit_char d)"
  by (simp add: is_digit_def digit_char_def)

lemma digit_val_digit_char [simp]: "d < 10 \<Longrightarrow> digit_val (digit_char d) = d"
  by (simp add: digit_val_def digit_char_def)

lemma digits_value_snoc [simp]:
  "digits_value (ds @ [c]) = 10 * digits_value ds + digit_val c"
  by (simp add: digits_value_def)

lemma digits_value_single [simp]: "digits_value [c] = digit_val c"
  by (simp add: digits_value_def)

lemma nat_to_string_digits: "\<forall>c \<in> set (nat_to_string n). is_digit c"
proof (induction n rule: nat_to_string.induct)
  case (1 n)
  then show ?case by (subst nat_to_string.simps) auto
qed

lemma nat_to_string_nonempty [simp]: "nat_to_string n \<noteq> []"
  by (subst nat_to_string.simps) simp

lemma digits_value_nat_to_string [simp]: "digits_value (nat_to_string n) = n"
proof (induction n rule: nat_to_string.induct)
  case (1 n)
  show ?case
  proof (cases "n < 10")
    case True
    then show ?thesis by (subst nat_to_string.simps) simp
  next
    case False
    with "1.IH" show ?thesis by (subst nat_to_string.simps) simp
  qed
qed

lemma nat_to_string_head_not_space [simp]:
  "\<not> is_js_space (hd (nat_to_string n))"
  using nat_to_string_digits [of n] nat_to_string_nonempty [of n]
  by (cases "nat_to_string n") (auto simp: is_js_space_def is_digit_def)

lemma nat_to_string_head_not_sign:
  "hd (nat_to_string n) \<noteq> CHR ''-'' \<and> hd (nat_to_string n) \<noteq> CHR ''+''"
  using nat_to_string_digits [of n] nat_to_string_nonempty [of n]
  by (cases "nat_to_string n") (auto simp: is_digit_def)

lemma takeWhile_all_digits [simp]:
  "\<forall>c \<in> set ds. is_digit c \<Longrightarrow> takeWhile is_digit ds = ds"
  by (simp add: takeWhile_eq_all_conv)

lemma js_truthy_id_Some [simp]: "js_truthy_id (Some n) \<longleftrightarrow> n \<noteq> 0"
  by (simp add: js_truthy_id_def)

lemma js_truthy_id_None [simp]: "\<not> js_truthy_id None"
  by (simp add: js_truthy_id_def)

lemma split_sign_nat_to_string [simp]:
  "split_sign (dropWhile is_js_space (nat_to_string n)) = (False, nat_to_string n)"
proof (cases "nat_to_string n")
  case Nil
  then show ?thesis by simp
next
  case (Cons c cs)
  from nat_to_string_head_not_space [of n] nat_to_string_head_not_sign [of n] Cons
  show ?thesis by (simp add: split_sign_def)
qed

lemma digits_value_zeros: "\<forall>c \<in> set ds. c = CHR ''0'' \<Longrightarrow> digits_value ds = 0"
proof (induction ds rule: rev_induct)
  case (snoc c ds)
  then show ?case by (simp add: digit_val_def)
qed (simp add: digits_value_def)

lemma nat_abs_less: "\<bar>i\<bar> < int m \<Longrightarrow> nat \<bar>i\<bar> < m"
  by linarith

text \<open>Reading back the decimal string of an integer with \<open>parseInt\<close> gives the
  integer below \<open>10^21\<close>.\<close>

lemma parse_int10_small: "\<bar>i\<bar> < 10 ^ 21 \<Longrightarrow> parse_int10 (int_to_string i) = Num i"
proof -
  assume "\<bar>i\<bar> < 10 ^ 21"
  then have n: "nat \<bar>i\<bar> < 10 ^ 21" using nat_abs_less [of i "10 ^ 21"] by simp
  have m: "\<not> is_js_space (CHR ''-'')" by (simp add: is_js_space_def)
  show ?thesis
  proof (cases "i < 0")
    case True
    with n m nat_to_string_digits [of "nat \<bar>i\<bar>"] show ?thesis
      by (simp add: parse_int10_def int_to_string_def num_to_string_def split_sign_def)
  next
    case False
    with n nat_to_string_digits [of "nat \<bar>i\<bar>"] show ?thesis
      by (simp add: parse_int10_def int_to_string_def num_to_string_def)
  qed
qed

text \<open>From \<open>10^21\<close> on, \<open>parseInt\<close> stops at the exponent notation's \<open>.\<close> or
  \<open>e\<close> and reads one digit.\<close>

lemma parse_int10_exp_string:
  assumes "0 < n"
  shows "\<exists>d. d < 10 \<and> parse_int10 (exp_string n) = Num (int d)
             \<and> parse_int10 (CHR ''-'' # exp_string n) = Num (- int d)"
proof -
  define ds where "ds = nat_to_string n"
  define m where "m = rev (dropWhile (\<lambda>c. c = CHR ''0'') (rev ds))"
  have dig: "\<forall>c \<in> set ds. is_digit c" using nat_to_string_digits [of n] by (simp add: ds_def)
  have "\<not> (\<forall>c \<in> set ds. c = CHR ''0'')"
    using digits_value_zeros [of ds] assms by (auto simp: ds_def)
  then have "m \<noteq> []" by (simp add: m_def dropWhile_eq_Nil_conv)
  moreover have "set m \<subseteq> set ds" by (auto simp: m_def dest: set_dropWhileD)
  ultimately obtain c where c: "hd m = c" "is_digit c" using dig by (cases m) auto
  let ?rest = "(if tl m = [] then [] else CHR ''.'' # tl m) @ ''e+'' @ nat_to_string (length ds - 1)"
  have e: "exp_string n = [c] @ ?rest" by (simp add: exp_string_def Let_def ds_def m_def c(1) [unfolded m_def ds_def])
  have t: "takeWhile is_digit ?rest = []" by (simp add: is_digit_def)
  have cc: "\<not> is_js_space c" "c \<noteq> CHR ''-''" "c \<noteq> CHR ''+''" "\<not> is_js_space (CHR ''-'')"
    using c(2) by (auto simp: is_js_space_def is_digit_def)
  have "digit_val c < 10" using c(2) unfolding digit_val_def is_digit_def by arith
  moreover have "parse_int10 (exp_string n) = Num (int (digit_val c))"
    unfolding e using c(2) cc t by (simp add: parse_int10_def split_sign_def)
  moreover have "parse_int10 (CHR ''-'' # exp_string n) = Num (- int (digit_val c))"
    unfolding e using c(2) cc t by (simp add: parse_int10_def split_sign_def)
  ultimately show ?thesis by blast
qed

lemma abs_bound_digit:
  "\<not> \<bar>i\<bar> < int m \<Longrightarrow> 10 \<le> m \<Longrightarrow> d < 10 \<Longrightarrow>
     0 < nat \<bar>i\<bar> \<and> \<not> nat \<bar>i\<bar> < m \<and> i \<noteq> int d \<and> i \<noteq> - int d"
  by linarith

text \<open>The round trip of an id through \<open>String\<close> and \<open>parseInt\<close> holds exactly below
  \<open>10^21\<close>.\<close>

lemma parse_int10_int_to_string: "parse_int10 (int_to_string i) = Num i \<longleftrightarrow> \<bar>i\<bar> < 10 ^ 21"
proof
  assume rt: "parse_int10 (int_to_string i) = Num i"
  show "\<bar>i\<bar> < 10 ^ 21"
  proof (rule ccontr)
    assume big: "\<not> \<bar>i\<bar> < 10 ^ 21"
    have n: "0 < nat \<bar>i\<bar>" "\<not> nat \<bar>i\<bar> < 10 ^ 21"
      using abs_bound_digit [of i "10 ^ 21" 0] big by simp_all
    obtain d where d: "d < 10" "parse_int10 (exp_string (nat \<bar>i\<bar>)) = Num (int d)"
      "parse_int10 (CHR ''-'' # exp_string (nat \<bar>i\<bar>)) = Num (- int d)"
      using parse_int10_exp_string [OF n(1)] by blast
    have ne: "i \<noteq> int d \<and> i \<noteq> - int d" using abs_bound_digit [of i "10 ^ 21" d] big d(1) by simp
    have "num_to_string (nat \<bar>i\<bar>) = exp_string (nat \<bar>i\<bar>)"
      using n(2) unfolding num_to_string_def by (rule if_not_P)
    then have "int_to_string i = (if i < 0 then CHR ''-'' # exp_string (nat \<bar>i\<bar>) else exp_string (nat \<bar>i\<bar>))"
      by (simp only: int_to_string_def)
    then have "parse_int10 (int_to_string i) = Num (if i < 0 then - int d else int d)"
      using d(2,3) by (cases "i < 0") (simp_all only: if_True if_False)
    with rt ne show False by (simp split: if_splits)
  qed
qed (rule parse_int10_small)

lemma parse_int10_capture [simp]: "parse_int10 ''capture'' = NaN"
  by (simp add: parse_int10_def split_sign_def is_js_space_def is_digit_def)

end
