(* ===== verification/Interface.thy ===== *)
theory Interface
  imports Prelude
begin

text \<open>
  The interface the components agree on. The entity snapshot and the remote calls are
  the JSON shapes and routes of the remote service (spec section 6; the server is not
  part of \<open>src/\<close>). A component's handler returns its new state together with a list
  of \<open>effect\<close>s: the calls it makes on the outside world (\<open>axios\<close> requests, the
  \<open>setError\<close> and \<open>closeReload\<close> props, the debounced validity check). The theory
  System interprets the effects; the component theories only emit them.
\<close>

section \<open>Entity snapshot\<close>

record user_ref =
  uref_id :: user_id
  uref_email :: string

record linode_ref =
  lref_id :: int
  lref_name :: string
  lref_org :: org_id

record org_ref =
  oref_id :: org_id
  oref_name :: string

record org =
  org_id :: org_id
  org_name :: string
  org_users :: "user_ref list"
  org_linodes :: "linode_ref list"

record user_detail =
  ud_id :: user_id
  ud_email :: string
  ud_orgs :: "org_ref list"
  ud_linodes :: "linode_ref list"

section \<open>Remote calls\<close>

text \<open>One constructor per route the sources call. The creation payloads carry what the
  forms put in the JSON body: the user's organisation ids as parsed by \<open>parseInt\<close>,
  the linode's \<open>orgId\<close> (\<open>null\<close> as \<open>None\<close>).\<close>

datatype request =
    ReqOrgs
  | ReqUser user_id
  | ReqExists string string
  | ReqCreateOrg string
  | ReqCreateUser string "js_num list"
  | ReqCreateLinode string "js_num option"

fun request_url :: "request \<Rightarrow> string" where
  "request_url ReqOrgs = ''/api/orgs''"
| "request_url (ReqUser uid) = ''/api/user/'' @ int_to_string uid"
| "request_url (ReqExists kind v) = ''/api/exists/'' @ kind @ ''/'' @ v"
| "request_url (ReqCreateOrg _) = ''/api/create/org''"
| "request_url (ReqCreateUser _ _) = ''/api/create/user''"
| "request_url (ReqCreateLinode _ _) = ''/api/create/linode''"

datatype reply =
    OrgsReply "org list"
  | UserReply user_detail
  | ExistsReply bool
  | CreatedReply

text \<open>Transport errors and HTTP error statuses; the sources treat both alike.\<close>

datatype failure = NetworkError | HttpError int

type_synonym outcome = "failure + reply"

text \<open>The shape of a successful reply fits the route (spec section 6); a failure fits
  every route.\<close>

fun reply_fits :: "request \<Rightarrow> outcome \<Rightarrow> bool" where
  "reply_fits _ (Inl _) = True"
| "reply_fits ReqOrgs (Inr r) = (case r of OrgsReply _ \<Rightarrow> True | _ \<Rightarrow> False)"
| "reply_fits (ReqUser _) (Inr r) = (case r of UserReply _ \<Rightarrow> True | _ \<Rightarrow> False)"
| "reply_fits (ReqExists _ _) (Inr r) = (case r of ExistsReply _ \<Rightarrow> True | _ \<Rightarrow> False)"
| "reply_fits (ReqCreateOrg _) (Inr r) = (r = CreatedReply)"
| "reply_fits (ReqCreateUser _ _) (Inr r) = (r = CreatedReply)"
| "reply_fits (ReqCreateLinode _ _) (Inr r) = (r = CreatedReply)"

fun is_create :: "request \<Rightarrow> bool" where
  "is_create (ReqCreateOrg _) = True"
| "is_create (ReqCreateUser _ _) = True"
| "is_create (ReqCreateLinode _ _) = True"
| "is_create _ = False"

section \<open>Effects a component hands to its environment\<close>

datatype effect =
    Send request        \<comment> \<open>an \<open>axios\<close> call; its callbacks are the component's reply handler\<close>
  | Report failure msg  \<comment> \<open>\<open>this.props.setError(err, msg)\<close>\<close>
  | CloseReload         \<comment> \<open>\<open>this.props.closeReload()\<close>\<close>
  | Debounce            \<comment> \<open>a call of the debounced \<open>checkValidity\<close>\<close>

definition sent_requests :: "effect list \<Rightarrow> request list" where
  "sent_requests es = [r. Send r \<leftarrow> es]"

section \<open>Form vocabulary\<close>

text \<open>The \<open>valid\<close> field of the three creation forms holds one of the strings
  \<open>'no'\<close>, \<open>'yes'\<close>, \<open>'unknown'\<close>; \<open>getValidationState\<close> answers \<open>'success'\<close>,
  \<open>'error'\<close> or \<open>undefined\<close> (\<open>None\<close>).\<close>

datatype validity = No | Yes | Unknown

datatype feedback = Success | Error

text \<open>An \<open>option\<close> element of a \<open>select\<close> as a form renders it: its \<open>value\<close>
  attribute and whether it is disabled. Which options are selected is DOM state the user
  changes; it is the argument of the selection events.\<close>

record select_option =
  opt_value :: string
  opt_disabled :: bool

text \<open>\<open>resp.data.exists\<close> read from a successful reply: a reply of another shape has no
  such field, and \<open>undefined\<close> is falsy.\<close>

definition resp_exists :: "reply \<Rightarrow> bool" where
  "resp_exists r = (case r of ExistsReply b \<Rightarrow> b | _ \<Rightarrow> False)"

text \<open>\<open>resp.data.exists ? 'no' : 'yes'\<close>\<close>

definition exists_verdict :: "bool \<Rightarrow> validity" where
  "exists_verdict b = (if b then No else Yes)"

text \<open>The body shared by the three forms' \<open>getValidationState\<close>, given the length test
  of the identifying field and the \<open>valid\<close> field.\<close>

definition validation_feedback :: "string \<Rightarrow> validity \<Rightarrow> feedback option" where
  "validation_feedback field v =
     (if length field = 0 then None
      else (case v of Yes \<Rightarrow> Some Success | No \<Rightarrow> Some Error | Unknown \<Rightarrow> Some Success))"

text \<open>The option elements of the organisation selector of AddUser and AddLinode: the
  disabled placeholder \<open>capture\<close>, then one option per organisation whose value is the
  decimal string of its id.\<close>

definition org_options :: "org list \<Rightarrow> select_option list" where
  "org_options os =
     \<lparr>opt_value = ''capture'', opt_disabled = True\<rparr> #
     map (\<lambda>g. \<lparr>opt_value = int_to_string (org_id g), opt_disabled = False\<rparr>) os"

text \<open>What a creation form renders: the organisation selector (its kind, the values
  selected by default, the options), the text field (label, displayed value,
  placeholder, validation state, help text) and the submit button (disabled flag,
  caption). A displayed value \<open>None\<close> is an input whose \<open>value\<close> prop is
  \<open>undefined\<close>: React then leaves it uncontrolled and shows whatever the user typed.\<close>

datatype select_kind = SelectMultiple | SelectSingle

record form_view =
  fv_selector :: "(select_kind \<times> string list \<times> select_option list) option"
  fv_label :: string
  fv_value :: "string option"
  fv_placeholder :: string
  fv_feedback :: "feedback option"
  fv_help :: string
  fv_submit_disabled :: bool
  fv_submit_caption :: string

definition submit_caption :: "bool \<Rightarrow> string" where
  "submit_caption submitting = (if submitting then ''Submitting...'' else ''Submit'')"

lemma sent_requests_simps [simp]:
  "sent_requests [] = []"
  "sent_requests (Send r # es) = r # sent_requests es"
  "sent_requests (Report e m # es) = sent_requests es"
  "sent_requests (CloseReload # es) = sent_requests es"
  "sent_requests (Debounce # es) = sent_requests es"
  "sent_requests (es @ fs) = sent_requests es @ sent_requests fs"
  by (simp_all add: sent_requests_def)

lemma reply_fits_exists [simp]:
  "reply_fits (ReqExists k v) (Inr r) \<longleftrightarrow> (\<exists>b. r = ExistsReply b)"
  by (cases r) simp_all

lemma resp_exists_simps [simp]:
  "resp_exists (ExistsReply b) = b"
  "resp_exists CreatedReply = False"
  by (simp_all add: resp_exists_def)

lemma exists_verdict_simps [simp]:
  "exists_verdict True = No"
  "exists_verdict False = Yes"
  "exists_verdict b = Yes \<longleftrightarrow> \<not> b"
  by (simp_all add: exists_verdict_def)

lemma length_org_options [simp]: "length (org_options os) = Suc (length os)"
  by (simp add: org_options_def)

end
