(* ===== verification/AddOrg.thy ===== *)
theory AddOrg
  imports Interface
begin

text \<open>
  The organisation creation form, \<open>src/web/src/components/AddOrg.js\<close>. Its state is
  the record \<open>addorg\<close> (\<open>name\<close>, \<open>submitting\<close>, \<open>valid\<close>). Every handler returns the
  new state and the effects it hands to its environment: the \<open>axios\<close> calls, the
  \<open>setError\<close> and \<open>closeReload\<close> props, and a call of the debounced
  \<open>checkValidity\<close> (lodash \<open>debounce(_checkValidity, 250)\<close>), whose timer the theory
  System keeps. The reply handler \<open>addOrg_onReply\<close> holds the \<open>then\<close> and \<open>catch\<close>
  callbacks of both remote calls.
\<close>

record addorg =
  ao_name :: string
  ao_submitting :: bool
  ao_valid :: validity

definition addOrg_init :: addorg where
  "addOrg_init = \<lparr>ao_name = [], ao_submitting = False, ao_valid = No\<rparr>"

text \<open>\<open>_checkValidity\<close>: it reads the name from the state when the debounce timer fires,
  not the argument the debounced call was given.\<close>

definition addOrg_checkValidity :: "addorg \<Rightarrow> effect list" where
  [handler_defs]: "addOrg_checkValidity s =
     (if ao_name s = [] then [] else [Send (ReqExists ''org'' (ao_name s))])"

definition addOrg_getValidationState :: "addorg \<Rightarrow> feedback option" where
  [view_defs]: "addOrg_getValidationState s = validation_feedback (ao_name s) (ao_valid s)"

definition addOrg_update :: "addorg \<Rightarrow> string \<Rightarrow> addorg \<times> effect list" where
  [handler_defs]: "addOrg_update s v = (s\<lparr>ao_name := v, ao_valid := Unknown\<rparr>, [Debounce])"

definition addOrg_submit :: "addorg \<Rightarrow> effect list" where
  [handler_defs]: "addOrg_submit s =
     (if ao_valid s \<noteq> Yes then [] else [Send (ReqCreateOrg (ao_name s))])"

fun addOrg_onReply :: "addorg \<Rightarrow> request \<Rightarrow> outcome \<Rightarrow> addorg \<times> effect list" where
  "addOrg_onReply s (ReqExists _ _) (Inr r) = (s\<lparr>ao_valid := exists_verdict (resp_exists r)\<rparr>, [])"
| "addOrg_onReply s (ReqExists _ _) (Inl e) = (s, [Report e ''Failed checking org validity''])"
| "addOrg_onReply s (ReqCreateOrg _) (Inr _) = (s, [CloseReload])"
| "addOrg_onReply s (ReqCreateOrg _) (Inl e) = (s, [Report e ''Failed creating organization''])"
| "addOrg_onReply s _ _ = (s, [])"

definition addOrg_submitDisabled :: "addorg \<Rightarrow> bool" where
  [view_defs]: "addOrg_submitDisabled s \<longleftrightarrow> ao_submitting s \<or> ao_valid s \<noteq> Yes"

definition addOrg_render :: "addorg \<Rightarrow> form_view" where
  [view_defs]: "addOrg_render s =
     \<lparr>fv_selector = None, fv_label = ''Organization Name'', fv_value = Some (ao_name s),
      fv_placeholder = ''Enter name'', fv_feedback = addOrg_getValidationState s,
      fv_help = ''Name must be unique.'', fv_submit_disabled = addOrg_submitDisabled s,
      fv_submit_caption = submit_caption (ao_submitting s)\<rparr>"

section \<open>Properties of the form\<close>

lemma addOrg_init_simps [simp]:
  "ao_name addOrg_init = []" "ao_valid addOrg_init = No" "\<not> ao_submitting addOrg_init"
  by (simp_all add: addOrg_init_def)

text \<open>No handler ever sets \<open>submitting\<close>: it keeps its initial value \<open>false\<close>.\<close>

lemma addOrg_update_submitting [simp]:
  "ao_submitting (fst (addOrg_update s v)) = ao_submitting s"
  by (simp add: addOrg_update_def)

lemma addOrg_onReply_submitting [simp]:
  "ao_submitting (fst (addOrg_onReply s q r)) = ao_submitting s"
  by (cases "(s, q, r)" rule: addOrg_onReply.cases) simp_all

lemma addOrg_onReply_name [simp]:
  "ao_name (fst (addOrg_onReply s q r)) = ao_name s"
  by (cases "(s, q, r)" rule: addOrg_onReply.cases) simp_all

lemma addOrg_update_result [simp]:
  "fst (addOrg_update s v) = s\<lparr>ao_name := v, ao_valid := Unknown\<rparr>"
  "snd (addOrg_update s v) = [Debounce]"
  by (simp_all add: addOrg_update_def)

lemma addOrg_submitDisabled_iff [simp]:
  "\<not> ao_submitting s \<Longrightarrow> addOrg_submitDisabled s \<longleftrightarrow> ao_valid s \<noteq> Yes"
  by (simp add: addOrg_submitDisabled_def)

text \<open>The only state change a reply makes is the verdict of an existence check, and only
  a successful existence check changes \<open>valid\<close>.\<close>

lemma addOrg_onReply_valid:
  "ao_valid (fst (addOrg_onReply s q r)) =
     (case (q, r) of (ReqExists _ _, Inr x) \<Rightarrow> exists_verdict (resp_exists x) | _ \<Rightarrow> ao_valid s)"
  by (cases "(s, q, r)" rule: addOrg_onReply.cases) simp_all

text \<open>C23. While a check is pending (\<open>valid\<close> is \<open>'unknown'\<close> right after a keystroke)
  the field is rendered as \<open>'success'\<close>, the same as an available name.\<close>

theorem addOrg_pending_shown_success:
  "v \<noteq> [] \<Longrightarrow> addOrg_getValidationState (fst (addOrg_update s v)) = Some Success"
  by (simp add: addOrg_getValidationState_def validation_feedback_def)

end
