(* ===== verification/AddUser.thy ===== *)
theory AddUser
  imports Interface
begin

text \<open>
  The user creation form, \<open>src/web/src/components/AddUser.js\<close> (its class is named
  \<open>AddOrg\<close> in the source, exported as \<open>AddUser\<close>). State: \<open>email\<close>, the selected
  organisation ids \<open>orgIds\<close>, \<open>submitting\<close>, \<open>valid\<close>. Unlike AddOrg it checks the
  email on every keystroke, without debounce and without an emptiness test, and the
  request carries the value typed, not a value read back from the state.
\<close>

record adduser =
  au_email :: string
  au_orgIds :: "js_num list"
  au_submitting :: bool
  au_valid :: validity

definition addUser_init :: adduser where
  "addUser_init = \<lparr>au_email = [], au_orgIds = [], au_submitting = False, au_valid = No\<rparr>"

definition addUser_checkValidity :: "string \<Rightarrow> effect list" where
  [handler_defs]: "addUser_checkValidity email = [Send (ReqExists ''user'' email)]"

definition addUser_getValidationState :: "adduser \<Rightarrow> feedback option" where
  [view_defs]: "addUser_getValidationState s = validation_feedback (au_email s) (au_valid s)"

text \<open>The loop of \<open>updateOrg\<close> over all \<open>option\<close> elements of the multiple select,
  paired with their DOM selection flags, pushing \<open>parseInt(opt.value, 10)\<close> of each
  selected one.\<close>

fun addUser_collect :: "(select_option \<times> bool) list \<Rightarrow> js_num list \<Rightarrow> js_num list" where
  "addUser_collect [] acc = acc"
| "addUser_collect ((opt, sel) # os) acc =
     addUser_collect os (if sel then acc @ [parse_int10 (opt_value opt)] else acc)"

definition addUser_updateOrg :: "adduser \<Rightarrow> select_option list \<Rightarrow> bool list \<Rightarrow> adduser" where
  [handler_defs]: "addUser_updateOrg s opts sel = s\<lparr>au_orgIds := addUser_collect (zip opts sel) []\<rparr>"

definition addUser_updateEmail :: "adduser \<Rightarrow> string \<Rightarrow> adduser \<times> effect list" where
  [handler_defs]: "addUser_updateEmail s v =
     (s\<lparr>au_email := v, au_valid := Unknown\<rparr>, addUser_checkValidity v)"

definition addUser_submit :: "adduser \<Rightarrow> effect list" where
  [handler_defs]: "addUser_submit s =
     (if au_valid s \<noteq> Yes then [] else [Send (ReqCreateUser (au_email s) (au_orgIds s))])"

fun addUser_onReply :: "adduser \<Rightarrow> request \<Rightarrow> outcome \<Rightarrow> adduser \<times> effect list" where
  "addUser_onReply s (ReqExists _ _) (Inr r) = (s\<lparr>au_valid := exists_verdict (resp_exists r)\<rparr>, [])"
| "addUser_onReply s (ReqExists _ _) (Inl e) = (s, [Report e ''Failed checking user validity''])"
| "addUser_onReply s (ReqCreateUser _ _) (Inr _) = (s, [CloseReload])"
| "addUser_onReply s (ReqCreateUser _ _) (Inl e) = (s, [Report e ''Failed creating user''])"
| "addUser_onReply s _ _ = (s, [])"

definition addUser_submitDisabled :: "adduser \<Rightarrow> bool" where
  [view_defs]: "addUser_submitDisabled s \<longleftrightarrow>
     au_submitting s \<or> au_valid s \<noteq> Yes \<or> length (au_orgIds s) = 0"

text \<open>\<open>render\<close>: the multiple select starts with the placeholder \<open>capture\<close> selected
  (\<open>defaultValue={["capture"]}\<close>) and lists the App's organisations.\<close>

definition addUser_render :: "adduser \<Rightarrow> org list \<Rightarrow> form_view" where
  [view_defs]: "addUser_render s os =
     \<lparr>fv_selector = Some (SelectMultiple, [''capture''], org_options os), fv_label = ''User Email'',
      fv_value = Some (au_email s), fv_placeholder = ''Enter email'',
      fv_feedback = addUser_getValidationState s, fv_help = ''Email must be unique.'',
      fv_submit_disabled = addUser_submitDisabled s,
      fv_submit_caption = submit_caption (au_submitting s)\<rparr>"

section \<open>Properties of the form\<close>

lemma addUser_init_simps [simp]:
  "au_email addUser_init = []" "au_orgIds addUser_init = []"
  "au_valid addUser_init = No" "\<not> au_submitting addUser_init"
  by (simp_all add: addUser_init_def)

lemma addUser_updateEmail_result [simp]:
  "fst (addUser_updateEmail s v) = s\<lparr>au_email := v, au_valid := Unknown\<rparr>"
  "snd (addUser_updateEmail s v) = [Send (ReqExists ''user'' v)]"
  by (simp_all add: addUser_updateEmail_def addUser_checkValidity_def)

lemma addUser_onReply_submitting [simp]:
  "au_submitting (fst (addUser_onReply s q r)) = au_submitting s"
  by (cases "(s, q, r)" rule: addUser_onReply.cases) simp_all

lemma addUser_onReply_email [simp]:
  "au_email (fst (addUser_onReply s q r)) = au_email s"
  by (cases "(s, q, r)" rule: addUser_onReply.cases) simp_all

lemma addUser_onReply_orgIds [simp]:
  "au_orgIds (fst (addUser_onReply s q r)) = au_orgIds s"
  by (cases "(s, q, r)" rule: addUser_onReply.cases) simp_all

lemma addUser_onReply_valid:
  "au_valid (fst (addUser_onReply s q r)) =
     (case (q, r) of (ReqExists _ _, Inr x) \<Rightarrow> exists_verdict (resp_exists x) | _ \<Rightarrow> au_valid s)"
  by (cases "(s, q, r)" rule: addUser_onReply.cases) simp_all

lemma addUser_updateOrg_fields [simp]:
  "au_email (addUser_updateOrg s opts sel) = au_email s"
  "au_valid (addUser_updateOrg s opts sel) = au_valid s"
  "au_submitting (addUser_updateOrg s opts sel) = au_submitting s"
  by (simp_all add: addUser_updateOrg_def)

text \<open>The collecting loop of \<open>updateOrg\<close> keeps the parsed values of the selected
  options in document order.\<close>

lemma addUser_collect_eq:
  "addUser_collect xs acc = acc @ map (parse_int10 \<circ> opt_value \<circ> fst) (filter snd xs)"
  by (induction xs acc rule: addUser_collect.induct) auto

text \<open>C21. Round trip of the organisation selector: with the placeholder not selected,
  \<open>updateOrg\<close> stores exactly the ids of the selected organisations, in document
  order, as \<open>parseInt\<close> reads back the \<open>value\<close> attributes React wrote with
  \<open>String\<close>, if and only if every selected id is below \<open>10^21\<close>: from there on
  \<open>String\<close> writes exponent notation and \<open>parseInt\<close> reads its first digit.\<close>

theorem addUser_updateOrg_roundtrip:
  "length sel = length os \<Longrightarrow>
   au_orgIds (addUser_updateOrg s (org_options os) (False # sel)) =
     map (\<lambda>(g, b). Num (org_id g)) (filter snd (zip os sel))
   \<longleftrightarrow> (\<forall>g \<in> set (map fst (filter snd (zip os sel))). \<bar>org_id g\<bar> < 10 ^ 21)"
proof -
  assume "length sel = length os"
  have "zip (map (\<lambda>g. \<lparr>opt_value = int_to_string (org_id g), opt_disabled = False\<rparr>) os) sel
        = map (\<lambda>(g, b). (\<lparr>opt_value = int_to_string (org_id g), opt_disabled = False\<rparr>, b)) (zip os sel)"
    by (simp add: zip_map1)
  then have "au_orgIds (addUser_updateOrg s (org_options os) (False # sel)) =
      map (\<lambda>(g, b). parse_int10 (int_to_string (org_id g))) (filter snd (zip os sel))"
    by (simp add: addUser_updateOrg_def org_options_def addUser_collect_eq filter_map comp_def split_beta)
  then show ?thesis
    by (simp add: map_eq_conv split_beta parse_int10_int_to_string)
qed

text \<open>C22. If the disabled placeholder option \<open>capture\<close> is still selected, its value
  enters \<open>orgIds\<close> as \<open>NaN\<close>, and the submission carries it.\<close>

theorem addUser_placeholder_NaN:
  "hd (au_orgIds (addUser_updateOrg s (org_options os) (True # sel))) = NaN"
  by (simp add: addUser_updateOrg_def org_options_def addUser_collect_eq)

end
