(* ===== verification/AddLinode.thy ===== *)
theory AddLinode
  imports Interface
begin

text \<open>
  The linode (compute instance) creation form, \<open>src/web/src/components/AddLinode.js\<close>.
  State: \<open>name\<close>, the selected \<open>orgId\<close> (\<open>null\<close> as \<open>None\<close>), \<open>submitting\<close>,
  \<open>valid\<close>. Like AddUser it checks on every keystroke without debounce. Its
  \<open>updateOrg\<close> loop stores the parsed value of the first selected option and returns;
  when no option is selected it stores nothing.
\<close>

record addlinode =
  al_name :: string
  al_orgId :: "js_num option"
  al_submitting :: bool
  al_valid :: validity

definition addLinode_init :: addlinode where
  "addLinode_init = \<lparr>al_name = [], al_orgId = None, al_submitting = False, al_valid = No\<rparr>"

definition addLinode_checkValidity :: "string \<Rightarrow> effect list" where
  [handler_defs]: "addLinode_checkValidity name = [Send (ReqExists ''linode'' name)]"

definition addLinode_getValidationState :: "addlinode \<Rightarrow> feedback option" where
  [view_defs]: "addLinode_getValidationState s = validation_feedback (al_name s) (al_valid s)"

fun addLinode_firstSelected :: "(select_option \<times> bool) list \<Rightarrow> js_num option" where
  "addLinode_firstSelected [] = None"
| "addLinode_firstSelected ((opt, sel) # os) =
     (if sel then Some (parse_int10 (opt_value opt)) else addLinode_firstSelected os)"

definition addLinode_updateOrg :: "addlinode \<Rightarrow> select_option list \<Rightarrow> bool list \<Rightarrow> addlinode" where
  [handler_defs]: "addLinode_updateOrg s opts sel =
     (case addLinode_firstSelected (zip opts sel) of
        None \<Rightarrow> s
      | Some n \<Rightarrow> s\<lparr>al_orgId := Some n\<rparr>)"

definition addLinode_updateName :: "addlinode \<Rightarrow> string \<Rightarrow> addlinode \<times> effect list" where
  [handler_defs]: "addLinode_updateName s v =
     (s\<lparr>al_name := v, al_valid := Unknown\<rparr>, addLinode_checkValidity v)"

definition addLinode_submit :: "addlinode \<Rightarrow> effect list" where
  [handler_defs]: "addLinode_submit s =
     (if al_valid s \<noteq> Yes then [] else [Send (ReqCreateLinode (al_name s) (al_orgId s))])"

fun addLinode_onReply :: "addlinode \<Rightarrow> request \<Rightarrow> outcome \<Rightarrow> addlinode \<times> effect list" where
  "addLinode_onReply s (ReqExists _ _) (Inr r) = (s\<lparr>al_valid := exists_verdict (resp_exists r)\<rparr>, [])"
| "addLinode_onReply s (ReqExists _ _) (Inl e) = (s, [Report e ''Failed checking linode validity''])"
| "addLinode_onReply s (ReqCreateLinode _ _) (Inr _) = (s, [CloseReload])"
| "addLinode_onReply s (ReqCreateLinode _ _) (Inl e) = (s, [Report e ''Failed creating linode''])"
| "addLinode_onReply s _ _ = (s, [])"

definition addLinode_submitDisabled :: "addlinode \<Rightarrow> bool" where
  [view_defs]: "addLinode_submitDisabled s \<longleftrightarrow>
     al_submitting s \<or> al_valid s \<noteq> Yes \<or> al_orgId s = None"

text \<open>\<open>render\<close>: a single select starting on the placeholder. The name input's
  \<open>value\<close> is \<open>this.state.nanme\<close>, a field the state does not have: \<open>undefined\<close>.\<close>

definition addLinode_render :: "addlinode \<Rightarrow> org list \<Rightarrow> form_view" where
  [view_defs]: "addLinode_render s os =
     \<lparr>fv_selector = Some (SelectSingle, [''capture''], org_options os), fv_label = ''Linode Name'',
      fv_value = None, fv_placeholder = ''Enter name'',
      fv_feedback = addLinode_getValidationState s, fv_help = ''Name must be unique.'',
      fv_submit_disabled = addLinode_submitDisabled s,
      fv_submit_caption = submit_caption (al_submitting s)\<rparr>"

section \<open>Properties of the form\<close>

lemma addLinode_init_simps [simp]:
  "al_name addLinode_init = []" "al_orgId addLinode_init = None"
  "al_valid addLinode_init = No" "\<not> al_submitting addLinode_init"
  by (simp_all add: addLinode_init_def)

lemma addLinode_updateName_result [simp]:
  "fst (addLinode_updateName s v) = s\<lparr>al_name := v, al_valid := Unknown\<rparr>"
  "snd (addLinode_updateName s v) = [Send (ReqExists ''linode'' v)]"
  by (simp_all add: addLinode_updateName_def addLinode_checkValidity_def)

lemma addLinode_onReply_submitting [simp]:
  "al_submitting (fst (addLinode_onReply s q r)) = al_submitting s"
  by (cases "(s, q, r)" rule: addLinode_onReply.cases) simp_all

lemma addLinode_onReply_name [simp]:
  "al_name (fst (addLinode_onReply s q r)) = al_name s"
  by (cases "(s, q, r)" rule: addLinode_onReply.cases) simp_all

lemma addLinode_onReply_orgId [simp]:
  "al_orgId (fst (addLinode_onReply s q r)) = al_orgId s"
  by (cases "(s, q, r)" rule: addLinode_onReply.cases) simp_all

lemma addLinode_onReply_valid:
  "al_valid (fst (addLinode_onReply s q r)) =
     (case (q, r) of (ReqExists _ _, Inr x) \<Rightarrow> exists_verdict (resp_exists x) | _ \<Rightarrow> al_valid s)"
  by (cases "(s, q, r)" rule: addLinode_onReply.cases) simp_all

lemma addLinode_updateOrg_fields [simp]:
  "al_name (addLinode_updateOrg s opts sel) = al_name s"
  "al_valid (addLinode_updateOrg s opts sel) = al_valid s"
  "al_submitting (addLinode_updateOrg s opts sel) = al_submitting s"
  by (simp_all add: addLinode_updateOrg_def split: option.splits)

text \<open>C25. The loop of \<open>updateOrg\<close> returns the parsed value of the first selected
  option, and nothing when none is selected.\<close>

theorem addLinode_firstSelected_find:
  "addLinode_firstSelected xs = map_option (parse_int10 \<circ> opt_value \<circ> fst) (find snd xs)"
  by (induction xs rule: addLinode_firstSelected.induct) auto

end
