(* ===== verification/Details.thy ===== *)
theory Details
  imports Interface
begin

text \<open>
  The two read-only views of the snapshot. \<open>OrgDetails\<close>
  (\<open>src/web/src/components/OrgDetails.js\<close>) is stateless: it lists an
  organisation's users, each a link whose tap calls \<open>selectUser(user.id)\<close>, and its
  linodes. \<open>UserDetails\<close> (\<open>src/web/src/components/UserDetails.js\<close>) keeps the
  fetched \<open>user\<close>; \<open>componentWillMount\<close> fetches it unless the \<open>userId\<close> prop is
  falsy, and the view names the organisation of each linode through the loop
  \<open>getOrgNameById\<close>, whose fall-through result \<open>undefined\<close> is \<open>None\<close>.
\<close>

section \<open>OrgDetails\<close>

text \<open>The user links of one organisation: the text shown and the id the tap selects.\<close>

definition orgDetails_userLinks :: "org \<Rightarrow> (string \<times> user_id) list" where
  [view_defs]: "orgDetails_userLinks g = map (\<lambda>u. (uref_email u, uref_id u)) (org_users g)"

definition orgDetails_linodeNames :: "org \<Rightarrow> string list" where
  [view_defs]: "orgDetails_linodeNames g = map lref_name (org_linodes g)"

text \<open>A list section of a details view: a placeholder line when the list is empty, its
  rows otherwise.\<close>

datatype 'a rows = EmptyRows string | Rows "'a list"

definition list_rows :: "string \<Rightarrow> 'a list \<Rightarrow> 'a rows" where
  "list_rows none xs = (if xs = [] then EmptyRows none else Rows xs)"

record org_view =
  ov_name :: string
  ov_users :: "(string \<times> user_id) rows"
  ov_linodes :: "string rows"

definition orgDetails_render :: "org \<Rightarrow> org_view" where
  [view_defs]: "orgDetails_render g =
     \<lparr>ov_name = org_name g, ov_users = list_rows ''No Users'' (orgDetails_userLinks g),
      ov_linodes = list_rows ''No Linodes'' (orgDetails_linodeNames g)\<rparr>"

section \<open>UserDetails\<close>

record userdetails =
  udt_user :: "user_detail option"

definition userDetails_init :: userdetails where
  "userDetails_init = \<lparr>udt_user = None\<rparr>"

definition userDetails_componentWillMount :: "user_id option \<Rightarrow> effect list" where
  [handler_defs]: "userDetails_componentWillMount uid =
     (if \<not> js_truthy_id uid then [] else [Send (ReqUser (the uid))])"

fun userDetails_onReply :: "userdetails \<Rightarrow> request \<Rightarrow> outcome \<Rightarrow> userdetails \<times> effect list" where
  "userDetails_onReply s (ReqUser _) (Inr (UserReply u)) = (s\<lparr>udt_user := Some u\<rparr>, [])"
| "userDetails_onReply s (ReqUser _) (Inl e) = (s, [Report e ''failed fetching user details''])"
| "userDetails_onReply s _ _ = (s, [])"

fun getOrgNameById :: "org_ref list \<Rightarrow> org_id \<Rightarrow> string option" where
  "getOrgNameById [] i = None"
| "getOrgNameById (g # gs) i = (if oref_id g = i then Some (oref_name g) else getOrgNameById gs i)"

datatype details_view =
    DetailsLoading
  | DetailsShown string "string rows" "(string \<times> string option) rows"

definition userDetails_view :: "userdetails \<Rightarrow> details_view" where
  [view_defs]: "userDetails_view s =
     (case udt_user s of
        None \<Rightarrow> DetailsLoading
      | Some u \<Rightarrow> DetailsShown (ud_email u)
          (list_rows ''No associated organizations'' (map oref_name (ud_orgs u)))
          (list_rows ''No associated linodes''
             (map (\<lambda>l. (lref_name l, getOrgNameById (ud_orgs u) (lref_org l))) (ud_linodes u))))"

section \<open>Properties\<close>

text \<open>The user dialog fetches the user on mount only for a non-zero id: \<open>!userId\<close>
  also holds of the id \<open>0\<close>.\<close>

theorem userDetails_componentWillMount_eq:
  "userDetails_componentWillMount uid =
     (case uid of None \<Rightarrow> [] | Some n \<Rightarrow> if n = 0 then [] else [Send (ReqUser n)])"
  by (cases uid) (simp_all add: userDetails_componentWillMount_def)

text \<open>C24. The loop finds the name of the first organisation with the id, and answers
  \<open>undefined\<close> exactly when the user belongs to no organisation with that id.\<close>

theorem getOrgNameById_find:
  "getOrgNameById gs i = map_option oref_name (find (\<lambda>g. oref_id g = i) gs)"
  by (induction gs) auto

lemma getOrgNameById_None_iff:
  "getOrgNameById gs i = None \<longleftrightarrow> i \<notin> oref_id ` set gs"
  by (induction gs) auto

end
