(* ===== verification/Modal.thy ===== *)
theory Modal
  imports Prelude
begin

text \<open>
  The dialog wrapper \<open>MyModal\<close>, \<open>src/web/src/components/MyModal.js\<close>. It keeps no
  state: it renders a react-bootstrap \<open>Modal\<close> from its props. The close callback a
  caller passes is a value of the type parameter \<open>'c\<close>; the App interprets it. A user
  reaches the callback three ways: the header's close button (rendered when
  \<open>closeable\<close>), the footer's Close button (rendered when \<open>closeable\<close>), and
  \<open>onHide\<close>, which react-bootstrap fires on Escape or a click on the backdrop of a shown
  dialog, and which MyModal binds to \<open>close\<close> whatever \<open>closeable\<close> is.
\<close>

record 'c modal =
  md_visible :: bool
  md_closeable :: bool
  md_title :: string
  md_close :: 'c

datatype modal_action = HeaderClose | FooterClose | Hide

definition modal_closeButton :: "'c modal \<Rightarrow> bool" where
  [view_defs]: "modal_closeButton m = md_closeable m"

definition modal_footer :: "'c modal \<Rightarrow> bool" where
  [view_defs]: "modal_footer m = md_closeable m"

text \<open>The callback a user action on the dialog invokes: \<open>None\<close> when the dialog is not
  shown or the action's control is not rendered.\<close>

fun modal_request :: "'c modal \<Rightarrow> modal_action \<Rightarrow> 'c option" where
  "modal_request m HeaderClose =
     (if md_visible m \<and> modal_closeButton m then Some (md_close m) else None)"
| "modal_request m FooterClose =
     (if md_visible m \<and> modal_footer m then Some (md_close m) else None)"
| "modal_request m Hide = (if md_visible m then Some (md_close m) else None)"

section \<open>Properties\<close>

lemma modal_request_Some:
  "modal_request m a = Some c \<Longrightarrow> md_visible m \<and> c = md_close m"
  by (cases a) (auto split: if_splits)

text \<open>On a dialog that is not closeable the only way to its callback is \<open>onHide\<close>:
  MyModal hides the close controls but still binds \<open>onHide\<close> to \<open>close\<close>.\<close>

lemma modal_request_not_closeable:
  "\<not> md_closeable m \<Longrightarrow> modal_request m a =
     (if a = Hide \<and> md_visible m then Some (md_close m) else None)"
  by (cases a) (simp_all add: modal_closeButton_def modal_footer_def)

end
