(* ===== verification/App.thy ===== *)
theory App
  imports Interface Modal
begin

text \<open>
  The root coordinator, class \<open>App\<close> of \<open>src/web/src/App.js\<close>. Its state is the
  record \<open>app\<close>: the snapshot \<open>orgs\<close> (\<open>null\<close> until the first fetch answers), the
  selected user, one flag per creation dialog, and the error flag \<open>broke\<close> with the
  error and its message. The methods are functions on the record; those that call
  \<open>fetchOrgs\<close> also return the request they send. \<open>render\<close> is modelled by what it
  decides: which buttons are disabled (\<open>app_buttonDisabled\<close>) and the props of the
  five dialogs (\<open>app_modal\<close>), whose close callbacks are the values of
  \<open>close_cb\<close>, run by \<open>app_close\<close>.
\<close>

record app =
  orgs :: "org list option"
  selectedUserId :: "user_id option"
  addingOrg :: bool
  addingUser :: bool
  addingLinode :: bool
  broke :: bool
  error :: "failure option"
  errorMsg :: msg

definition app_init :: app where
  "app_init = \<lparr>orgs = None, selectedUserId = None, addingOrg = False, addingUser = False,
     addingLinode = False, broke = False, error = None, errorMsg = []\<rparr>"

definition app_fetchOrgs :: "effect list" where
  [handler_defs]: "app_fetchOrgs = [Send ReqOrgs]"

definition app_selectUser :: "app \<Rightarrow> user_id \<Rightarrow> app" where
  [handler_defs]: "app_selectUser s uid = s\<lparr>selectedUserId := Some uid\<rparr>"

definition app_unselectUser :: "app \<Rightarrow> app" where
  [handler_defs]: "app_unselectUser s = s\<lparr>selectedUserId := None\<rparr>"

definition app_setError :: "app \<Rightarrow> failure \<Rightarrow> msg \<Rightarrow> app" where
  [handler_defs]: "app_setError s err m =
     s\<lparr>selectedUserId := None, addingOrg := False, addingUser := False, addingLinode := False,
       broke := True, error := Some err, errorMsg := m\<rparr>"

text \<open>The \<open>then\<close> and \<open>catch\<close> callbacks of \<open>fetchOrgs\<close>.\<close>

fun app_onReply :: "app \<Rightarrow> request \<Rightarrow> outcome \<Rightarrow> app" where
  "app_onReply s ReqOrgs (Inr (OrgsReply os)) = s\<lparr>orgs := Some os\<rparr>"
| "app_onReply s ReqOrgs (Inl e) = app_setError s e ''Failed fetching orgs''"
| "app_onReply s _ _ = s"

text \<open>\<open>closeReload(action)\<close>: the switch clears the named flag (any other action is only
  logged), then \<open>fetchOrgs\<close> runs in every case.\<close>

definition app_closeReload :: "app \<Rightarrow> string \<Rightarrow> app \<times> effect list" where
  [handler_defs]: "app_closeReload s action =
     ((if action = ''addingOrg'' then s\<lparr>addingOrg := False\<rparr>
       else if action = ''addingUser'' then s\<lparr>addingUser := False\<rparr>
       else if action = ''addingLinode'' then s\<lparr>addingLinode := False\<rparr>
       else s), app_fetchOrgs)"

definition app_addOrg :: "app \<Rightarrow> app" where
  [handler_defs]: "app_addOrg s = s\<lparr>addingOrg := True\<rparr>"

definition app_addUser :: "app \<Rightarrow> app" where
  [handler_defs]: "app_addUser s = s\<lparr>addingUser := True\<rparr>"

definition app_addLinode :: "app \<Rightarrow> app" where
  [handler_defs]: "app_addLinode s = s\<lparr>addingLinode := True\<rparr>"

section \<open>What render decides\<close>

definition app_orgsExist :: "app \<Rightarrow> bool" where
  [view_defs]: "app_orgsExist s = (case orgs s of None \<Rightarrow> False | Some os \<Rightarrow> 0 < length os)"

datatype button = BtnAddOrg | BtnAddUser | BtnAddLinode

fun app_buttonDisabled :: "app \<Rightarrow> button \<Rightarrow> bool" where
  "app_buttonDisabled s BtnAddOrg = False"
| "app_buttonDisabled s BtnAddUser = (\<not> app_orgsExist s)"
| "app_buttonDisabled s BtnAddLinode = (\<not> app_orgsExist s)"

text \<open>The tap handlers of the three buttons.\<close>

fun app_button :: "app \<Rightarrow> button \<Rightarrow> app" where
  "app_button s BtnAddOrg = app_addOrg s"
| "app_button s BtnAddUser = app_addUser s"
| "app_button s BtnAddLinode = app_addLinode s"

datatype dialog = DlgUserDetails | DlgAddOrg | DlgAddUser | DlgAddLinode | DlgError

datatype close_cb = CbUnselect | CbCloseAddOrg | CbCloseAddUser | CbCloseAddLinode | CbNothing

fun app_modal :: "app \<Rightarrow> dialog \<Rightarrow> close_cb modal" where
  "app_modal s DlgUserDetails = \<lparr>md_visible = (selectedUserId s \<noteq> None), md_closeable = True,
     md_title = ''User details'', md_close = CbUnselect\<rparr>"
| "app_modal s DlgAddOrg = \<lparr>md_visible = addingOrg s, md_closeable = True,
     md_title = ''Add Organization'', md_close = CbCloseAddOrg\<rparr>"
| "app_modal s DlgAddUser = \<lparr>md_visible = addingUser s, md_closeable = True,
     md_title = ''Add user'', md_close = CbCloseAddUser\<rparr>"
| "app_modal s DlgAddLinode = \<lparr>md_visible = addingLinode s, md_closeable = True,
     md_title = ''Add linode'', md_close = CbCloseAddLinode\<rparr>"
| "app_modal s DlgError = \<lparr>md_visible = broke s, md_closeable = False,
     md_title = ''Something went wrong...'', md_close = CbNothing\<rparr>"

text \<open>The close callbacks passed to the dialogs: \<open>unselectUser\<close>, the three inline
  \<open>setState({adding...: false})\<close> arrows (no reload), and the error dialog's no-op.\<close>

fun app_close :: "app \<Rightarrow> close_cb \<Rightarrow> app" where
  "app_close s CbUnselect = app_unselectUser s"
| "app_close s CbCloseAddOrg = s\<lparr>addingOrg := False\<rparr>"
| "app_close s CbCloseAddUser = s\<lparr>addingUser := False\<rparr>"
| "app_close s CbCloseAddLinode = s\<lparr>addingLinode := False\<rparr>"
| "app_close s CbNothing = s"

definition all_dialogs :: "dialog list" where
  "all_dialogs = [DlgUserDetails, DlgAddOrg, DlgAddUser, DlgAddLinode, DlgError]"

definition app_visible :: "app \<Rightarrow> dialog list" where
  [view_defs]: "app_visible s = filter (\<lambda>d. md_visible (app_modal s d)) all_dialogs"

section \<open>Properties\<close>

lemma app_init_simps [simp]:
  "orgs app_init = None" "selectedUserId app_init = None" "\<not> addingOrg app_init"
  "\<not> addingUser app_init" "\<not> addingLinode app_init" "\<not> broke app_init"
  by (simp_all add: app_init_def)

lemma app_setError_fields [simp]:
  "broke (app_setError s e m)" "errorMsg (app_setError s e m) = m"
  "error (app_setError s e m) = Some e" "selectedUserId (app_setError s e m) = None"
  "\<not> addingOrg (app_setError s e m)" "\<not> addingUser (app_setError s e m)"
  "\<not> addingLinode (app_setError s e m)" "orgs (app_setError s e m) = orgs s"
  by (simp_all add: app_setError_def)

lemma app_visible_simps:
  "DlgUserDetails \<in> set (app_visible s) \<longleftrightarrow> selectedUserId s \<noteq> None"
  "DlgAddOrg \<in> set (app_visible s) \<longleftrightarrow> addingOrg s"
  "DlgAddUser \<in> set (app_visible s) \<longleftrightarrow> addingUser s"
  "DlgAddLinode \<in> set (app_visible s) \<longleftrightarrow> addingLinode s"
  "DlgError \<in> set (app_visible s) \<longleftrightarrow> broke s"
  by (simp_all add: app_visible_def all_dialogs_def)

lemma app_closeReload_effects [simp]:
  "snd (app_closeReload s a) = [Send ReqOrgs]"
  by (simp add: app_closeReload_def app_fetchOrgs_def)

lemma app_closeReload_broke [simp]:
  "broke (fst (app_closeReload s a)) = broke s"
  by (simp add: app_closeReload_def)

lemma app_onReply_broke:
  "broke (app_onReply s q r) \<longleftrightarrow> broke s \<or> (q = ReqOrgs \<and> (\<exists>e. r = Inl e))"
  by (cases "(s, q, r)" rule: app_onReply.cases) auto

lemma app_close_broke [simp]: "broke (app_close s c) = broke s"
  by (cases c) (simp_all add: app_unselectUser_def)

lemma app_button_broke [simp]: "broke (app_button s b) = broke s"
  by (cases b) (simp_all add: app_addOrg_def app_addUser_def app_addLinode_def)

end
