(* ===== verification/System.thy ===== *)
theory System
  imports AddOrg AddUser AddLinode Details App
begin

text \<open>
  The running application: the App, every form and detail view instance that was ever
  mounted, the requests in flight and the debounce timers, driven by one event at a time
  (the JavaScript event loop runs one callback to completion before the next).

  \<^item> Instances: a dialog's body is mounted when the App shows the dialog and unmounted
    when it hides it (react-bootstrap renders a hidden \<open>Modal\<close>'s body not at all).
    Instances are kept in stores indexed by a counter, as objects on the heap: an
    unmounted form still receives the replies of its requests and still runs its debounce
    timer. React ignores \<open>setState\<close> on an unmounted component, so such a reply does not
    change the stored state, but its calls of \<open>setError\<close> and \<open>closeReload\<close> run.
  \<^item> Requests in flight are the list \<open>pending\<close> in issue order; any of them may settle
    next (\<open>Deliver k\<close>), which is how responses overtake each other. \<open>sent\<close> logs every
    request issued.
  \<^item> The DOM decides which user events exist: a shown dialog's backdrop covers the page,
    a disabled button does nothing, a disabled submit button blocks submission of its
    form, the controls of a dialog exist only while it is shown.
\<close>

datatype origin = OApp | OOrg nat | OUser nat | OLinode nat | ODetails nat

record sys =
  sapp :: app
  orgForms :: "nat \<Rightarrow> addorg option"
  userForms :: "nat \<Rightarrow> adduser option"
  linodeForms :: "nat \<Rightarrow> addlinode option"
  detailViews :: "nat \<Rightarrow> userdetails option"
  mounted :: "dialog \<Rightarrow> nat option"
  nextId :: nat
  pending :: "(origin \<times> request) list"
  timers :: "nat list"
  sent :: "request list"

section \<open>Interpreting effects\<close>

definition sys_send :: "origin \<Rightarrow> request \<Rightarrow> sys \<Rightarrow> sys" where
  "sys_send og r t = t\<lparr>pending := pending t @ [(og, r)], sent := sent t @ [r]\<rparr>"

fun sys_sends :: "origin \<Rightarrow> request list \<Rightarrow> sys \<Rightarrow> sys" where
  "sys_sends og [] t = t"
| "sys_sends og (r # rs) t = sys_sends og rs (sys_send og r t)"

text \<open>The action string each creation dialog's \<open>closeReload\<close> prop passes on.\<close>

fun close_action :: "origin \<Rightarrow> string" where
  "close_action (OOrg _) = ''addingOrg''"
| "close_action (OUser _) = ''addingUser''"
| "close_action (OLinode _) = ''addingLinode''"
| "close_action _ = []"

definition sys_mount :: "dialog \<Rightarrow> sys \<Rightarrow> sys" where
  "sys_mount d t =
     (let i = nextId t; t1 = t\<lparr>mounted := (mounted t)(d := Some i), nextId := Suc i\<rparr>
      in case d of
           DlgAddOrg \<Rightarrow> t1\<lparr>orgForms := (orgForms t)(i \<mapsto> addOrg_init)\<rparr>
         | DlgAddUser \<Rightarrow> t1\<lparr>userForms := (userForms t)(i \<mapsto> addUser_init)\<rparr>
         | DlgAddLinode \<Rightarrow> t1\<lparr>linodeForms := (linodeForms t)(i \<mapsto> addLinode_init)\<rparr>
         | DlgUserDetails \<Rightarrow>
             sys_sends (ODetails i)
               (sent_requests (userDetails_componentWillMount (selectedUserId (sapp t))))
               (t1\<lparr>detailViews := (detailViews t)(i \<mapsto> userDetails_init)\<rparr>)
         | DlgError \<Rightarrow> t)"

definition sys_reconcile1 :: "sys \<Rightarrow> dialog \<Rightarrow> sys" where
  "sys_reconcile1 t d =
     (let vis = md_visible (app_modal (sapp t) d)
      in if vis \<and> mounted t d = None then sys_mount d t
         else if \<not> vis \<and> mounted t d \<noteq> None then t\<lparr>mounted := (mounted t)(d := None)\<rparr>
         else t)"

definition body_dialogs :: "dialog list" where
  "body_dialogs = [DlgUserDetails, DlgAddOrg, DlgAddUser, DlgAddLinode]"

definition sys_reconcile :: "sys \<Rightarrow> sys" where
  "sys_reconcile t = foldl sys_reconcile1 t body_dialogs"

definition sys_setApp :: "app \<Rightarrow> sys \<Rightarrow> sys" where
  "sys_setApp a t = sys_reconcile (t\<lparr>sapp := a\<rparr>)"

fun sys_effects :: "origin \<Rightarrow> effect list \<Rightarrow> sys \<Rightarrow> sys" where
  "sys_effects og [] t = t"
| "sys_effects og (Send r # es) t = sys_effects og es (sys_send og r t)"
| "sys_effects og (Report e m # es) t = sys_effects og es (sys_setApp (app_setError (sapp t) e m) t)"
| "sys_effects og (CloseReload # es) t =
     sys_effects og es
       (let (a, fx) = app_closeReload (sapp t) (close_action og)
        in sys_sends OApp (sent_requests fx) (sys_setApp a t))"
| "sys_effects og (Debounce # es) t =
     sys_effects og es
       (case og of
          OOrg i \<Rightarrow> t\<lparr>timers := (if i \<in> set (timers t) then timers t else timers t @ [i])\<rparr>
        | _ \<Rightarrow> t)"

section \<open>Instances\<close>

definition org_form :: "sys \<Rightarrow> nat \<Rightarrow> addorg" where
  "org_form t i = (case orgForms t i of Some s \<Rightarrow> s | None \<Rightarrow> addOrg_init)"

definition user_form :: "sys \<Rightarrow> nat \<Rightarrow> adduser" where
  "user_form t i = (case userForms t i of Some s \<Rightarrow> s | None \<Rightarrow> addUser_init)"

definition linode_form :: "sys \<Rightarrow> nat \<Rightarrow> addlinode" where
  "linode_form t i = (case linodeForms t i of Some s \<Rightarrow> s | None \<Rightarrow> addLinode_init)"

definition detail_view :: "sys \<Rightarrow> nat \<Rightarrow> userdetails" where
  "detail_view t i = (case detailViews t i of Some s \<Rightarrow> s | None \<Rightarrow> userDetails_init)"

text \<open>\<open>setState\<close> of instance \<open>i\<close> takes effect only while \<open>i\<close> is mounted.\<close>

definition set_org_form :: "nat \<Rightarrow> addorg \<Rightarrow> sys \<Rightarrow> sys" where
  "set_org_form i s t =
     (if mounted t DlgAddOrg = Some i then t\<lparr>orgForms := (orgForms t)(i \<mapsto> s)\<rparr> else t)"

definition set_user_form :: "nat \<Rightarrow> adduser \<Rightarrow> sys \<Rightarrow> sys" where
  "set_user_form i s t =
     (if mounted t DlgAddUser = Some i then t\<lparr>userForms := (userForms t)(i \<mapsto> s)\<rparr> else t)"

definition set_linode_form :: "nat \<Rightarrow> addlinode \<Rightarrow> sys \<Rightarrow> sys" where
  "set_linode_form i s t =
     (if mounted t DlgAddLinode = Some i then t\<lparr>linodeForms := (linodeForms t)(i \<mapsto> s)\<rparr> else t)"

definition set_detail_view :: "nat \<Rightarrow> userdetails \<Rightarrow> sys \<Rightarrow> sys" where
  "set_detail_view i s t =
     (if mounted t DlgUserDetails = Some i then t\<lparr>detailViews := (detailViews t)(i \<mapsto> s)\<rparr> else t)"

text \<open>The options the selector of a creation form shows: App passes \<open>this.state.orgs\<close>.\<close>

definition sys_orgOptions :: "sys \<Rightarrow> select_option list" where
  "sys_orgOptions t = org_options (case orgs (sapp t) of None \<Rightarrow> [] | Some os \<Rightarrow> os)"

text \<open>The ids of the user links OrgDetails renders for the snapshot (none while
  \<open>orgsExist\<close> is false).\<close>

definition app_userLinkIds :: "app \<Rightarrow> user_id list" where
  "app_userLinkIds a =
     (case orgs a of None \<Rightarrow> [] | Some os \<Rightarrow> concat (map (map snd \<circ> orgDetails_userLinks) os))"

text \<open>The organisation list \<open>render\<close> shows under the buttons: a prompt while
  \<open>orgsExist\<close> is false, one OrgDetails per organisation otherwise.\<close>

definition app_orgList :: "app \<Rightarrow> org_view rows" where
  "app_orgList a =
     (case orgs a of
        None \<Rightarrow> EmptyRows ''Add an organization to get started!''
      | Some os \<Rightarrow> list_rows ''Add an organization to get started!'' (map orgDetails_render os))"

section \<open>Events and the step function\<close>

datatype event =
    Tap button
  | TapUser user_id
  | ModalAct dialog modal_action
  | OrgNameInput string
  | SubmitOrg
  | UserEmailInput string
  | UserOrgSelect "bool list"
  | SubmitUser
  | LinodeNameInput string
  | LinodeOrgSelect nat
  | SubmitLinode
  | TimerFire nat
  | Deliver nat outcome
  | Reload

fun sys_deliver :: "origin \<times> request \<Rightarrow> outcome \<Rightarrow> sys \<Rightarrow> sys" where
  "sys_deliver (OApp, q) r t = sys_setApp (app_onReply (sapp t) q r) t"
| "sys_deliver (OOrg i, q) r t =
     (let (s, fx) = addOrg_onReply (org_form t i) q r in sys_effects (OOrg i) fx (set_org_form i s t))"
| "sys_deliver (OUser i, q) r t =
     (let (s, fx) = addUser_onReply (user_form t i) q r in sys_effects (OUser i) fx (set_user_form i s t))"
| "sys_deliver (OLinode i, q) r t =
     (let (s, fx) = addLinode_onReply (linode_form t i) q r in sys_effects (OLinode i) fx (set_linode_form i s t))"
| "sys_deliver (ODetails i, q) r t =
     (let (s, fx) = userDetails_onReply (detail_view t i) q r in sys_effects (ODetails i) fx (set_detail_view i s t))"

definition sys_empty :: sys where
  "sys_empty = \<lparr>sapp = app_init, orgForms = Map.empty, userForms = Map.empty,
     linodeForms = Map.empty, detailViews = Map.empty, mounted = (\<lambda>_. None), nextId = 0,
     pending = [], timers = [], sent = []\<rparr>"

text \<open>The page after loading: App's constructor, then \<open>componentWillMount\<close>, which calls
  \<open>fetchOrgs\<close>.\<close>

definition sys_init :: sys where
  "sys_init = sys_effects OApp app_fetchOrgs sys_empty"

definition page_covered :: "sys \<Rightarrow> bool" where
  "page_covered t \<longleftrightarrow> app_visible (sapp t) \<noteq> []"

fun sys_step :: "sys \<Rightarrow> event \<Rightarrow> sys option" where
  "sys_step t (Tap b) =
     (if page_covered t then None
      else if app_buttonDisabled (sapp t) b then Some t
      else Some (sys_setApp (app_button (sapp t) b) t))"
| "sys_step t (TapUser uid) =
     (if page_covered t \<or> uid \<notin> set (app_userLinkIds (sapp t)) then None
      else Some (sys_setApp (app_selectUser (sapp t) uid) t))"
| "sys_step t (ModalAct d a) =
     (case modal_request (app_modal (sapp t) d) a of
        None \<Rightarrow> None
      | Some cb \<Rightarrow> Some (sys_setApp (app_close (sapp t) cb) t))"
| "sys_step t (OrgNameInput v) =
     (case mounted t DlgAddOrg of
        None \<Rightarrow> None
      | Some i \<Rightarrow> (let (s, fx) = addOrg_update (org_form t i) v
                   in Some (sys_effects (OOrg i) fx (set_org_form i s t))))"
| "sys_step t SubmitOrg =
     (case mounted t DlgAddOrg of
        None \<Rightarrow> None
      | Some i \<Rightarrow> if addOrg_submitDisabled (org_form t i) then None
                  else Some (sys_effects (OOrg i) (addOrg_submit (org_form t i)) t))"
| "sys_step t (UserEmailInput v) =
     (case mounted t DlgAddUser of
        None \<Rightarrow> None
      | Some i \<Rightarrow> (let (s, fx) = addUser_updateEmail (user_form t i) v
                   in Some (sys_effects (OUser i) fx (set_user_form i s t))))"
| "sys_step t (UserOrgSelect sel) =
     (case mounted t DlgAddUser of
        None \<Rightarrow> None
      | Some i \<Rightarrow> if length sel \<noteq> length (sys_orgOptions t) then None
                  else Some (set_user_form i (addUser_updateOrg (user_form t i) (sys_orgOptions t) sel) t))"
| "sys_step t SubmitUser =
     (case mounted t DlgAddUser of
        None \<Rightarrow> None
      | Some i \<Rightarrow> if addUser_submitDisabled (user_form t i) then None
                  else Some (sys_effects (OUser i) (addUser_submit (user_form t i)) t))"
| "sys_step t (LinodeNameInput v) =
     (case mounted t DlgAddLinode of
        None \<Rightarrow> None
      | Some i \<Rightarrow> (let (s, fx) = addLinode_updateName (linode_form t i) v
                   in Some (sys_effects (OLinode i) fx (set_linode_form i s t))))"
| "sys_step t (LinodeOrgSelect k) =
     (case mounted t DlgAddLinode of
        None \<Rightarrow> None
      | Some i \<Rightarrow> if k \<ge> length (sys_orgOptions t) \<or> opt_disabled (sys_orgOptions t ! k) then None
                  else Some (set_linode_form i (addLinode_updateOrg (linode_form t i) (sys_orgOptions t)
                               (map (\<lambda>j. j = k) [0..<length (sys_orgOptions t)])) t))"
| "sys_step t SubmitLinode =
     (case mounted t DlgAddLinode of
        None \<Rightarrow> None
      | Some i \<Rightarrow> if addLinode_submitDisabled (linode_form t i) then None
                  else Some (sys_effects (OLinode i) (addLinode_submit (linode_form t i)) t))"
| "sys_step t (TimerFire i) =
     (if i \<notin> set (timers t) then None
      else Some (sys_effects (OOrg i) (addOrg_checkValidity (org_form t i))
                   (t\<lparr>timers := remove1 i (timers t)\<rparr>)))"
| "sys_step t (Deliver k r) =
     (if k < length (pending t) \<and> reply_fits (snd (pending t ! k)) r
      then Some (sys_deliver (pending t ! k) r (t\<lparr>pending := remove_nth k (pending t)\<rparr>))
      else None)"
| "sys_step t Reload = Some sys_init"

fun sys_run :: "sys \<Rightarrow> event list \<Rightarrow> sys option" where
  "sys_run t [] = Some t"
| "sys_run t (e # es) = (case sys_step t e of None \<Rightarrow> None | Some t' \<Rightarrow> sys_run t' es)"

inductive reach :: "sys \<Rightarrow> bool" where
  reach_init: "reach sys_init"
| reach_step: "reach t \<Longrightarrow> sys_step t e = Some t' \<Longrightarrow> reach t'"

section \<open>Dialog invariant vocabulary\<close>

text \<open>\<open>one_dialog\<close>: at most one dialog is shown. \<open>shrinks a b\<close>: going from App
  state \<open>a\<close> to \<open>b\<close> shows no dialog that was hidden, except possibly the error
  dialog alone.\<close>

definition one_dialog :: "app \<Rightarrow> bool" where
  "one_dialog a \<longleftrightarrow> (\<forall>d d'. d \<in> set (app_visible a) \<longrightarrow> d' \<in> set (app_visible a) \<longrightarrow> d = d')"

definition shrinks :: "app \<Rightarrow> app \<Rightarrow> bool" where
  "shrinks a b \<longleftrightarrow> set (app_visible b) \<subseteq> set (app_visible a) \<or> set (app_visible b) \<subseteq> {DlgError}"


text \<open>\<open>error_alone\<close>: when \<open>broke\<close> is set, no other dialog flag is.\<close>

definition error_alone :: "app \<Rightarrow> bool" where
  "error_alone a \<longleftrightarrow> (broke a \<longrightarrow> \<not> addingOrg a \<and> \<not> addingUser a \<and> \<not> addingLinode a
                                 \<and> selectedUserId a = None)"

section \<open>Frame lemmas\<close>

text \<open>The definitions a concrete run unfolds, for evaluation by the simplifier.\<close>

lemmas sys_eval = sys_init_def sys_empty_def sys_send_def remove_nth_def sys_setApp_def
  sys_reconcile_def sys_reconcile1_def body_dialogs_def sys_mount_def page_covered_def
  org_form_def user_form_def linode_form_def detail_view_def set_org_form_def set_user_form_def
  set_linode_form_def set_detail_view_def sys_orgOptions_def app_userLinkIds_def app_visible_def
  all_dialogs_def org_options_def handler_defs view_defs parse_int10_small

lemma sys_run_reach: "sys_run t es = Some t' \<Longrightarrow> reach t \<Longrightarrow> reach t'"
proof (induction es arbitrary: t)
  case Nil
  then show ?case by simp
next
  case (Cons e es)
  then show ?case by (auto split: option.splits intro: reach_step)
qed

lemma sys_send_fields [simp]:
  "sapp (sys_send og r t) = sapp t" "mounted (sys_send og r t) = mounted t"
  "orgForms (sys_send og r t) = orgForms t" "userForms (sys_send og r t) = userForms t"
  "linodeForms (sys_send og r t) = linodeForms t" "timers (sys_send og r t) = timers t"
  "nextId (sys_send og r t) = nextId t"
  by (simp_all add: sys_send_def)

lemma sys_sends_fields [simp]:
  "sapp (sys_sends og rs t) = sapp t" "mounted (sys_sends og rs t) = mounted t"
  "timers (sys_sends og rs t) = timers t"
  by (induction rs arbitrary: t) simp_all

lemma sys_sends_stores [simp]:
  "orgForms (sys_sends og rs t) = orgForms t" "userForms (sys_sends og rs t) = userForms t"
  "linodeForms (sys_sends og rs t) = linodeForms t" "detailViews (sys_sends og rs t) = detailViews t"
  "nextId (sys_sends og rs t) = nextId t"
  by (induction rs arbitrary: t) (simp_all add: sys_send_def)

lemma sys_mount_sapp [simp]: "sapp (sys_mount d t) = sapp t"
  by (cases d) (simp_all add: sys_mount_def Let_def)

lemma sys_reconcile1_sapp [simp]: "sapp (sys_reconcile1 t d) = sapp t"
  by (simp add: sys_reconcile1_def Let_def)

lemma sys_reconcile_sapp [simp]: "sapp (sys_reconcile t) = sapp t"
  by (simp add: sys_reconcile_def body_dialogs_def)

lemma sys_setApp_sapp [simp]: "sapp (sys_setApp a t) = a"
  by (simp add: sys_setApp_def)

lemma set_form_sapp [simp]:
  "sapp (set_org_form i s t) = sapp t" "sapp (set_user_form i u t) = sapp t"
  "sapp (set_linode_form i l t) = sapp t" "sapp (set_detail_view i v t) = sapp t"
  by (simp_all add: set_org_form_def set_user_form_def set_linode_form_def set_detail_view_def)

lemma sys_effects_broke:
  "broke (sapp t) \<Longrightarrow> broke (sapp (sys_effects og es t))"
  by (induction og es t rule: sys_effects.induct)
     (auto simp: app_closeReload_def split: origin.splits prod.splits)

lemma sys_deliver_broke:
  "broke (sapp t) \<Longrightarrow> broke (sapp (sys_deliver p r t))"
  by (cases "(p, r, t)" rule: sys_deliver.cases)
     (auto simp: app_onReply_broke intro: sys_effects_broke split: prod.splits)

lemma sys_step_broke:
  assumes "sys_step t e = Some t'" and "e \<noteq> Reload" and "broke (sapp t)"
  shows "broke (sapp t')"
  using assms
  by (cases e)
     (auto simp: app_selectUser_def sys_effects_broke sys_deliver_broke Let_def
           split: if_splits option.splits prod.splits)

text \<open>C1. Fail-stop: once \<open>broke\<close> is set, no event but a reload of the page clears
  it. No App method, reply, timer or close callback resets the flag.\<close>

theorem sys_step_keeps_broke:
  assumes "sys_step t e = Some t'" and "e \<noteq> Reload" and "broke (sapp t)"
  shows "broke (sapp t')"
  using assms by (rule sys_step_broke)

section \<open>Shown dialogs\<close>

lemma in_app_visible: "d \<in> set (app_visible a) \<longleftrightarrow> md_visible (app_modal a d)"
  by (cases d) (simp_all add: app_visible_def all_dialogs_def)

lemma md_visible_app_modal:
  "md_visible (app_modal a d) = (case d of
      DlgUserDetails \<Rightarrow> selectedUserId a \<noteq> None | DlgAddOrg \<Rightarrow> addingOrg a
    | DlgAddUser \<Rightarrow> addingUser a | DlgAddLinode \<Rightarrow> addingLinode a | DlgError \<Rightarrow> broke a)"
  by (cases d) simp_all

lemma shrinks_refl [simp]: "shrinks a a"
  by (simp add: shrinks_def)

lemma shrinks_trans: "shrinks a b \<Longrightarrow> shrinks b c \<Longrightarrow> shrinks a c"
  unfolding shrinks_def by blast

lemma shrinks_one_dialog: "shrinks a b \<Longrightarrow> one_dialog a \<Longrightarrow> one_dialog b"
  unfolding shrinks_def one_dialog_def by blast

lemma shrinks_setError [simp]: "shrinks a (app_setError a e m)"
proof -
  have "set (app_visible (app_setError a e m)) \<subseteq> {DlgError}"
    by (auto simp: in_app_visible md_visible_app_modal split: dialog.splits)
  then show ?thesis by (simp add: shrinks_def)
qed

lemma shrinks_lower:
  "(\<And>d. md_visible (app_modal b d) \<Longrightarrow> md_visible (app_modal a d)) \<Longrightarrow> shrinks a b"
  by (auto simp: shrinks_def in_app_visible)

lemma shrinks_closeReload [simp]: "shrinks a (fst (app_closeReload a x))"
  by (rule shrinks_lower) (auto simp: app_closeReload_def md_visible_app_modal split: dialog.splits if_splits)

lemma shrinks_close [simp]: "shrinks a (app_close a c)"
  by (rule shrinks_lower) (cases c; auto simp: app_unselectUser_def md_visible_app_modal split: dialog.splits)

lemma shrinks_onReply [simp]: "shrinks a (app_onReply a q r)"
proof (cases "(a, q, r)" rule: app_onReply.cases)
  case (1 s os)
  then show ?thesis by (auto intro!: shrinks_lower simp: md_visible_app_modal split: dialog.splits)
qed auto

lemma sys_effects_CloseReload:
  "sys_effects og (CloseReload # es) t =
     sys_effects og es (sys_send OApp ReqOrgs (sys_setApp (fst (app_closeReload (sapp t) (close_action og))) t))"
  by (simp add: split_beta)

lemma sys_effects_shrinks: "shrinks (sapp t) (sapp (sys_effects og es t))"
proof (induction es arbitrary: t)
  case Nil
  show ?case by simp
next
  case (Cons f es)
  show ?case
  proof (cases f)
    case (Send r)
    with Cons.IH [of "sys_send og r t"] show ?thesis by simp
  next
    case (Report e m)
    have "shrinks (app_setError (sapp t) e m)
            (sapp (sys_effects og es (sys_setApp (app_setError (sapp t) e m) t)))"
      using Cons.IH [of "sys_setApp (app_setError (sapp t) e m) t"] by simp
    with Report show ?thesis by (simp add: shrinks_trans [OF shrinks_setError])
  next
    case CloseReload
    let ?a = "fst (app_closeReload (sapp t) (close_action og))"
    have "shrinks ?a (sapp (sys_effects og es (sys_send OApp ReqOrgs (sys_setApp ?a t))))"
      using Cons.IH [of "sys_send OApp ReqOrgs (sys_setApp ?a t)"] by simp
    with CloseReload show ?thesis
      by (simp only: sys_effects_CloseReload) (rule shrinks_trans [OF shrinks_closeReload])
  next
    case Debounce
    have "shrinks (sapp t) (sapp (sys_effects og es (t\<lparr>timers := ts\<rparr>)))" for ts
      using Cons.IH [of "t\<lparr>timers := ts\<rparr>"] by simp
    with Debounce Cons.IH show ?thesis by (cases og) simp_all
  qed
qed

lemma sys_effects_shrinks' [simp]: "sapp t = a \<Longrightarrow> shrinks a (sapp (sys_effects og es t))"
  using sys_effects_shrinks by blast

lemma sys_deliver_shrinks: "shrinks (sapp t) (sapp (sys_deliver p r t))"
  by (cases "(p, r, t)" rule: sys_deliver.cases) (simp_all add: split_beta)

lemma one_dialog_single: "app_visible a = [d] \<Longrightarrow> one_dialog a"
  by (simp add: one_dialog_def)

lemma one_dialog_open:
  assumes "app_visible a = []"
  shows "one_dialog (a\<lparr>addingOrg := True\<rparr>) \<and> one_dialog (a\<lparr>addingUser := True\<rparr>)
     \<and> one_dialog (a\<lparr>addingLinode := True\<rparr>) \<and> one_dialog (a\<lparr>selectedUserId := Some u\<rparr>)"
proof -
  have f: "selectedUserId a = None" "\<not> addingOrg a" "\<not> addingUser a" "\<not> addingLinode a" "\<not> broke a"
    using assms by (simp_all add: app_visible_def all_dialogs_def split: if_splits)
  from f have "app_visible (a\<lparr>addingOrg := True\<rparr>) = [DlgAddOrg]"
    and "app_visible (a\<lparr>addingUser := True\<rparr>) = [DlgAddUser]"
    and "app_visible (a\<lparr>addingLinode := True\<rparr>) = [DlgAddLinode]"
    and "app_visible (a\<lparr>selectedUserId := Some u\<rparr>) = [DlgUserDetails]"
    by (simp_all add: app_visible_def all_dialogs_def)
  then show ?thesis by (blast intro: one_dialog_single)
qed

lemma sys_init_sapp [simp]: "sapp sys_init = app_init"
  by (simp add: sys_init_def sys_empty_def app_fetchOrgs_def)

lemma one_dialog_init: "one_dialog app_init"
  by (simp add: one_dialog_def in_app_visible md_visible_app_modal split: dialog.splits)

lemma sys_step_one_dialog:
  assumes "sys_step t e = Some t'" and "one_dialog (sapp t)"
  shows "one_dialog (sapp t')"
proof (cases e)
  case (Tap b)
  with assms show ?thesis
    by (cases b) (auto simp: page_covered_def app_addOrg_def app_addUser_def app_addLinode_def
        one_dialog_open split: if_splits)
next
  case (TapUser u)
  with assms show ?thesis
    by (auto simp: page_covered_def app_selectUser_def one_dialog_open split: if_splits)
next
  case (ModalAct d a)
  with assms show ?thesis
    by (auto intro: shrinks_one_dialog [OF shrinks_close] split: option.splits)
next
  case (Deliver k r)
  with assms show ?thesis
    by (auto intro: shrinks_one_dialog [OF sys_deliver_shrinks] split: if_splits)
next
  case Reload
  with assms show ?thesis by (simp add: one_dialog_init)
qed (use assms in \<open>auto intro: shrinks_one_dialog shrinks_one_dialog [OF sys_effects_shrinks] split: option.splits if_splits prod.splits simp: split_beta\<close>)

text \<open>C2. In every reachable state at most one of the five dialogs is shown: a dialog
  is opened only from the uncovered page, the other transitions only hide dialogs, and
  \<open>setError\<close> hides all but the error dialog.\<close>

theorem reach_one_dialog: "reach t \<Longrightarrow> length (app_visible (sapp t)) \<le> 1"
proof -
  assume "reach t"
  then have "one_dialog (sapp t)"
    by (induction rule: reach.induct) (auto simp: one_dialog_init intro: sys_step_one_dialog)
  moreover have "distinct (app_visible (sapp t))"
    by (simp add: app_visible_def all_dialogs_def)
  ultimately show ?thesis
    by (cases "app_visible (sapp t)" rule: remdups_adj.cases) (auto simp: one_dialog_def)
qed

section \<open>The error dialog pre-empts the others\<close>

lemma error_alone_visible: "error_alone a \<Longrightarrow> broke a \<Longrightarrow> app_visible a = [DlgError]"
  by (simp add: error_alone_def app_visible_def all_dialogs_def)

lemma error_alone_setError [simp]: "error_alone (app_setError a e m)"
  by (simp add: error_alone_def app_setError_def)

lemma error_alone_closeReload [simp]: "error_alone a \<Longrightarrow> error_alone (fst (app_closeReload a x))"
  by (simp add: error_alone_def app_closeReload_def)

lemma error_alone_close [simp]: "error_alone a \<Longrightarrow> error_alone (app_close a c)"
  by (cases c) (simp_all add: error_alone_def app_unselectUser_def)

lemma error_alone_onReply [simp]: "error_alone a \<Longrightarrow> error_alone (app_onReply a q r)"
  by (cases "(a, q, r)" rule: app_onReply.cases) (simp_all add: error_alone_def)

lemma error_alone_unbroken: "\<not> broke a \<Longrightarrow> error_alone a"
  by (simp add: error_alone_def)

lemma uncovered_unbroken: "\<not> page_covered t \<Longrightarrow> \<not> broke (sapp t)"
  using app_visible_simps(5) [of "sapp t"] by (auto simp: page_covered_def)

lemma error_alone_effects: "error_alone (sapp t) \<Longrightarrow> error_alone (sapp (sys_effects og es t))"
proof (induction es arbitrary: t)
  case (Cons f es)
  then show ?case
    by (cases f) (simp_all add: split_beta split: origin.splits)
qed simp

lemma error_alone_deliver: "error_alone (sapp t) \<Longrightarrow> error_alone (sapp (sys_deliver p r t))"
  by (cases "(p, r, t)" rule: sys_deliver.cases) (simp_all add: split_beta error_alone_effects)

lemma error_alone_step:
  "sys_step t e = Some t' \<Longrightarrow> error_alone (sapp t) \<Longrightarrow> error_alone (sapp t')"
proof (induction t e rule: sys_step.induct)
  case (1 t b)
  then show ?case
    by (cases b) (auto simp: uncovered_unbroken app_addOrg_def app_addUser_def app_addLinode_def
        intro: error_alone_unbroken split: if_splits)
next
  case (2 t uid)
  then show ?case
    by (auto simp: uncovered_unbroken app_selectUser_def intro: error_alone_unbroken split: if_splits)
next
  case (14 t)
  then show ?case by (auto simp: error_alone_def sys_eval app_init_def)
qed (auto simp: split_beta error_alone_effects error_alone_deliver split: option.splits if_splits)

text \<open>C3. Fatal-error containment: in every reachable state where \<open>broke\<close> is set, the
  error dialog is the only dialog shown. \<open>setError\<close> clears every other flag, and
  while the error dialog covers the page no event can raise one again.\<close>

theorem reach_error_alone: "reach t \<Longrightarrow> broke (sapp t) \<Longrightarrow> app_visible (sapp t) = [DlgError]"
proof -
  assume "reach t" "broke (sapp t)"
  moreover from \<open>reach t\<close> have "error_alone (sapp t)"
    by (induction rule: reach.induct) (auto intro: error_alone_step simp: error_alone_unbroken sys_eval)
  ultimately show ?thesis by (simp add: error_alone_visible)
qed

end
