(* ===== verification/Requests.thy ===== *)
theory Requests
  imports System
begin

text \<open>
  The log of requests the page issues (\<open>sent\<close> of theory System), and the state of the
  forms' \<open>submitting\<close> flags. \<open>sends_only P t t'\<close> says that going from \<open>t\<close> to
  \<open>t'\<close> only issues requests satisfying \<open>P\<close>: a re-render only fetches users (the
  mount of UserDetails), a reply handler and every event but the three submissions issue
  no creation request. Hence every creation request comes from a submission of a mounted
  form whose verdict is \<open>'yes'\<close> (C6). \<open>forms_idle\<close> says no form instance has
  \<open>submitting\<close> set; every step preserves it (C7). \<open>routes_ok\<close> says every request
  in flight is one its origin's component issues; every step preserves it (C8). The last
  section shows what the unsequenced existence checks and the missing single-flight guard
  allow: a form takes a stale answer as the verdict of its current value and submits it
  (C17, C18), and a second submission repeats the creation request (C19).
\<close>

text \<open>\<open>sends_only P t t'\<close>: going from \<open>t\<close> to \<open>t'\<close> only appends requests
  satisfying \<open>P\<close> to the log of issued requests.\<close>

definition sends_only :: "(request \<Rightarrow> bool) \<Rightarrow> sys \<Rightarrow> sys \<Rightarrow> bool" where
  "sends_only P t t' \<longleftrightarrow> (\<exists>rs. sent t' = sent t @ rs \<and> list_all P rs)"

definition is_user_fetch :: "request \<Rightarrow> bool" where
  "is_user_fetch r \<longleftrightarrow> (case r of ReqUser _ \<Rightarrow> True | _ \<Rightarrow> False)"

text \<open>No mounted or unmounted creation form has \<open>submitting\<close> set.\<close>

definition forms_idle :: "sys \<Rightarrow> bool" where
  "forms_idle t \<longleftrightarrow> (\<forall>i. \<not> ao_submitting (org_form t i) \<and> \<not> au_submitting (user_form t i)
                         \<and> \<not> al_submitting (linode_form t i))"

text \<open>The route each origin may call: App fetches the snapshot, each creation form
  checks its own kind and creates its own entity, UserDetails fetches the user.\<close>

fun route_of :: "origin \<Rightarrow> request \<Rightarrow> bool" where
  "route_of OApp ReqOrgs = True"
| "route_of (OOrg _) (ReqExists k _) = (k = ''org'')"
| "route_of (OOrg _) (ReqCreateOrg _) = True"
| "route_of (OUser _) (ReqExists k _) = (k = ''user'')"
| "route_of (OUser _) (ReqCreateUser _ _) = True"
| "route_of (OLinode _) (ReqExists k _) = (k = ''linode'')"
| "route_of (OLinode _) (ReqCreateLinode _ _) = True"
| "route_of (ODetails _) (ReqUser _) = True"
| "route_of _ _ = False"

text \<open>Every request in flight is on its origin's route.\<close>

definition routes_ok :: "sys \<Rightarrow> bool" where
  "routes_ok t \<longleftrightarrow> (\<forall>p \<in> set (pending t). route_of (fst p) (snd p))"

text \<open>The requests a list of effects sends from \<open>og\<close> are on its route.\<close>

definition sends_on_route :: "origin \<Rightarrow> effect list \<Rightarrow> bool" where
  "sends_on_route og es \<longleftrightarrow> (\<forall>r \<in> set (sent_requests es). route_of og r)"

section \<open>Requests issued\<close>

lemma sends_only_refl [simp]: "sends_only P t t"
  by (simp add: sends_only_def)

lemma sends_only_trans:
  "sends_only P t t' \<Longrightarrow> sends_only P t' t'' \<Longrightarrow> sends_only P t t''"
  by (auto simp: sends_only_def)

lemma sends_only_mono:
  "sends_only P t t' \<Longrightarrow> (\<And>r. P r \<Longrightarrow> Q r) \<Longrightarrow> sends_only Q t t'"
  by (auto simp: sends_only_def list_all_iff)

lemma sends_only_same [simp]: "sent t' = sent t \<Longrightarrow> sends_only P t t'"
  by (auto simp: sends_only_def)

lemma sys_send_sent [simp]: "sent (sys_send og r t) = sent t @ [r]"
  by (simp add: sys_send_def)

lemma sys_sends_sent [simp]: "sent (sys_sends og rs t) = sent t @ rs"
  by (induction rs arbitrary: t) simp_all

lemma sys_mount_sends: "sends_only is_user_fetch t (sys_mount d t)"
  by (cases d)
     (auto simp: sys_mount_def sends_only_def userDetails_componentWillMount_def Let_def
           is_user_fetch_def)

lemma sys_reconcile1_sends: "sends_only is_user_fetch t (sys_reconcile1 t d)"
  by (simp add: sys_reconcile1_def Let_def sys_mount_sends)

lemma foldl_reconcile_sends:
  "sends_only is_user_fetch t (foldl sys_reconcile1 t ds)"
proof (induction ds arbitrary: t)
  case Nil
  then show ?case by simp
next
  case (Cons d ds)
  show ?case
    by (simp only: foldl_Cons) (rule sends_only_trans [OF sys_reconcile1_sends Cons.IH])
qed

lemma sys_setApp_fetches: "sends_only is_user_fetch t (sys_setApp a t)"
proof -
  have "sends_only is_user_fetch (t\<lparr>sapp := a\<rparr>) (sys_setApp a t)"
    by (simp add: sys_setApp_def sys_reconcile_def foldl_reconcile_sends)
  then show ?thesis by (simp add: sends_only_def)
qed

lemma sys_setApp_sends: "sends_only (\<lambda>r. \<not> is_create r) t (sys_setApp a t)"
  by (rule sends_only_mono [OF sys_setApp_fetches]) (auto simp: is_user_fetch_def split: request.splits)

lemma sys_effects_sends:
  "sends_only (\<lambda>r. \<not> is_create r \<or> r \<in> set (sent_requests es)) t (sys_effects og es t)"
proof (induction es arbitrary: t)
  case Nil
  then show ?case by simp
next
  case (Cons f es)
  let ?P = "\<lambda>r. \<not> is_create r \<or> r \<in> set (sent_requests (f # es))"
  have IH: "sends_only ?P t' (sys_effects og es t')" for t'
    by (rule sends_only_mono [OF Cons.IH]) (cases f; auto)
  show ?case
  proof (cases f)
    case (Send r)
    have s1: "sends_only ?P t (sys_send og r t)" using Send by (auto simp: sends_only_def)
    from sends_only_trans [OF s1 IH] Send show ?thesis by simp
  next
    case (Report e m)
    have s1: "sends_only ?P t (sys_setApp (app_setError (sapp t) e m) t)"
      by (rule sends_only_mono [OF sys_setApp_sends]) simp
    from sends_only_trans [OF s1 IH] Report show ?thesis by simp
  next
    case CloseReload
    let ?t1 = "sys_setApp (fst (app_closeReload (sapp t) (close_action og))) t"
    have "sends_only ?P t ?t1" by (rule sends_only_mono [OF sys_setApp_sends]) simp
    moreover have "sends_only ?P ?t1 (sys_send OApp ReqOrgs ?t1)" by (simp add: sends_only_def)
    ultimately have s1: "sends_only ?P t (sys_send OApp ReqOrgs ?t1)" by (rule sends_only_trans)
    from sends_only_trans [OF s1 IH] CloseReload show ?thesis by (simp only: sys_effects_CloseReload)
  next
    case Debounce
    have s1: "sends_only ?P t (t\<lparr>timers := ts\<rparr>)" for ts by simp
    from sends_only_trans [OF s1 IH] IH [of t] Debounce show ?thesis by (cases og) simp_all
  qed
qed


lemma sends_only_new:
  "sends_only P t t' \<Longrightarrow> r \<in> set (drop (length (sent t)) (sent t')) \<Longrightarrow> P r"
  by (auto simp: sends_only_def list_all_iff)

lemma onReply_sends_nothing [simp]:
  "sent_requests (snd (addOrg_onReply s q r)) = []"
  "sent_requests (snd (addUser_onReply u q r)) = []"
  "sent_requests (snd (addLinode_onReply l q r)) = []"
  "sent_requests (snd (userDetails_onReply v q r)) = []"
  by (cases "(s, q, r)" rule: addOrg_onReply.cases, simp_all)
     (cases "(u, q, r)" rule: addUser_onReply.cases, simp_all,
      cases "(l, q, r)" rule: addLinode_onReply.cases, simp_all,
      cases "(v, q, r)" rule: userDetails_onReply.cases, simp_all)

lemma set_form_sent [simp]:
  "sent (set_org_form i s t) = sent t" "sent (set_user_form i u t) = sent t"
  "sent (set_linode_form i l t) = sent t" "sent (set_detail_view i v t) = sent t"
  by (simp_all add: set_org_form_def set_user_form_def set_linode_form_def set_detail_view_def)

lemma sys_effects_no_create:
  "sent_requests es = [] \<or> list_all (\<lambda>r. \<not> is_create r) (sent_requests es) \<Longrightarrow>
   sends_only (\<lambda>r. \<not> is_create r) t (sys_effects og es t)"
  by (rule sends_only_mono [OF sys_effects_sends]) (auto simp: list_all_iff)

lemma sys_deliver_no_create: "sends_only (\<lambda>r. \<not> is_create r) t (sys_deliver p r t)"
  by (cases "(p, r, t)" rule: sys_deliver.cases)
     (auto simp: split_beta sys_setApp_sends intro!: sends_only_trans [OF _ sys_effects_no_create])


lemma sends_only_send [simp]:
  "sent t' = sent t \<Longrightarrow> sends_only P t (sys_send og r t') \<longleftrightarrow> P r"
  by (simp add: sends_only_def)

lemma sys_step_no_create:
  assumes "sys_step t e = Some t'"
    and "e \<notin> {SubmitOrg, SubmitUser, SubmitLinode, Reload}"
  shows "sends_only (\<lambda>r. \<not> is_create r) t t'"
  using assms
proof (cases e)
  case (Deliver k r)
  with assms show ?thesis
    by (auto split: if_splits intro: sends_only_trans [OF _ sys_deliver_no_create])
qed (auto simp: sys_setApp_sends split_beta handler_defs split: if_splits option.splits
          intro!: sys_effects_no_create sends_only_trans [OF _ sys_effects_no_create])

text \<open>C6. Submission gating: a creation request is issued only by the submission of a
  shown form whose verdict is \<open>'yes'\<close>, for the user form only with at least one
  organisation selected and for the linode form only with an organisation selected, and
  it carries the form's current identifier and associations.\<close>

theorem create_only_from_submit:
  assumes step: "sys_step t e = Some t'"
    and new: "r \<in> set (drop (length (sent t)) (sent t'))" and cr: "is_create r"
  shows "(\<exists>i. e = SubmitOrg \<and> mounted t DlgAddOrg = Some i \<and> ao_valid (org_form t i) = Yes
            \<and> r = ReqCreateOrg (ao_name (org_form t i)))
       \<or> (\<exists>i. e = SubmitUser \<and> mounted t DlgAddUser = Some i \<and> au_valid (user_form t i) = Yes
            \<and> au_orgIds (user_form t i) \<noteq> []
            \<and> r = ReqCreateUser (au_email (user_form t i)) (au_orgIds (user_form t i)))
       \<or> (\<exists>i. e = SubmitLinode \<and> mounted t DlgAddLinode = Some i \<and> al_valid (linode_form t i) = Yes
            \<and> al_orgId (linode_form t i) \<noteq> None
            \<and> r = ReqCreateLinode (al_name (linode_form t i)) (al_orgId (linode_form t i)))"
proof (cases "e \<in> {SubmitOrg, SubmitUser, SubmitLinode, Reload}")
  case False
  with step have "sends_only (\<lambda>r. \<not> is_create r) t t'" by (rule sys_step_no_create)
  with new cr show ?thesis by (auto dest: sends_only_new)
next
  case True
  then consider "e = SubmitOrg" | "e = SubmitUser" | "e = SubmitLinode" | "e = Reload" by blast
  then show ?thesis
  proof cases
    case 1
    with step obtain i where i: "mounted t DlgAddOrg = Some i"
      and en: "\<not> addOrg_submitDisabled (org_form t i)"
      and t': "t' = sys_effects (OOrg i) (addOrg_submit (org_form t i)) t"
      by (auto split: option.splits if_splits)
    from new t' have "r \<in> set (drop (length (sent t)) (sent (sys_effects (OOrg i) (addOrg_submit (org_form t i)) t)))"
      by simp
    from sends_only_new [OF sys_effects_sends this] cr
    have "r \<in> set (sent_requests (addOrg_submit (org_form t i)))" by simp
    with i en 1 show ?thesis by (auto simp: addOrg_submit_def split: if_splits)
  next
    case 2
    with step obtain i where i: "mounted t DlgAddUser = Some i"
      and en: "\<not> addUser_submitDisabled (user_form t i)"
      and t': "t' = sys_effects (OUser i) (addUser_submit (user_form t i)) t"
      by (auto split: option.splits if_splits)
    from new t' have "r \<in> set (drop (length (sent t)) (sent (sys_effects (OUser i) (addUser_submit (user_form t i)) t)))"
      by simp
    from sends_only_new [OF sys_effects_sends this] cr
    have "r \<in> set (sent_requests (addUser_submit (user_form t i)))" by simp
    with i en 2 show ?thesis
      by (auto simp: addUser_submit_def addUser_submitDisabled_def split: if_splits)
  next
    case 3
    with step obtain i where i: "mounted t DlgAddLinode = Some i"
      and en: "\<not> addLinode_submitDisabled (linode_form t i)"
      and t': "t' = sys_effects (OLinode i) (addLinode_submit (linode_form t i)) t"
      by (auto split: option.splits if_splits)
    from new t' have "r \<in> set (drop (length (sent t)) (sent (sys_effects (OLinode i) (addLinode_submit (linode_form t i)) t)))"
      by simp
    from sends_only_new [OF sys_effects_sends this] cr
    have "r \<in> set (sent_requests (addLinode_submit (linode_form t i)))" by simp
    with i en 3 show ?thesis
      by (auto simp: addLinode_submit_def addLinode_submitDisabled_def split: if_splits)
  next
    case 4
    with step have "t' = sys_init" by simp
    then have "sent t' = [ReqOrgs]" by (simp add: sys_eval)
    with new cr have False by (cases "sent t") auto
    then show ?thesis ..
  qed
qed

section \<open>The submitting flag\<close>

lemma forms_idle_stores:
  "orgForms t' = orgForms t \<Longrightarrow> userForms t' = userForms t \<Longrightarrow> linodeForms t' = linodeForms t
   \<Longrightarrow> forms_idle t' = forms_idle t"
  by (simp add: forms_idle_def org_form_def user_form_def linode_form_def)

lemma forms_idle_mount: "forms_idle t \<Longrightarrow> forms_idle (sys_mount d t)"
  by (cases d) (auto simp: sys_mount_def forms_idle_def org_form_def user_form_def linode_form_def Let_def)

lemma forms_idle_reconcile1: "forms_idle t \<Longrightarrow> forms_idle (sys_reconcile1 t d)"
  using forms_idle_mount [of t d] forms_idle_stores [of "t\<lparr>mounted := (mounted t)(d := None)\<rparr>" t]
  by (simp add: sys_reconcile1_def Let_def)

lemma forms_idle_setApp: "forms_idle t \<Longrightarrow> forms_idle (sys_setApp a t)"
proof -
  assume "forms_idle t"
  then have "forms_idle (t\<lparr>sapp := a\<rparr>)" by (simp add: forms_idle_def org_form_def user_form_def linode_form_def)
  then show ?thesis by (simp add: sys_setApp_def sys_reconcile_def body_dialogs_def forms_idle_reconcile1)
qed

lemma forms_idle_send [simp]: "forms_idle (sys_send og r t) = forms_idle t"
  by (rule forms_idle_stores) (simp_all add: sys_send_def)

lemma forms_idle_sends [simp]: "forms_idle (sys_sends og rs t) = forms_idle t"
  by (rule forms_idle_stores) simp_all

lemma forms_idle_queues [simp]:
  "forms_idle (t\<lparr>timers := ts\<rparr>) = forms_idle t" "forms_idle (t\<lparr>pending := ps\<rparr>) = forms_idle t"
  by (rule forms_idle_stores; simp)+

lemma forms_idle_effects: "forms_idle t \<Longrightarrow> forms_idle (sys_effects og es t)"
proof (induction es arbitrary: t)
  case Nil
  then show ?case by simp
next
  case (Cons x es)
  show ?case
  proof (cases x)
    case (Send r)
    with Cons show ?thesis by simp
  next
    case (Report e m)
    with Cons show ?thesis by (simp add: forms_idle_setApp)
  next
    case CloseReload
    with Cons show ?thesis by (simp add: split_beta forms_idle_setApp del: sys_sends.simps)
  next
    case Debounce
    with Cons show ?thesis by (simp split: origin.splits)
  qed
qed

lemma forms_idle_set_forms:
  "forms_idle t \<Longrightarrow> \<not> ao_submitting s \<Longrightarrow> forms_idle (set_org_form i s t)"
  "forms_idle t \<Longrightarrow> \<not> au_submitting u \<Longrightarrow> forms_idle (set_user_form i u t)"
  "forms_idle t \<Longrightarrow> \<not> al_submitting l \<Longrightarrow> forms_idle (set_linode_form i l t)"
  "forms_idle t \<Longrightarrow> forms_idle (set_detail_view i d t)"
  by (auto simp: forms_idle_def org_form_def user_form_def linode_form_def set_org_form_def
      set_user_form_def set_linode_form_def set_detail_view_def)

lemma forms_idle_form:
  "forms_idle t \<Longrightarrow> \<not> ao_submitting (org_form t i)"
  "forms_idle t \<Longrightarrow> \<not> au_submitting (user_form t i)"
  "forms_idle t \<Longrightarrow> \<not> al_submitting (linode_form t i)"
  by (simp_all add: forms_idle_def)

lemma forms_idle_deliver: "forms_idle t \<Longrightarrow> forms_idle (sys_deliver p r t)"
  by (cases p, cases "fst p")
     (auto simp: split_beta forms_idle_effects forms_idle_setApp forms_idle_set_forms forms_idle_form)

lemma forms_idle_init: "forms_idle sys_init"
  by (simp add: forms_idle_def org_form_def user_form_def linode_form_def sys_eval)

lemma forms_idle_step: "sys_step t e = Some t' \<Longrightarrow> forms_idle t \<Longrightarrow> forms_idle t'"
  by (cases "(t, e)" rule: sys_step.cases)
     (auto simp: split_beta forms_idle_effects forms_idle_setApp forms_idle_set_forms forms_idle_form
           forms_idle_init forms_idle_deliver addLinode_updateOrg_def split: if_splits option.splits)

lemma forms_idle_reach: "reach t \<Longrightarrow> forms_idle t"
  by (induction rule: reach.induct) (auto intro: forms_idle_init forms_idle_step)

text \<open>C7. Single-flight submission is never in force: in every reachable state no
  instance of the three creation forms has \<open>submitting\<close> set, so the submit buttons are
  disabled only by the verdict (and, for users and linodes, the selection).\<close>

theorem reach_never_submitting:
  "reach t \<Longrightarrow> \<not> ao_submitting (org_form t i) \<and> \<not> au_submitting (user_form t i)
     \<and> \<not> al_submitting (linode_form t i)"
  using forms_idle_reach by (simp add: forms_idle_def)

section \<open>Requests in flight are on their origin's route\<close>

lemma routes_ok_send [simp]: "routes_ok (sys_send og r t) \<longleftrightarrow> routes_ok t \<and> route_of og r"
  by (auto simp: routes_ok_def sys_send_def)

lemma routes_ok_sends: "routes_ok t \<Longrightarrow> \<forall>r \<in> set rs. route_of og r \<Longrightarrow> routes_ok (sys_sends og rs t)"
  by (induction rs arbitrary: t) simp_all

lemma routes_ok_mount: "routes_ok t \<Longrightarrow> routes_ok (sys_mount d t)"
  by (cases d)
     (auto simp: sys_mount_def Let_def routes_ok_def userDetails_componentWillMount_def
        sent_requests_def sys_send_def)

lemma routes_ok_mounted [simp]: "routes_ok (t\<lparr>mounted := m\<rparr>) = routes_ok t"
  by (simp add: routes_ok_def)

lemma routes_ok_reconcile1: "routes_ok t \<Longrightarrow> routes_ok (sys_reconcile1 t d)"
  by (simp add: sys_reconcile1_def Let_def routes_ok_mount)

lemma routes_ok_foldl: "routes_ok t \<Longrightarrow> routes_ok (foldl sys_reconcile1 t ds)"
  by (induction ds arbitrary: t) (simp_all add: routes_ok_reconcile1)

lemma routes_ok_setApp [simp]: "routes_ok t \<Longrightarrow> routes_ok (sys_setApp a t)"
proof -
  assume "routes_ok t"
  then have "routes_ok (t\<lparr>sapp := a\<rparr>)" by (simp add: routes_ok_def)
  then show ?thesis by (simp add: sys_setApp_def sys_reconcile_def routes_ok_foldl)
qed

lemma sends_on_route_Cons [simp]:
  "sends_on_route og (f # es) \<longleftrightarrow> (case f of Send r \<Rightarrow> route_of og r | _ \<Rightarrow> True) \<and> sends_on_route og es"
  by (cases f) (simp_all add: sends_on_route_def sent_requests_def)

lemma routes_ok_set_form [simp]:
  "routes_ok (set_org_form i s t) = routes_ok t" "routes_ok (set_user_form i u t) = routes_ok t"
  "routes_ok (set_linode_form i l t) = routes_ok t" "routes_ok (set_detail_view i v t) = routes_ok t"
  "routes_ok (t\<lparr>timers := ts\<rparr>) = routes_ok t"
  by (simp_all add: routes_ok_def set_org_form_def set_user_form_def set_linode_form_def set_detail_view_def)

lemma routes_ok_effects:
  "routes_ok t \<Longrightarrow> sends_on_route og es \<Longrightarrow> routes_ok (sys_effects og es t)"
proof (induction es arbitrary: t)
  case (Cons f es)
  show ?case
  proof (cases f)
    case (Send r)
    with Cons show ?thesis by simp
  next
    case (Report e m)
    with Cons show ?thesis by simp
  next
    case CloseReload
    with Cons show ?thesis by (simp only: sys_effects_CloseReload) simp
  next
    case Debounce
    with Cons show ?thesis by (cases og) simp_all
  qed
qed simp

lemma handlers_on_route [simp]:
  "sends_on_route (OOrg i) (snd (addOrg_update s v))"
  "sends_on_route (OOrg i) (addOrg_checkValidity s)"
  "sends_on_route (OOrg i) (addOrg_submit s)"
  "sends_on_route (OUser i) (snd (addUser_updateEmail u v))"
  "sends_on_route (OUser i) (addUser_submit u)"
  "sends_on_route (OLinode i) (snd (addLinode_updateName l v))"
  "sends_on_route (OLinode i) (addLinode_submit l)"
  by (simp_all add: sends_on_route_def handler_defs sent_requests_def)

lemma replies_on_route [simp]:
  "sends_on_route og (snd (addOrg_onReply s q r))"
  "sends_on_route og (snd (addUser_onReply u q r))"
  "sends_on_route og (snd (addLinode_onReply l q r))"
  "sends_on_route og (snd (userDetails_onReply w q r))"
  by (simp_all only: sends_on_route_def onReply_sends_nothing) simp_all

lemma routes_ok_remove [simp]: "routes_ok t \<Longrightarrow> routes_ok (t\<lparr>pending := remove_nth k (pending t)\<rparr>)"
  by (auto simp: routes_ok_def remove_nth_def dest: in_set_takeD in_set_dropD)

lemma routes_ok_deliver: "routes_ok t \<Longrightarrow> routes_ok (sys_deliver p r t)"
  by (cases "(p, r, t)" rule: sys_deliver.cases) (simp_all add: split_beta routes_ok_effects)

lemma routes_ok_init: "routes_ok sys_init"
  by (simp add: sys_init_def app_fetchOrgs_def sys_empty_def routes_ok_def sys_send_def)

lemma routes_ok_step: "sys_step t e = Some t' \<Longrightarrow> routes_ok t \<Longrightarrow> routes_ok t'"
proof (induction t e rule: sys_step.induct)
  case (13 t k r)
  then show ?case by (auto intro: routes_ok_deliver split: if_splits)
next
  case (14 t)
  then show ?case by (simp add: routes_ok_init)
qed (auto simp: split_beta routes_ok_effects split: if_splits option.splits)

lemma routes_ok_reach: "reach t \<Longrightarrow> routes_ok t"
  by (induction rule: reach.induct) (auto intro: routes_ok_init routes_ok_step)

text \<open>C8. Every request in flight travels on its origin's route: App's requests
  fetch the snapshot, an AddOrg, AddUser or AddLinode instance checks names of its own
  kind (\<open>/api/exists/org\<close>, \<open>/user\<close>, \<open>/linode\<close>) and creates its own entity, and
  a UserDetails instance fetches a user. A reply therefore always reaches the handler
  written for its route.\<close>

theorem reach_request_routes: "reach t \<Longrightarrow> (og, q) \<in> set (pending t) \<Longrightarrow> route_of og q"
  using routes_ok_reach by (fastforce simp: routes_ok_def)

section \<open>Unsequenced checks and repeated submissions\<close>

text \<open>Delivering an existence-check answer to the shown user form sets its verdict and
  nothing else.\<close>

lemma deliver_check_user:
  assumes "k < length (pending t)" and "pending t ! k = (OUser i, ReqExists kind v)"
    and "mounted t DlgAddUser = Some i"
  shows "sys_step t (Deliver k (Inr (ExistsReply b))) =
           Some ((t\<lparr>pending := remove_nth k (pending t)\<rparr>)\<lparr>userForms :=
                   (userForms t)(i \<mapsto> (user_form t i)\<lparr>au_valid := exists_verdict b\<rparr>)\<rparr>)"
  using assms by (simp add: set_user_form_def user_form_def)

text \<open>C17. The user form takes any existence-check answer for its current email: in
  every reachable state where the Add User dialog shows instance \<open>i\<close> with organisations
  selected and any of its checks is in flight, whatever email that check was issued for,
  the answer \<open>'free'\<close> enables the submit button and the submission creates the current
  email. A reply for a superseded email thus lets a taken email through (spec section
  4.1 requires such replies to be discarded).\<close>

theorem stale_check_user_submits:
  assumes "reach t" and "k < length (pending t)" and "pending t ! k = (OUser i, ReqExists kind v)"
    and "mounted t DlgAddUser = Some i" and "au_orgIds (user_form t i) \<noteq> []"
  shows "\<exists>t' t''. sys_step t (Deliver k (Inr (ExistsReply False))) = Some t'
     \<and> sys_step t' SubmitUser = Some t''
     \<and> ReqCreateUser (au_email (user_form t i)) (au_orgIds (user_form t i)) \<in> set (sent t'')"
proof -
  have idle: "\<not> au_submitting (user_form t i)" using forms_idle_reach [OF assms(1)] by (simp add: forms_idle_def)
  let ?t' = "(t\<lparr>pending := remove_nth k (pending t)\<rparr>)\<lparr>userForms :=
               (userForms t)(i \<mapsto> (user_form t i)\<lparr>au_valid := Yes\<rparr>)\<rparr>"
  have s1: "sys_step t (Deliver k (Inr (ExistsReply False))) = Some ?t'"
    using deliver_check_user [OF assms(2,3,4), of False] by (simp add: exists_verdict_def)
  have "sys_step ?t' SubmitUser = Some (sys_effects (OUser i) (addUser_submit (user_form ?t' i)) ?t')"
    using assms(4,5) idle by (simp add: user_form_def addUser_submitDisabled_def)
  moreover have "ReqCreateUser (au_email (user_form t i)) (au_orgIds (user_form t i))
                   \<in> set (sent (sys_effects (OUser i) (addUser_submit (user_form ?t' i)) ?t'))"
    using assms(5) by (simp add: user_form_def addUser_submit_def sys_send_def)
  ultimately show ?thesis using s1 by blast
qed

text \<open>C18. The organisation form can create an organisation with the empty name: in
  every reachable state where the Add Org dialog shows instance \<open>i\<close> with the empty
  name and any of its checks is still in flight, the answer \<open>'free'\<close> to that (older)
  check enables submission, and submitting posts the creation of the empty name. The
  debounced check sends nothing for the empty name, so nothing overrides the stale
  verdict; the spec gives the empty input the verdict empty.\<close>

theorem stale_check_empty_org_name:
  assumes "reach t" and "k < length (pending t)" and "pending t ! k = (OOrg i, ReqExists kind v)"
    and "mounted t DlgAddOrg = Some i" and "ao_name (org_form t i) = []"
  shows "\<exists>t' t''. sys_step t (Deliver k (Inr (ExistsReply False))) = Some t'
     \<and> sys_step t' SubmitOrg = Some t'' \<and> ReqCreateOrg [] \<in> set (sent t'')"
proof -
  have idle: "\<not> ao_submitting (org_form t i)" using forms_idle_reach [OF assms(1)] by (simp add: forms_idle_def)
  let ?t' = "(t\<lparr>pending := remove_nth k (pending t)\<rparr>)\<lparr>orgForms :=
               (orgForms t)(i \<mapsto> (org_form t i)\<lparr>ao_valid := Yes\<rparr>)\<rparr>"
  have s1: "sys_step t (Deliver k (Inr (ExistsReply False))) = Some ?t'"
    using assms(2,3,4) by (simp add: set_org_form_def org_form_def exists_verdict_def)
  have "sys_step ?t' SubmitOrg = Some (sys_effects (OOrg i) (addOrg_submit (org_form ?t' i)) ?t')"
    using assms(4) idle by (simp add: org_form_def addOrg_submitDisabled_def)
  moreover have "ReqCreateOrg [] \<in> set (sent (sys_effects (OOrg i) (addOrg_submit (org_form ?t' i)) ?t'))"
    using assms(5) by (simp add: org_form_def addOrg_submit_def sys_send_def)
  ultimately show ?thesis using s1 by blast
qed

text \<open>C19. Submission is never single-flight: whenever the organisation form can be
  submitted, it can be submitted again right away, and the two submissions post the same
  creation twice, since the submit handler changes no state and leaves the button
  enabled.\<close>

theorem submit_org_twice:
  assumes "sys_step t SubmitOrg = Some t'"
  shows "\<exists>i t''. mounted t DlgAddOrg = Some i \<and> sys_step t' SubmitOrg = Some t''
     \<and> sent t'' = sent t @ [ReqCreateOrg (ao_name (org_form t i)), ReqCreateOrg (ao_name (org_form t i))]"
proof -
  from assms obtain i where i: "mounted t DlgAddOrg = Some i"
    and en: "\<not> addOrg_submitDisabled (org_form t i)"
    and t': "t' = sys_effects (OOrg i) (addOrg_submit (org_form t i)) t"
    by (auto split: option.splits if_splits)
  let ?r = "ReqCreateOrg (ao_name (org_form t i))"
  from en have sub: "addOrg_submit (org_form t i) = [Send ?r]"
    by (simp add: addOrg_submit_def addOrg_submitDisabled_def)
  with t' have t'e: "t' = sys_send (OOrg i) ?r t" by simp
  then have same: "mounted t' DlgAddOrg = Some i" "org_form t' i = org_form t i"
    using i by (simp_all add: org_form_def)
  have "sys_step t' SubmitOrg = Some (sys_send (OOrg i) ?r t')"
    using same en sub by simp
  moreover have "sent (sys_send (OOrg i) ?r t') = sent t @ [?r, ?r]"
    using t'e by (simp add: sys_send_def)
  ultimately show ?thesis using i by blast
qed

end
