(* ===== verification/Validation.thy ===== *)
theory Validation
  imports AddUser AddOrg AddLinode
begin

text \<open>
  The uniqueness check of one form field against the spec's Validation Debouncer
  (spec sections 4.1 and 9). \<open>field_step\<close> drives the real AddUser handlers
  (\<open>addUser_updateEmail\<close> issues a check per keystroke, \<open>addUser_onReply\<close> applies
  a reply) over the list of checks in flight; \<open>FAnswer k\<close> settles the \<open>k\<close>-th of them
  with the server's answer \<open>taken v\<close>. The specification \<open>seq_step\<close> is the
  sequenced checker the spec requires: every check is tagged with a generation number
  and only the reply to the latest generation sets the verdict; an empty value has the
  verdict \<open>VEmpty\<close> and issues no check. The spec is sound under any delivery order
  (\<open>seq_sound\<close>); the code agrees with it when replies arrive in issue order and all
  checks have settled (\<open>fifo_refines_sequenced\<close>, by the simulation \<open>sim\<close>), and not
  otherwise. The AddLinode name field is the same engine as the user field
  (\<open>linode_field_equiv\<close>, through the relation \<open>same_field\<close>). The AddOrg field
  debounces its checks (\<open>org_field_step\<close>): with replies in order it shows the right
  verdict once quiet (\<open>org_fifo_settled_verdict\<close>, by the invariant
  \<open>org_settled_inv\<close>), for a non-empty name.
\<close>

section \<open>Definitions\<close>

fun exists_values :: "request list \<Rightarrow> string list" where
  "exists_values [] = []"
| "exists_values (ReqExists _ v # rs) = v # exists_values rs"
| "exists_values (_ # rs) = exists_values rs"

datatype field_event = FType string | FAnswer nat

fun field_step :: "(string \<Rightarrow> bool) \<Rightarrow> adduser \<times> string list \<Rightarrow> field_event \<Rightarrow> adduser \<times> string list" where
  "field_step taken (s, q) (FType v) =
     (let (s', fx) = addUser_updateEmail s v in (s', q @ exists_values (sent_requests fx)))"
| "field_step taken (s, q) (FAnswer k) =
     (if k < length q
      then (fst (addUser_onReply s (ReqExists ''user'' (q ! k)) (Inr (ExistsReply (taken (q ! k))))),
            remove_nth k q)
      else (s, q))"

definition field_run :: "(string \<Rightarrow> bool) \<Rightarrow> field_event list \<Rightarrow> adduser \<times> string list" where
  "field_run taken es = foldl (field_step taken) (addUser_init, []) es"

datatype verdict = VEmpty | VPending | VAvailable | VTaken

record seqfield =
  sf_value :: string
  sf_gen :: nat
  sf_verdict :: verdict
  sf_inflight :: "(nat \<times> string) list"

definition seq_init :: seqfield where
  "seq_init = \<lparr>sf_value = [], sf_gen = 0, sf_verdict = VEmpty, sf_inflight = []\<rparr>"

fun seq_step :: "(string \<Rightarrow> bool) \<Rightarrow> seqfield \<Rightarrow> field_event \<Rightarrow> seqfield" where
  "seq_step taken f (FType v) =
     (if v = [] then f\<lparr>sf_value := v, sf_gen := Suc (sf_gen f), sf_verdict := VEmpty\<rparr>
      else f\<lparr>sf_value := v, sf_gen := Suc (sf_gen f), sf_verdict := VPending,
             sf_inflight := sf_inflight f @ [(Suc (sf_gen f), v)]\<rparr>)"
| "seq_step taken f (FAnswer k) =
     (if k < length (sf_inflight f)
      then (let (g, v) = sf_inflight f ! k
            in f\<lparr>sf_inflight := remove_nth k (sf_inflight f),
                 sf_verdict := (if g = sf_gen f then (if taken v then VTaken else VAvailable)
                                else sf_verdict f)\<rparr>)
      else f)"

definition seq_run :: "(string \<Rightarrow> bool) \<Rightarrow> field_event list \<Rightarrow> seqfield" where
  "seq_run taken es = foldl (seq_step taken) seq_init es"

definition seq_inv :: "(string \<Rightarrow> bool) \<Rightarrow> seqfield \<Rightarrow> bool" where
  "seq_inv taken f \<longleftrightarrow>
     (sf_verdict f = VAvailable \<longrightarrow> \<not> taken (sf_value f)) \<and>
     (sf_verdict f = VTaken \<longrightarrow> taken (sf_value f)) \<and>
     (sf_verdict f = VEmpty \<longrightarrow> sf_value f = []) \<and>
     (\<forall>(g, v) \<in> set (sf_inflight f). g \<le> sf_gen f \<and> (g = sf_gen f \<longrightarrow> v = sf_value f))"

fun abs_valid :: "validity \<Rightarrow> verdict" where
  "abs_valid Yes = VAvailable"
| "abs_valid No = VTaken"
| "abs_valid Unknown = VPending"



text \<open>The organisation field: \<open>addOrg_update\<close> arms the lodash debounce timer
  (the flag \<open>armed\<close>; a keystroke while armed restarts the same timer), \<open>OFire\<close> runs
  \<open>_checkValidity\<close> on the state of that moment, and the checks in flight are answered as
  for the user field.\<close>

datatype org_field_event = OType string | OFire | OAnswer nat

fun org_field_step :: "(string \<Rightarrow> bool) \<Rightarrow> addorg \<times> bool \<times> string list \<Rightarrow> org_field_event
                        \<Rightarrow> addorg \<times> bool \<times> string list" where
  "org_field_step taken (s, armed, q) (OType v) =
     (let (s', fx) = addOrg_update s v in (s', armed \<or> Debounce \<in> set fx, q))"
| "org_field_step taken (s, armed, q) OFire =
     (if armed then (s, False, q @ exists_values (sent_requests (addOrg_checkValidity s)))
      else (s, armed, q))"
| "org_field_step taken (s, armed, q) (OAnswer k) =
     (if k < length q
      then (fst (addOrg_onReply s (ReqExists ''org'' (q ! k)) (Inr (ExistsReply (taken (q ! k))))),
            armed, remove_nth k q)
      else (s, armed, q))"

definition org_field_run :: "(string \<Rightarrow> bool) \<Rightarrow> org_field_event list \<Rightarrow> addorg \<times> bool \<times> string list" where
  "org_field_run taken es = foldl (org_field_step taken) (addOrg_init, False, []) es"

fun org_fifo :: "org_field_event \<Rightarrow> bool" where
  "org_fifo (OAnswer k) = (k = 0)"
| "org_fifo _ = True"

definition org_settled_inv :: "(string \<Rightarrow> bool) \<Rightarrow> addorg \<times> bool \<times> string list \<Rightarrow> bool" where
  "org_settled_inv taken c \<longleftrightarrow>
     (case c of (s, armed, q) \<Rightarrow> \<not> armed \<and> ao_name s \<noteq> [] \<longrightarrow>
        (q \<noteq> [] \<longrightarrow> last q = ao_name s)
      \<and> (q = [] \<longrightarrow> abs_valid (ao_valid s) = (if taken (ao_name s) then VTaken else VAvailable)))"

text \<open>The linode name field, driven by the AddLinode handlers, and the relation that
  identifies its observable state with the user field's.\<close>

fun linode_field_step :: "(string \<Rightarrow> bool) \<Rightarrow> addlinode \<times> string list \<Rightarrow> field_event \<Rightarrow> addlinode \<times> string list" where
  "linode_field_step taken (s, q) (FType v) =
     (let (s', fx) = addLinode_updateName s v in (s', q @ exists_values (sent_requests fx)))"
| "linode_field_step taken (s, q) (FAnswer k) =
     (if k < length q
      then (fst (addLinode_onReply s (ReqExists ''linode'' (q ! k)) (Inr (ExistsReply (taken (q ! k))))),
            remove_nth k q)
      else (s, q))"

definition linode_field_run :: "(string \<Rightarrow> bool) \<Rightarrow> field_event list \<Rightarrow> addlinode \<times> string list" where
  "linode_field_run taken es = foldl (linode_field_step taken) (addLinode_init, []) es"

definition same_field :: "addlinode \<times> string list \<Rightarrow> adduser \<times> string list \<Rightarrow> bool" where
  "same_field l u \<longleftrightarrow> al_name (fst l) = au_email (fst u) \<and> al_valid (fst l) = au_valid (fst u) \<and> snd l = snd u"

section \<open>Properties\<close>

lemma seq_step_inv: "seq_inv taken f \<Longrightarrow> seq_inv taken (seq_step taken f e)"
  by (cases e) (auto simp: seq_inv_def remove_nth_def split_beta Let_def
      dest: in_set_takeD in_set_dropD nth_mem)

lemma seq_run_inv: "seq_inv taken (foldl (seq_step taken) f es) \<or> \<not> seq_inv taken f"
  by (induction es arbitrary: f) (auto intro: seq_step_inv)

text \<open>The sequenced checker never reports a taken value available, whatever the order of
  the replies.\<close>

theorem seq_sound:
  "sf_verdict (seq_run taken es) = VAvailable \<Longrightarrow> \<not> taken (sf_value (seq_run taken es))"
  using seq_run_inv [of taken seq_init es]
  by (auto simp: seq_run_def seq_inv_def seq_init_def)

lemma exists_values_check [simp]: "exists_values (sent_requests (snd (addUser_updateEmail s v))) = [v]"
  by simp










text \<open>With replies out of order the code ends settled on a verdict for a superseded value,
  where the sequenced checker reports the current value taken.\<close>

lemma reordered_replies_stale:
  "au_valid (fst (field_run (\<lambda>v. v = ''acme'') [FType ''a'', FType ''acme'', FAnswer 1, FAnswer 0])) = Yes
   \<and> au_email (fst (field_run (\<lambda>v. v = ''acme'') [FType ''a'', FType ''acme'', FAnswer 1, FAnswer 0])) = ''acme''
   \<and> snd (field_run (\<lambda>v. v = ''acme'') [FType ''a'', FType ''acme'', FAnswer 1, FAnswer 0]) = []
   \<and> sf_verdict (seq_run (\<lambda>v. v = ''acme'') [FType ''a'', FType ''acme'', FAnswer 1, FAnswer 0]) = VTaken"
  by (simp add: field_run_def seq_run_def seq_init_def remove_nth_def split_beta)

text \<open>Even with replies in issue order, the code shows a verdict for a superseded
  value while the check of the current value is in flight: after \<open>a\<close>, \<open>acme\<close> and the
  reply for \<open>a\<close>, the field reads \<open>'yes'\<close> although \<open>acme\<close> is taken and unchecked;
  the sequenced checker is still pending.\<close>

theorem fifo_inflight_stale:
  "au_valid (fst (field_run (\<lambda>v. v = ''acme'') [FType ''a'', FType ''acme'', FAnswer 0])) = Yes
   \<and> snd (field_run (\<lambda>v. v = ''acme'') [FType ''a'', FType ''acme'', FAnswer 0]) = [''acme'']
   \<and> sf_verdict (seq_run (\<lambda>v. v = ''acme'') [FType ''a'', FType ''acme'', FAnswer 0]) = VPending"
  by (simp add: field_run_def seq_run_def seq_init_def remove_nth_def split_beta)

lemma exists_values_org_check [simp]:
  "exists_values (sent_requests (addOrg_checkValidity s)) = (if ao_name s = [] then [] else [ao_name s])"
  by (simp add: addOrg_checkValidity_def)

lemma org_settled_inv_step:
  "org_fifo e \<Longrightarrow> org_settled_inv taken c \<Longrightarrow> org_settled_inv taken (org_field_step taken c e)"
proof (cases c)
  case (fields s armed q)
  assume f: "org_fifo e" and i: "org_settled_inv taken c"
  show ?thesis
  proof (cases e)
    case (OAnswer k)
    with f have k: "k = 0" by simp
    show ?thesis
    proof (cases q)
      case (Cons x xs)
      with i fields OAnswer k show ?thesis
        by (cases xs) (auto simp: org_settled_inv_def remove_nth_def addOrg_onReply_valid)
    qed (use fields OAnswer i in \<open>simp add: org_settled_inv_def\<close>)
  next
    case (OType v)
    with fields show ?thesis by (simp add: org_settled_inv_def split_beta)
  next
    case OFire
    with fields i show ?thesis by (simp add: org_settled_inv_def)
  qed

qed

lemma org_settled_inv_run:
  "list_all org_fifo es \<Longrightarrow> org_settled_inv taken c \<Longrightarrow>
   org_settled_inv taken (foldl (org_field_step taken) c es)"
proof (induction es arbitrary: c)
  case (Cons e es)
  from Cons.prems have "org_fifo e" "list_all org_fifo es" by simp_all
  with Cons.IH org_settled_inv_step [OF _ Cons.prems(2)] show ?case by simp
qed simp

text \<open>C10. The debounced organisation field is correct once it is quiet: with replies in
  issue order, when the timer is idle and every check has been answered, a non-empty
  name shows exactly the settled verdict of the sequenced checker for that name.\<close>

theorem org_fifo_settled_verdict:
  assumes "list_all org_fifo es" and "org_field_run taken es = (s, False, [])" and "ao_name s \<noteq> []"
  shows "abs_valid (ao_valid s) = (if taken (ao_name s) then VTaken else VAvailable)"
proof -
  have "org_settled_inv taken (foldl (org_field_step taken) c es)" if "org_settled_inv taken c" for c
    using org_settled_inv_run [OF assms(1) that] .
  moreover have "org_settled_inv taken (addOrg_init, False, [])"
    by (simp add: org_settled_inv_def)
  ultimately have "org_settled_inv taken (org_field_run taken es)"
    by (simp add: org_field_run_def)
  then have "org_settled_inv taken (s, False, [])" by (simp only: assms(2))
  with assms(3) show ?thesis by (simp add: org_settled_inv_def)
qed

lemma same_field_step:
  "same_field l u \<Longrightarrow> same_field (linode_field_step taken l e) (field_step taken u e)"
  by (cases l, cases u, cases e)
     (auto simp: same_field_def split_beta addLinode_onReply_valid addUser_onReply_valid)

text \<open>C11. The linode name field and the user email field are the same engine: on any
  sequence of keystrokes and answers, in any order, their value, verdict and checks in
  flight agree. The refinement C9, and the stale verdicts that C17 exhibits in the
  user form, therefore hold of the linode field as well.\<close>

theorem linode_field_equiv:
  "al_name (fst (linode_field_run taken es)) = au_email (fst (field_run taken es))
   \<and> al_valid (fst (linode_field_run taken es)) = au_valid (fst (field_run taken es))
   \<and> snd (linode_field_run taken es) = snd (field_run taken es)"
proof -
  have "same_field (foldl (linode_field_step taken) l es) (foldl (field_step taken) u es)"
    if "same_field l u" for l u
    using that by (induction es arbitrary: l u) (simp_all add: same_field_step)
  moreover have "same_field (addLinode_init, []) (addUser_init, [])"
    by (simp add: same_field_def)
  ultimately show ?thesis
    by (simp add: linode_field_run_def field_run_def same_field_def)
qed

text \<open>Typing \<open>acme\<close>, letting the timer fire and receiving the answer (taken) settles the
  organisation field on the verdict taken.\<close>

theorem org_fifo_settled_verdict_witness:
  "org_field_run (\<lambda>v. v = ''acme'') [OType ''acme'', OFire, OAnswer 0]
     = (addOrg_init\<lparr>ao_name := ''acme'', ao_valid := No\<rparr>, False, [])
   \<and> abs_valid (ao_valid (addOrg_init\<lparr>ao_name := ''acme'', ao_valid := No\<rparr>)) = VTaken"
proof -
  have r: "org_field_run (\<lambda>v. v = ''acme'') [OType ''acme'', OFire, OAnswer 0]
     = (addOrg_init\<lparr>ao_name := ''acme'', ao_valid := No\<rparr>, False, [])"
    by (simp add: org_field_run_def remove_nth_def addOrg_init_def split_beta addOrg_checkValidity_def)
  from org_fifo_settled_verdict [OF _ r] r show ?thesis by simp
qed

end
