(* ===== verification/Wellformed.thy ===== *)
theory Wellformed
  imports System
begin

text \<open>
  The well-formedness of the running page, the invariant the step function keeps (in the
  manner of a state typing with its preservation lemma). \<open>origin_ok t og\<close>: the
  instance \<open>og\<close> names is allocated in its store. \<open>heap_ok\<close>: the error dialog has no
  body; every mounted body, every in-flight request's origin and every debounce timer
  name an allocated instance; the timers are distinct; mounted ids and allocated
  instances lie below \<open>nextId\<close>, so a mount never reuses an instance. \<open>mounts_shown\<close>:
  a dialog's body is mounted exactly while the App shows the dialog, the consistency
  React's reconciliation establishes after every \<open>setState\<close>. \<open>grows t t'\<close>: no
  instance is freed. Each operation of System preserves \<open>sys_wf\<close> (\<open>wf_step\<close>), so
  every reachable state is well-formed; in particular the defaults of \<open>org_form\<close> and
  its siblings for a missing instance are never read by a reply.
\<close>

fun origin_ok :: "sys \<Rightarrow> origin \<Rightarrow> bool" where
  "origin_ok t OApp = True"
| "origin_ok t (OOrg i) = (orgForms t i \<noteq> None)"
| "origin_ok t (OUser i) = (userForms t i \<noteq> None)"
| "origin_ok t (OLinode i) = (linodeForms t i \<noteq> None)"
| "origin_ok t (ODetails i) = (detailViews t i \<noteq> None)"

fun body_origin :: "dialog \<Rightarrow> nat \<Rightarrow> origin" where
  "body_origin DlgAddOrg i = OOrg i"
| "body_origin DlgAddUser i = OUser i"
| "body_origin DlgAddLinode i = OLinode i"
| "body_origin DlgUserDetails i = ODetails i"
| "body_origin DlgError i = OApp"

definition grows :: "sys \<Rightarrow> sys \<Rightarrow> bool" where
  "grows t t' \<longleftrightarrow> (\<forall>og. origin_ok t og \<longrightarrow> origin_ok t' og) \<and> nextId t \<le> nextId t'"

definition mounts_shown :: "sys \<Rightarrow> bool" where
  "mounts_shown t \<longleftrightarrow>
     (\<forall>d\<in>set body_dialogs. (mounted t d \<noteq> None) = md_visible (app_modal (sapp t) d))"

definition heap_ok :: "sys \<Rightarrow> bool" where
  "heap_ok t \<longleftrightarrow>
     mounted t DlgError = None
   \<and> (\<forall>d i. mounted t d = Some i \<longrightarrow> origin_ok t (body_origin d i) \<and> i < nextId t)
   \<and> (\<forall>p\<in>set (pending t). origin_ok t (fst p))
   \<and> (\<forall>i\<in>set (timers t). origin_ok t (OOrg i)) \<and> distinct (timers t)
   \<and> (\<forall>i. nextId t \<le> i \<longrightarrow> orgForms t i = None \<and> userForms t i = None
          \<and> linodeForms t i = None \<and> detailViews t i = None)"

definition sys_wf :: "sys \<Rightarrow> bool" where
  "sys_wf t \<longleftrightarrow> mounts_shown t \<and> heap_ok t"

lemma grows_refl [simp]: "grows t t"
  by (simp add: grows_def)

lemma grows_trans: "grows t t' \<Longrightarrow> grows t' t'' \<Longrightarrow> grows t t''"
  by (auto simp: grows_def)

lemma grows_ok: "grows t t' \<Longrightarrow> origin_ok t og \<Longrightarrow> origin_ok t' og"
  by (simp add: grows_def)

lemma grows_stores:
  "orgForms t' = orgForms t \<Longrightarrow> userForms t' = userForms t \<Longrightarrow> linodeForms t' = linodeForms t
   \<Longrightarrow> detailViews t' = detailViews t \<Longrightarrow> nextId t' = nextId t \<Longrightarrow> grows t t'"
  by (simp add: grows_def; intro allI; case_tac og; simp)

lemma origin_ok_stores:
  "orgForms t' = orgForms t \<Longrightarrow> userForms t' = userForms t \<Longrightarrow> linodeForms t' = linodeForms t
   \<Longrightarrow> detailViews t' = detailViews t \<Longrightarrow> origin_ok t' = origin_ok t"
  by (rule ext, case_tac x) simp_all


lemma heap_ok_sapp [simp]: "heap_ok (t\<lparr>sapp := a\<rparr>) = heap_ok t"
  by (simp add: heap_ok_def origin_ok_stores [of "t\<lparr>sapp := a\<rparr>" t])

lemma origin_ok_send [simp]: "origin_ok (sys_send og r t) = origin_ok t"
  by (rule origin_ok_stores) (simp_all add: sys_send_def)

lemma heap_ok_send: "heap_ok t \<Longrightarrow> origin_ok t og \<Longrightarrow> heap_ok (sys_send og r t)"
  by (simp add: heap_ok_def) (simp add: sys_send_def)

lemma origin_ok_sends [simp]: "origin_ok (sys_sends og rs t) = origin_ok t"
  by (rule origin_ok_stores) simp_all

lemma heap_ok_sends: "heap_ok t \<Longrightarrow> origin_ok t og \<Longrightarrow> heap_ok (sys_sends og rs t)"
  by (induction rs arbitrary: t) (simp_all add: heap_ok_send)

lemma mounted_sys_mount:
  "mounted (sys_mount d t) = (if d = DlgError then mounted t else (mounted t)(d := Some (nextId t)))"
  by (cases d) (simp_all add: sys_mount_def Let_def)

lemma heap_ok_mono:
  assumes h: "heap_ok t" and g: "grows t t'"
    and q: "pending t' = pending t" "timers t' = timers t" "mounted t' DlgError = None"
    and m: "\<And>d i. mounted t' d = Some i \<Longrightarrow> origin_ok t' (body_origin d i) \<and> i < nextId t'"
    and f: "\<And>i. nextId t' \<le> i \<Longrightarrow> orgForms t' i = None \<and> userForms t' i = None
              \<and> linodeForms t' i = None \<and> detailViews t' i = None"
  shows "heap_ok t'"
proof -
  from h have "\<forall>p\<in>set (pending t). origin_ok t (fst p)" "\<forall>i\<in>set (timers t). origin_ok t (OOrg i)"
      "distinct (timers t)"
    using h unfolding heap_ok_def by blast+
  with g have "\<forall>p\<in>set (pending t). origin_ok t' (fst p)" "\<forall>i\<in>set (timers t). origin_ok t' (OOrg i)"
    using grows_ok by blast+
  with \<open>distinct (timers t)\<close> q m f show ?thesis
    by (simp only: heap_ok_def) blast
qed

lemma heap_ok_update:
  assumes h: "heap_ok t" and g: "grows t t'"
    and q: "pending t' = pending t" "timers t' = timers t" "mounted t' = mounted t" "nextId t' = nextId t"
    and f: "\<And>i. nextId t \<le> i \<Longrightarrow> orgForms t' i = orgForms t i \<and> userForms t' i = userForms t i
              \<and> linodeForms t' i = linodeForms t i \<and> detailViews t' i = detailViews t i"
  shows "heap_ok t'"
proof (rule heap_ok_mono [OF h g q(1,2)])
  show "mounted t' DlgError = None" using h q by (simp add: heap_ok_def)
next
  fix d i assume "mounted t' d = Some i"
  with h q have "origin_ok t (body_origin d i) \<and> i < nextId t" by (simp add: heap_ok_def)
  with grows_ok [OF g] q show "origin_ok t' (body_origin d i) \<and> i < nextId t'" by simp
next
  fix i assume "nextId t' \<le> i"
  with h q f [of i] show "orgForms t' i = None \<and> userForms t' i = None
      \<and> linodeForms t' i = None \<and> detailViews t' i = None"
    by (simp add: heap_ok_def)
qed

lemma heap_ok_alloc:
  assumes h: "heap_ok t" and d: "d \<noteq> DlgError" and g: "grows t t'"
    and q: "pending t' = pending t" "timers t' = timers t"
    and n: "mounted t' = (mounted t)(d \<mapsto> nextId t)" "nextId t' = Suc (nextId t)"
    and new: "origin_ok t' (body_origin d (nextId t))"
    and same: "\<And>i. i \<noteq> nextId t \<Longrightarrow> orgForms t' i = orgForms t i \<and> userForms t' i = userForms t i
                 \<and> linodeForms t' i = linodeForms t i \<and> detailViews t' i = detailViews t i"
  shows "heap_ok t'"
proof (rule heap_ok_mono [OF h g q])
  show "mounted t' DlgError = None" using h d n by (simp add: heap_ok_def)
next
  fix d' i assume m: "mounted t' d' = Some i"
  show "origin_ok t' (body_origin d' i) \<and> i < nextId t'"
  proof (cases "d' = d")
    case False
    with m n have "mounted t d' = Some i" by simp
    with h have "origin_ok t (body_origin d' i) \<and> i < nextId t" by (simp add: heap_ok_def)
    then show ?thesis using grows_ok [OF g] n by simp
  qed (use m n new in simp)
next
  fix i assume "nextId t' \<le> i"
  with n same [of i] h show "orgForms t' i = None \<and> userForms t' i = None
      \<and> linodeForms t' i = None \<and> detailViews t' i = None"
    by (simp add: heap_ok_def)
qed

lemma grows_alloc:
  "nextId t \<le> nextId t' \<Longrightarrow> (\<And>i. orgForms t i \<noteq> None \<Longrightarrow> orgForms t' i \<noteq> None)
   \<Longrightarrow> (\<And>i. userForms t i \<noteq> None \<Longrightarrow> userForms t' i \<noteq> None)
   \<Longrightarrow> (\<And>i. linodeForms t i \<noteq> None \<Longrightarrow> linodeForms t' i \<noteq> None)
   \<Longrightarrow> (\<And>i. detailViews t i \<noteq> None \<Longrightarrow> detailViews t' i \<noteq> None) \<Longrightarrow> grows t t'"
  unfolding grows_def by (auto elim!: origin_ok.elims)

lemma heap_ok_mount: "heap_ok t \<Longrightarrow> heap_ok (sys_mount d t)"
proof (cases d)
  case DlgUserDetails
  assume h: "heap_ok t"
  let ?t1 = "t\<lparr>mounted := (mounted t)(d := Some (nextId t)), nextId := Suc (nextId t),
                detailViews := (detailViews t)(nextId t \<mapsto> userDetails_init)\<rparr>"
  have g: "grows t ?t1" by (rule grows_alloc) simp_all
  have "heap_ok ?t1"
    by (rule heap_ok_alloc [where d = DlgUserDetails, OF h _ g]) (simp_all add: DlgUserDetails)
  moreover have "origin_ok ?t1 (ODetails (nextId t))" by simp
  ultimately show ?thesis using DlgUserDetails
    by (simp add: sys_mount_def Let_def heap_ok_sends)
next
  case DlgError
  then show "heap_ok t \<Longrightarrow> ?thesis" by (simp add: sys_mount_def)
next
  case DlgAddOrg
  then show "heap_ok t \<Longrightarrow> ?thesis"
    by (simp add: sys_mount_def Let_def) (rule heap_ok_alloc [where d = DlgAddOrg]; (rule grows_alloc)?; auto)
next
  case DlgAddUser
  then show "heap_ok t \<Longrightarrow> ?thesis"
    by (simp add: sys_mount_def Let_def) (rule heap_ok_alloc [where d = DlgAddUser]; (rule grows_alloc)?; auto)
next
  case DlgAddLinode
  then show "heap_ok t \<Longrightarrow> ?thesis"
    by (simp add: sys_mount_def Let_def) (rule heap_ok_alloc [where d = DlgAddLinode]; (rule grows_alloc)?; auto)
qed

lemma grows_mount: "grows t (sys_mount d t)"
  by (cases d) (auto simp: grows_def sys_mount_def Let_def elim!: origin_ok.elims)


lemma grows_sends [simp]: "grows t (sys_sends og rs t)"
  by (rule grows_stores) simp_all

lemma grows_send [simp]: "grows t (sys_send og r t)"
  by (rule grows_stores) (simp_all add: sys_send_def)

lemma grows_unmount [simp]: "grows t (t\<lparr>mounted := m\<rparr>)"
  by (rule grows_stores) simp_all

lemma origin_ok_fields [simp]:
  "origin_ok (t\<lparr>mounted := m\<rparr>) = origin_ok t" "origin_ok (t\<lparr>sapp := a\<rparr>) = origin_ok t"
  "origin_ok (t\<lparr>pending := ps\<rparr>) = origin_ok t" "origin_ok (t\<lparr>timers := ts\<rparr>) = origin_ok t"
  by (rule origin_ok_stores; simp)+

lemma heap_ok_reconcile1: "heap_ok t \<Longrightarrow> heap_ok (sys_reconcile1 t d)"
  by (auto simp: sys_reconcile1_def Let_def heap_ok_mount) (auto simp: heap_ok_def)

lemma grows_reconcile1: "grows t (sys_reconcile1 t d)"
  by (simp add: sys_reconcile1_def Let_def grows_mount)

lemma mounted_reconcile1:
  "d' \<noteq> d \<Longrightarrow> mounted (sys_reconcile1 t d) d' = mounted t d'"
  "d \<noteq> DlgError \<Longrightarrow> (mounted (sys_reconcile1 t d) d \<noteq> None) = md_visible (app_modal (sapp t) d)"
  by (auto simp: sys_reconcile1_def Let_def mounted_sys_mount)

lemma heap_ok_setApp: "heap_ok t \<Longrightarrow> sys_wf (sys_setApp a t)"
proof -
  assume h: "heap_ok t"
  let ?t0 = "t\<lparr>sapp := a\<rparr>"
  let ?r = "\<lambda>ds. foldl sys_reconcile1 ?t0 ds"
  have "heap_ok (?r ds)" for ds
    using h by (induction ds rule: rev_induct) (simp_all add: heap_ok_reconcile1)
  moreover have "mounts_shown (?r body_dialogs)"
    by (simp add: mounts_shown_def body_dialogs_def mounted_reconcile1 del: not_None_eq)
  ultimately show ?thesis
    by (simp add: sys_wf_def sys_setApp_def sys_reconcile_def)
qed

lemma grows_setApp: "grows t (sys_setApp a t)"
proof -
  have "grows (t\<lparr>sapp := a\<rparr>) (foldl sys_reconcile1 (t\<lparr>sapp := a\<rparr>) ds)" for ds
    by (induction ds rule: rev_induct) (auto intro: grows_trans grows_reconcile1)
  moreover have "grows t (t\<lparr>sapp := a\<rparr>)" by (rule grows_stores) simp_all
  ultimately show ?thesis
    by (simp add: sys_setApp_def sys_reconcile_def) (rule grows_trans)
qed


lemma mounts_shown_fields [simp]:
  "mounts_shown (sys_send og r t) = mounts_shown t" "mounts_shown (sys_sends og rs t) = mounts_shown t"
  "mounts_shown (t\<lparr>timers := ts\<rparr>) = mounts_shown t" "mounts_shown (t\<lparr>pending := ps\<rparr>) = mounts_shown t"
  by (simp_all add: mounts_shown_def)

lemma wf_setApp: "sys_wf t \<Longrightarrow> sys_wf (sys_setApp a t)"
  by (rule heap_ok_setApp) (simp add: sys_wf_def)

lemma wf_send: "sys_wf t \<Longrightarrow> origin_ok t og \<Longrightarrow> sys_wf (sys_send og r t)"
  by (simp add: sys_wf_def heap_ok_send)

lemma heap_ok_debounce:
  "heap_ok t \<Longrightarrow> origin_ok t (OOrg i)
   \<Longrightarrow> heap_ok (t\<lparr>timers := (if i \<in> set (timers t) then timers t else timers t @ [i])\<rparr>)"
  by (simp add: heap_ok_def)

lemma wf_effects:
  "sys_wf t \<Longrightarrow> origin_ok t og \<Longrightarrow> sys_wf (sys_effects og es t) \<and> grows t (sys_effects og es t)"
proof (induction es arbitrary: t)
  case Nil
  then show ?case by simp
next
  case (Cons f es)
  show ?case
  proof (cases f)
    case (Send r)
    with Cons.prems Cons.IH [of "sys_send og r t"] show ?thesis
      by (auto simp: wf_send intro: grows_trans [OF grows_send])
  next
    case (Report e m)
    let ?t1 = "sys_setApp (app_setError (sapp t) e m) t"
    from Cons.prems have "sys_wf ?t1" "origin_ok ?t1 og"
      by (simp_all add: wf_setApp grows_ok [OF grows_setApp])
    with Cons.IH [of ?t1] Report show ?thesis
      by (auto intro: grows_trans grows_setApp)
  next
    case CloseReload
    let ?t1 = "sys_send OApp ReqOrgs (sys_setApp (fst (app_closeReload (sapp t) (close_action og))) t)"
    from Cons.prems have "sys_wf ?t1" "origin_ok ?t1 og"
      by (simp_all add: wf_setApp wf_send grows_ok [OF grows_setApp])
    moreover have "grows t ?t1" by (rule grows_trans [OF grows_setApp grows_send])
    ultimately show ?thesis using Cons.IH [of ?t1] CloseReload
      by (auto simp only: sys_effects_CloseReload intro: grows_trans)
  next
    case Debounce
    show ?thesis
    proof (cases og)
      case (OOrg i)
      let ?t1 = "t\<lparr>timers := (if i \<in> set (timers t) then timers t else timers t @ [i])\<rparr>"
      from Cons.prems OOrg have ok: "origin_ok t (OOrg i)" by simp
      have "sys_wf ?t1"
        using Cons.prems(1) heap_ok_debounce [OF _ ok] by (simp add: sys_wf_def)
      moreover have "origin_ok ?t1 og" using ok OOrg by simp
      moreover have "grows t ?t1" by (rule grows_stores) simp_all
      ultimately show ?thesis using Cons.IH [of ?t1] Debounce OOrg by (auto intro: grows_trans)
    qed (use Cons Debounce in simp_all)
  qed
qed


lemma wf_store_update:
  assumes w: "sys_wf t" and m: "mounted t d = Some i" and g: "grows t t'"
    and q: "pending t' = pending t" "timers t' = timers t" "mounted t' = mounted t"
      "nextId t' = nextId t" "sapp t' = sapp t"
    and f: "\<And>j. j \<noteq> i \<Longrightarrow> orgForms t' j = orgForms t j \<and> userForms t' j = userForms t j
              \<and> linodeForms t' j = linodeForms t j \<and> detailViews t' j = detailViews t j"
  shows "sys_wf t' \<and> grows t t'"
proof -
  from w have h: "heap_ok t" and ms: "mounts_shown t" by (simp_all add: sys_wf_def)
  from h m have "i < nextId t" by (simp add: heap_ok_def)
  with f have "nextId t \<le> j \<Longrightarrow> orgForms t' j = orgForms t j \<and> userForms t' j = userForms t j
              \<and> linodeForms t' j = linodeForms t j \<and> detailViews t' j = detailViews t j" for j
    by simp
  then have "heap_ok t'" by (rule heap_ok_update [OF h g q(1-4)])
  with ms q g show ?thesis by (simp add: sys_wf_def mounts_shown_def)
qed

lemma wf_set_org_form: "sys_wf t \<Longrightarrow> sys_wf (set_org_form i s t) \<and> grows t (set_org_form i s t)"
proof (cases "mounted t DlgAddOrg = Some i")
  case True
  assume w: "sys_wf t"
  have "grows t (t\<lparr>orgForms := (orgForms t)(i \<mapsto> s)\<rparr>)" by (rule grows_alloc) simp_all
  with wf_store_update [OF w True this] True show ?thesis by (simp add: set_org_form_def)
qed (simp add: set_org_form_def)

lemma wf_set_user_form: "sys_wf t \<Longrightarrow> sys_wf (set_user_form i u t) \<and> grows t (set_user_form i u t)"
proof (cases "mounted t DlgAddUser = Some i")
  case True
  assume w: "sys_wf t"
  have "grows t (t\<lparr>userForms := (userForms t)(i \<mapsto> u)\<rparr>)" by (rule grows_alloc) simp_all
  with wf_store_update [OF w True this] True show ?thesis by (simp add: set_user_form_def)
qed (simp add: set_user_form_def)

lemma wf_set_linode_form: "sys_wf t \<Longrightarrow> sys_wf (set_linode_form i l t) \<and> grows t (set_linode_form i l t)"
proof (cases "mounted t DlgAddLinode = Some i")
  case True
  assume w: "sys_wf t"
  have "grows t (t\<lparr>linodeForms := (linodeForms t)(i \<mapsto> l)\<rparr>)" by (rule grows_alloc) simp_all
  with wf_store_update [OF w True this] True show ?thesis by (simp add: set_linode_form_def)
qed (simp add: set_linode_form_def)

lemma wf_set_detail_view: "sys_wf t \<Longrightarrow> sys_wf (set_detail_view i v t) \<and> grows t (set_detail_view i v t)"
proof (cases "mounted t DlgUserDetails = Some i")
  case True
  assume w: "sys_wf t"
  have "grows t (t\<lparr>detailViews := (detailViews t)(i \<mapsto> v)\<rparr>)" by (rule grows_alloc) simp_all
  with wf_store_update [OF w True this] True show ?thesis by (simp add: set_detail_view_def)
qed (simp add: set_detail_view_def)

lemmas wf_set_forms = wf_set_org_form wf_set_user_form wf_set_linode_form wf_set_detail_view

lemma set_remove_nth: "set (remove_nth k xs) \<subseteq> set xs"
  by (auto simp: remove_nth_def dest: in_set_takeD in_set_dropD)

lemma wf_settle:
  "sys_wf t \<Longrightarrow> k < length (pending t) \<Longrightarrow> sys_wf (t\<lparr>pending := remove_nth k (pending t)\<rparr>)
     \<and> origin_ok (t\<lparr>pending := remove_nth k (pending t)\<rparr>) (fst (pending t ! k))"
  using set_remove_nth [of k "pending t"] nth_mem [of k "pending t"]
  by (auto simp: sys_wf_def heap_ok_def)

lemma wf_effects_after:
  "sys_wf t' \<and> grows t t' \<Longrightarrow> origin_ok t og \<Longrightarrow> sys_wf (sys_effects og fx t')"
  using wf_effects grows_ok by blast

lemma wf_deliver: "sys_wf t \<Longrightarrow> origin_ok t (fst p) \<Longrightarrow> sys_wf (sys_deliver p r t)"
proof (cases p)
  case (Pair og q)
  assume w: "sys_wf t" and ok: "origin_ok t (fst p)"
  note eff = wf_effects_after [OF _ ok [unfolded Pair fst_conv]]
  show ?thesis
  proof (cases og)
    case OApp
    with Pair w show ?thesis by (simp add: wf_setApp)
  next
    case (OOrg i)
    with Pair eff [OF wf_set_forms(1) [OF w]] show ?thesis by (simp add: split_beta)
  next
    case (OUser i)
    with Pair eff [OF wf_set_forms(2) [OF w]] show ?thesis by (simp add: split_beta)
  next
    case (OLinode i)
    with Pair eff [OF wf_set_forms(3) [OF w]] show ?thesis by (simp add: split_beta)
  next
    case (ODetails i)
    with Pair eff [OF wf_set_forms(4) [OF w]] show ?thesis by (simp add: split_beta)
  qed
qed

lemma wf_init: "sys_wf sys_init"
  by (simp add: sys_wf_def mounts_shown_def heap_ok_def body_dialogs_def sys_eval)


lemma wf_mounted_ok: "sys_wf t \<Longrightarrow> mounted t d = Some i \<Longrightarrow> origin_ok t (body_origin d i)"
  by (simp add: sys_wf_def heap_ok_def)

lemma wf_timer_fire:
  "sys_wf t \<Longrightarrow> i \<in> set (timers t) \<Longrightarrow>
   sys_wf (t\<lparr>timers := remove1 i (timers t)\<rparr>) \<and> origin_ok (t\<lparr>timers := remove1 i (timers t)\<rparr>) (OOrg i)"
  by (auto simp: sys_wf_def heap_ok_def dest: in_set_remove1 [THEN iffD1] notin_set_remove1)

lemma wf_step: "sys_step t e = Some t' \<Longrightarrow> sys_wf t \<Longrightarrow> sys_wf t'"
proof (induction t e rule: sys_step.induct)
  case (4 t v)
  then obtain i where "mounted t DlgAddOrg = Some i" by (auto split: option.splits)
  with 4 wf_mounted_ok [OF 4(2) this] show ?case
    by (auto simp: split_beta simp del: sys_effects.simps intro: wf_effects_after [OF wf_set_forms(1)])
next
  case (5 t)
  then obtain i where "mounted t DlgAddOrg = Some i" by (auto split: option.splits)
  with 5 wf_mounted_ok [OF 5(2) this] show ?case
    by (auto split: if_splits intro: wf_effects_after [where t = t])
next
  case (6 t v)
  then obtain i where "mounted t DlgAddUser = Some i" by (auto split: option.splits)
  with 6 wf_mounted_ok [OF 6(2) this] show ?case
    by (auto simp: split_beta simp del: sys_effects.simps intro: wf_effects_after [OF wf_set_forms(2)])
next
  case (8 t)
  then obtain i where "mounted t DlgAddUser = Some i" by (auto split: option.splits)
  with 8 wf_mounted_ok [OF 8(2) this] show ?case
    by (auto split: if_splits intro: wf_effects_after [where t = t])
next
  case (9 t v)
  then obtain i where "mounted t DlgAddLinode = Some i" by (auto split: option.splits)
  with 9 wf_mounted_ok [OF 9(2) this] show ?case
    by (auto simp: split_beta simp del: sys_effects.simps intro: wf_effects_after [OF wf_set_forms(3)])
next
  case (11 t)
  then obtain i where "mounted t DlgAddLinode = Some i" by (auto split: option.splits)
  with 11 wf_mounted_ok [OF 11(2) this] show ?case
    by (auto split: if_splits intro: wf_effects_after [where t = t])
next
  case (12 t i)
  then have i: "i \<in> set (timers t)"
    and t': "t' = sys_effects (OOrg i) (addOrg_checkValidity (org_form t i)) (t\<lparr>timers := remove1 i (timers t)\<rparr>)"
    by (simp_all split: if_splits)
  from wf_timer_fire [OF 12(2) i] show ?case
    unfolding t' by (blast dest: wf_effects)
next
  case (13 t k r)
  then show ?case
    using wf_settle [OF 13(2)] by (auto split: if_splits intro: wf_deliver)
qed (auto simp: wf_setApp wf_init wf_set_forms split: if_splits option.splits)

lemma wf_reach: "reach t \<Longrightarrow> sys_wf t"
  by (induction rule: reach.induct) (auto intro: wf_init wf_step)

text \<open>In every reachable state the page's references are well-typed: every request
  in flight belongs to an allocated instance of its origin's kind, so its reply is
  handled by that instance; every mounted dialog body is an allocated instance below
  \<open>nextId\<close>; and a dialog's body is mounted exactly while the dialog is shown.\<close>

theorem reach_heap_typed:
  "reach t \<Longrightarrow> list_all (origin_ok t \<circ> fst) (pending t)
     \<and> (\<forall>d i. mounted t d = Some i \<longrightarrow> origin_ok t (body_origin d i) \<and> i < nextId t)
     \<and> (\<forall>d\<in>set body_dialogs. (mounted t d \<noteq> None) = md_visible (app_modal (sapp t) d))"
proof -
  assume "reach t"
  then have "sys_wf t" by (rule wf_reach)
  then show ?thesis by (simp add: sys_wf_def heap_ok_def mounts_shown_def list_all_iff del: not_None_eq)
qed

text \<open>Bound on the debounce timers: lodash keeps one timer per debounced function,
  that is per AddOrg instance, so in every reachable state the timers armed are distinct
  instances ever allocated, at most \<open>nextId\<close> of them, although unmounted instances
  keep theirs.\<close>

theorem reach_timers_bounded: "reach t \<Longrightarrow> length (timers t) \<le> nextId t"
proof -
  assume "reach t"
  then have h: "heap_ok t" by (simp add: wf_reach [unfolded sys_wf_def])
  have "i < nextId t" if "i \<in> set (timers t)" for i
  proof (rule ccontr)
    assume "\<not> i < nextId t"
    with h have "orgForms t i = None" by (simp add: heap_ok_def)
    with h that show False by (auto simp: heap_ok_def)
  qed
  then have "set (timers t) \<subseteq> {..<nextId t}" by auto
  moreover from h have "distinct (timers t)" by (simp add: heap_ok_def)
  ultimately show ?thesis
    by (metis card_lessThan card_mono distinct_card finite_lessThan)
qed

end
