(* ===== verification/Progress.thy ===== *)
theory Progress
  imports Wellformed
begin

text \<open>
  The page's own activity (replies and debounce timers, without user input) always
  comes to rest. \<open>sys_load\<close> weighs the work outstanding: two per armed timer (its
  firing may issue one existence check), two per creation request in flight (its reply
  may issue one snapshot fetch through \<open>closeReload\<close>), one per other request. In a
  well-formed state every delivery and every timer firing lowers the load: a reply
  handler emits at most one \<open>setError\<close> or \<open>closeReload\<close>, and since the dialog
  bodies shown are already mounted (\<open>mounts_shown\<close>) and replies only hide dialogs,
  the re-render mounts nothing and issues no user fetch. Hence any run of background
  events is at most \<open>sys_load t\<close> long, and \<open>settle\<close>, which answers the oldest request
  with the server's answer \<open>ans\<close> or fires the oldest timer, reaches a state with nothing
  in flight and no timer armed within \<open>sys_load t\<close> steps of fuel.
\<close>

fun req_weight :: "request \<Rightarrow> nat" where
  "req_weight r = (if is_create r then 2 else 1)"

definition sys_load :: "sys \<Rightarrow> nat" where
  "sys_load t = 2 * length (timers t) + sum_list (map (req_weight \<circ> snd) (pending t))"

definition covered_mounted :: "app \<Rightarrow> sys \<Rightarrow> bool" where
  "covered_mounted a t \<longleftrightarrow> (\<forall>d. d \<noteq> DlgError \<longrightarrow> md_visible (app_modal a d) \<longrightarrow> mounted t d \<noteq> None)"

definition reply_effects_ok :: "request \<Rightarrow> effect list \<Rightarrow> bool" where
  "reply_effects_ok q fx \<longleftrightarrow> fx = [] \<or> (\<exists>e m. fx = [Report e m]) \<or> (is_create q \<and> fx = [CloseReload])"

fun settle :: "nat \<Rightarrow> (request \<Rightarrow> outcome) \<Rightarrow> sys \<Rightarrow> event list" where
  "settle 0 ans t = []"
| "settle (Suc n) ans t =
     (case pending t of
        p # _ \<Rightarrow> (case sys_step t (Deliver 0 (ans (snd p))) of
                    None \<Rightarrow> []
                  | Some t' \<Rightarrow> Deliver 0 (ans (snd p)) # settle n ans t')
      | [] \<Rightarrow> (case timers t of
                [] \<Rightarrow> []
              | i # _ \<Rightarrow> (case sys_step t (TimerFire i) of
                            None \<Rightarrow> []
                          | Some t' \<Rightarrow> TimerFire i # settle n ans t')))"

fun background :: "event \<Rightarrow> bool" where
  "background (Deliver _ _) = True"
| "background (TimerFire _) = True"
| "background _ = False"

lemma reconcile1_quiet:
  "covered_mounted (sapp t) t \<Longrightarrow>
   pending (sys_reconcile1 t d) = pending t \<and> timers (sys_reconcile1 t d) = timers t
   \<and> covered_mounted (sapp t) (sys_reconcile1 t d)"
  by (cases "d = DlgError")
     (auto simp: sys_reconcile1_def Let_def covered_mounted_def sys_mount_def)

lemma foldl_reconcile_sapp [simp]: "sapp (foldl sys_reconcile1 t ds) = sapp t"
  by (induction ds arbitrary: t) simp_all

lemma setApp_quiet:
  assumes "covered_mounted a t"
  shows "pending (sys_setApp a t) = pending t \<and> timers (sys_setApp a t) = timers t"
proof -
  have "covered_mounted a (foldl sys_reconcile1 (t\<lparr>sapp := a\<rparr>) ds)
        \<and> pending (foldl sys_reconcile1 (t\<lparr>sapp := a\<rparr>) ds) = pending t
        \<and> timers (foldl sys_reconcile1 (t\<lparr>sapp := a\<rparr>) ds) = timers t" for ds
  proof (induction ds rule: rev_induct)
    case Nil
    from assms show ?case by (simp add: covered_mounted_def)
  next
    case (snoc d ds)
    then show ?case using reconcile1_quiet [of "foldl sys_reconcile1 (t\<lparr>sapp := a\<rparr>) ds" d] by simp
  qed
  then show ?thesis by (simp add: sys_setApp_def sys_reconcile_def)
qed

lemma shrinks_covered:
  "mounts_shown t \<Longrightarrow> shrinks (sapp t) a \<Longrightarrow> covered_mounted a t"
  unfolding covered_mounted_def
proof (intro allI impI)
  fix d assume ms: "mounts_shown t" and sh: "shrinks (sapp t) a" and d: "d \<noteq> DlgError"
    and v: "md_visible (app_modal a d)"
  from v have "d \<in> set (app_visible a)" by (simp add: in_app_visible)
  with sh d have "md_visible (app_modal (sapp t) d)" by (auto simp: shrinks_def in_app_visible)
  moreover from d have "d \<in> set body_dialogs" by (cases d) (simp_all add: body_dialogs_def)
  ultimately show "mounted t d \<noteq> None" using ms by (simp add: mounts_shown_def)
qed


lemma addOrg_reply_effects: "reply_effects_ok q (snd (addOrg_onReply s q r))"
  by (cases "(s, q, r)" rule: addOrg_onReply.cases) (simp_all add: reply_effects_ok_def)

lemma addUser_reply_effects: "reply_effects_ok q (snd (addUser_onReply u q r))"
  by (cases "(u, q, r)" rule: addUser_onReply.cases) (simp_all add: reply_effects_ok_def)

lemma addLinode_reply_effects: "reply_effects_ok q (snd (addLinode_onReply l q r))"
  by (cases "(l, q, r)" rule: addLinode_onReply.cases) (simp_all add: reply_effects_ok_def)

lemma userDetails_reply_effects: "reply_effects_ok q (snd (userDetails_onReply v q r))"
  by (cases "(v, q, r)" rule: userDetails_onReply.cases) (simp_all add: reply_effects_ok_def)

lemmas onReply_effects_ok =
  addOrg_reply_effects addUser_reply_effects addLinode_reply_effects userDetails_reply_effects

lemma setApp_shrinks_quiet:
  "mounts_shown t \<Longrightarrow> shrinks (sapp t) a \<Longrightarrow>
   pending (sys_setApp a t) = pending t \<and> timers (sys_setApp a t) = timers t"
  by (rule setApp_quiet) (rule shrinks_covered)

lemma effects_quiet:
  assumes ms: "mounts_shown t" and ok: "reply_effects_ok q fx"
  shows "\<exists>extra. pending (sys_effects og fx t) = pending t @ extra
           \<and> sum_list (map (req_weight \<circ> snd) extra) < req_weight q
           \<and> timers (sys_effects og fx t) = timers t"
proof -
  consider "fx = []" | e m where "fx = [Report e m]" | "is_create q" "fx = [CloseReload]"
    using ok by (auto simp: reply_effects_ok_def)
  then show ?thesis
  proof cases
    case 1
    then show ?thesis by simp
  next
    case 2
    with setApp_shrinks_quiet [OF ms shrinks_setError] show ?thesis by simp
  next
    case 3
    with setApp_shrinks_quiet [OF ms shrinks_closeReload] show ?thesis
      by (simp add: sys_effects_CloseReload sys_send_def del: sys_effects.simps(4))
  qed
qed

lemma mounts_shown_set_forms [simp]:
  "mounts_shown (set_org_form i s t) = mounts_shown t" "mounts_shown (set_user_form i u t) = mounts_shown t"
  "mounts_shown (set_linode_form i l t) = mounts_shown t" "mounts_shown (set_detail_view i v t) = mounts_shown t"
  by (simp_all add: mounts_shown_def set_org_form_def set_user_form_def set_linode_form_def set_detail_view_def)

lemma queues_set_forms [simp]:
  "pending (set_org_form i s t) = pending t" "timers (set_org_form i s t) = timers t"
  "pending (set_user_form i u t) = pending t" "timers (set_user_form i u t) = timers t"
  "pending (set_linode_form i l t) = pending t" "timers (set_linode_form i l t) = timers t"
  "pending (set_detail_view i v t) = pending t" "timers (set_detail_view i v t) = timers t"
  by (simp_all add: set_org_form_def set_user_form_def set_linode_form_def set_detail_view_def)

lemma deliver_quiet:
  assumes ms: "mounts_shown t"
  shows "\<exists>extra. pending (sys_deliver p r t) = pending t @ extra
           \<and> sum_list (map (req_weight \<circ> snd) extra) < req_weight (snd p)
           \<and> timers (sys_deliver p r t) = timers t"
proof (cases p)
  case (Pair og q)
  then show ?thesis
  proof (cases og)
    case OApp
    with Pair setApp_shrinks_quiet [OF ms shrinks_onReply] show ?thesis by simp
  next
    case (OOrg i)
    with Pair effects_quiet [of "set_org_form i _ t", OF _ onReply_effects_ok(1)] ms show ?thesis
      by (simp add: split_beta)
  next
    case (OUser i)
    with Pair effects_quiet [of "set_user_form i _ t", OF _ onReply_effects_ok(2)] ms show ?thesis
      by (simp add: split_beta)
  next
    case (OLinode i)
    with Pair effects_quiet [of "set_linode_form i _ t", OF _ onReply_effects_ok(3)] ms show ?thesis
      by (simp add: split_beta)
  next
    case (ODetails i)
    with Pair effects_quiet [of "set_detail_view i _ t", OF _ onReply_effects_ok(4)] ms show ?thesis
      by (simp add: split_beta)
  qed
qed


lemma sum_remove_nth:
  "k < length xs \<Longrightarrow> sum_list (map f (remove_nth k xs)) + f (xs ! k) = sum_list (map (f :: _ \<Rightarrow> nat) xs)"
proof -
  assume k: "k < length xs"
  have "xs = take k xs @ xs ! k # drop (Suc k) xs" using k by (simp add: id_take_nth_drop)
  then have "sum_list (map f xs) = sum_list (map f (take k xs)) + f (xs ! k) + sum_list (map f (drop (Suc k) xs))"
    by (metis add.assoc list.map(2) map_append sum_list.Cons sum_list_append)
  then show ?thesis by (simp add: remove_nth_def)
qed

lemma load_deliver:
  assumes w: "sys_wf t" and step: "sys_step t (Deliver k r) = Some t'"
  shows "sys_load t' < sys_load t"
proof -
  let ?p = "pending t ! k" and ?t1 = "t\<lparr>pending := remove_nth k (pending t)\<rparr>"
  from step have k: "k < length (pending t)" and t': "t' = sys_deliver ?p r ?t1"
    by (simp_all split: if_splits)
  from w have "mounts_shown ?t1" by (simp add: sys_wf_def)
  from deliver_quiet [OF this, of ?p r] obtain extra
    where "pending t' = remove_nth k (pending t) @ extra"
      and "sum_list (map (req_weight \<circ> snd) extra) < req_weight (snd ?p)"
      and "timers t' = timers t"
    unfolding t' by auto
  with sum_remove_nth [OF k, of "req_weight \<circ> snd"] show ?thesis
    by (simp add: sys_load_def)
qed

lemma load_timer:
  assumes w: "sys_wf t" and step: "sys_step t (TimerFire i) = Some t'"
  shows "sys_load t' < sys_load t"
proof -
  from step have i: "i \<in> set (timers t)"
    and t': "t' = sys_effects (OOrg i) (addOrg_checkValidity (org_form t i)) (t\<lparr>timers := remove1 i (timers t)\<rparr>)"
    by (simp_all split: if_splits)
  from i have "Suc (length (remove1 i (timers t))) = length (timers t)"
    by (simp add: length_remove1) (metis One_nat_def Suc_pred length_pos_if_in_set)
  then show ?thesis
    unfolding t' by (simp add: addOrg_checkValidity_def sys_load_def sys_send_def)
qed

lemma deliver_fits:
  "pending t = p # ps \<Longrightarrow> reply_fits (snd p) r \<Longrightarrow> \<exists>t'. sys_step t (Deliver 0 r) = Some t'"
  by simp

lemma timer_fires: "timers t = i # ts \<Longrightarrow> \<exists>t'. sys_step t (TimerFire i) = Some t'"
  by simp

lemma load_zero: "sys_load t = 0 \<Longrightarrow> pending t = [] \<and> timers t = []"
  by (cases "pending t") (simp_all add: sys_load_def split: if_splits)

lemma settle_enough:
  "sys_wf t \<Longrightarrow> (\<forall>q. reply_fits q (ans q)) \<Longrightarrow> sys_load t \<le> n \<Longrightarrow>
   \<exists>t'. sys_run t (settle n ans t) = Some t' \<and> pending t' = [] \<and> timers t' = []"
proof (induction n arbitrary: t)
  case 0
  then show ?case using load_zero [of t] by simp
next
  case (Suc n)
  show ?case
  proof (cases "pending t")
    case (Cons p ps)
    from deliver_fits [OF Cons] Suc.prems(2) obtain t1
      where s: "sys_step t (Deliver 0 (ans (snd p))) = Some t1" by blast
    with load_deliver [OF Suc.prems(1) s] wf_step [OF s Suc.prems(1)]
      Suc.IH [of t1] Suc.prems(2,3) Cons show ?thesis by simp
  next
    case Nil
    show ?thesis
    proof (cases "timers t")
      case (Cons i ts)
      from timer_fires [OF Cons] obtain t1 where s: "sys_step t (TimerFire i) = Some t1" by blast
      with load_timer [OF Suc.prems(1) s] wf_step [OF s Suc.prems(1)]
        Suc.IH [of t1] Suc.prems(2,3) Nil Cons show ?thesis by simp
    qed (use Nil in simp)
  qed
qed

lemma background_bounded:
  "sys_wf t \<Longrightarrow> sys_run t es = Some t' \<Longrightarrow> list_all background es \<Longrightarrow> length es \<le> sys_load t"
proof (induction es arbitrary: t)
  case (Cons e es)
  then obtain t1 where s: "sys_step t e = Some t1" and r: "sys_run t1 es = Some t'"
    by (auto split: option.splits)
  have "sys_load t1 < sys_load t"
    using Cons.prems(3) load_deliver [OF Cons.prems(1)] load_timer [OF Cons.prems(1)] s
    by (cases e) auto
  with Cons.IH [OF wf_step [OF s Cons.prems(1)] r] Cons.prems(3) show ?case by simp
qed simp

text \<open>C12. Liveness: from every reachable state, whatever the server answers (any reply
  that fits each route, failures included), answering the oldest request in flight or
  firing the oldest debounce timer, \<open>sys_load t\<close> times at most, brings the page to rest:
  no request in flight and no timer armed.\<close>

theorem reach_settles:
  "reach t \<Longrightarrow> (\<forall>q. reply_fits q (ans q)) \<Longrightarrow>
   \<exists>t'. sys_run t (settle (sys_load t) ans t) = Some t' \<and> pending t' = [] \<and> timers t' = []"
  using settle_enough [OF wf_reach] by blast

text \<open>C13. Termination of the background activity: from a reachable state, every run made
  only of replies (in any order, with any answers) and timer firings has at most
  \<open>sys_load t\<close> events; no reply or timer triggers an unbounded chain of requests.\<close>

theorem reach_background_terminates:
  "reach t \<Longrightarrow> sys_run t es = Some t' \<Longrightarrow> list_all background es \<Longrightarrow> length es \<le> sys_load t"
  using background_bounded [OF wf_reach] by blast

end
