(* ===== verification/Shell.thy ===== *)
theory Shell
  imports Prelude
begin

text \<open>
  The routing shell, \<open>src/web/src/index.js\<close> and \<open>src/web/src/components/Header.js\<close>.
  \<open>index.js\<close> renders, inside a \<open>Router\<close> over a hash history with
  \<open>hashType: 'slash'\<close>, the navigation bar \<open>Header\<close> and a \<open>Route\<close> with
  \<open>path="/"\<close> (not \<open>exact\<close>) whose component is the App. The hash history reads the
  location from the URL fragment and adds the leading slash the \<open>'slash'\<close> type
  prescribes; a non-exact route matches every path it is a prefix of. The Header is
  a brand link \<open>OrgDemo\<close> to \<open>#/\<close>.
\<close>

datatype page_part = NavBar string string | AppRoot

definition hash_location :: "string \<Rightarrow> string" where
  "hash_location h = (if take 1 h = ''/'' then h else CHR ''/'' # h)"

definition route_matches :: "string \<Rightarrow> string \<Rightarrow> bool" where
  "route_matches route path \<longleftrightarrow> take (length route) path = route"

definition header_render :: page_part where
  "header_render = NavBar ''OrgDemo'' ''#/''"

definition index_render :: "string \<Rightarrow> page_part list" where
  "index_render h = header_render # (if route_matches ''/'' (hash_location h) then [AppRoot] else [])"

text \<open>Whatever the fragment, the page is the navigation bar over the App: the root route
  matches every location, and the brand link leads back to the same page.\<close>

lemma hash_location_slash: "take 1 (hash_location h) = ''/''"
  unfolding hash_location_def by (cases h) auto

lemma index_render_any: "index_render h = [NavBar ''OrgDemo'' ''#/'', AppRoot]"
  using hash_location_slash [of h] by (simp add: index_render_def header_render_def route_matches_def)

end
