(* ===== verification/Coordinator.thy ===== *)
theory Coordinator
  imports System
begin

text \<open>
  The dialog state of the spec (section 3, \<open>DialogState\<close>) and its refinement by the
  Root Coordinator of \<open>src/web/src/App.js\<close>. The spec's coordinator holds exactly one
  of \<open>none\<close>, \<open>addingOrganization\<close>, \<open>addingUser\<close>, \<open>addingInstance\<close>,
  \<open>viewingUser(id)\<close>, \<open>fatalError(message)\<close>; its transitions (\<open>coord_step\<close>) are
  \<open>openCreate\<close> and \<open>selectUser\<close> from \<open>none\<close>, \<open>closeAndReload\<close> and
  \<open>unselectUser\<close> back to \<open>none\<close> from any non-fatal state, and \<open>reportError\<close>, which
  overrides every state. App keeps instead five independent fields (\<open>selectedUserId\<close>,
  three \<open>adding\<close> flags, \<open>broke\<close>); \<open>dialog_of\<close> reads the spec's state off them
  in the order App's \<open>render\<close> gives the error dialog precedence. Under the invariant
  \<open>coord_inv\<close> (at most one dialog shown, and \<open>broke\<close> alone) every event of the page
  but a reload moves \<open>dialog_of\<close> along \<open>coord_step\<close>.
\<close>

datatype dialog_state = DNone | DAddingOrg | DAddingUser | DAddingInstance
  | DViewingUser user_id | DFatal msg

fun is_fatal :: "dialog_state \<Rightarrow> bool" where
  "is_fatal (DFatal m) = True"
| "is_fatal _ = False"

inductive coord_step :: "dialog_state \<Rightarrow> dialog_state \<Rightarrow> bool" where
  cs_stay: "coord_step d d"
| cs_openCreate: "d \<in> {DAddingOrg, DAddingUser, DAddingInstance} \<Longrightarrow> coord_step DNone d"
| cs_selectUser: "coord_step DNone (DViewingUser u)"
| cs_close: "\<not> is_fatal d \<Longrightarrow> coord_step d DNone"
| cs_reportError: "coord_step d (DFatal m)"

code_pred coord_step .

text \<open>The spec's state read off App's fields; \<open>broke\<close> wins, as the error dialog
  pre-empts the others, then the user dialog, then the three creation dialogs.\<close>

definition dialog_of :: "app \<Rightarrow> dialog_state" where
  "dialog_of a = (if broke a then DFatal (errorMsg a)
     else case selectedUserId a of
       Some u \<Rightarrow> DViewingUser u
     | None \<Rightarrow> if addingOrg a then DAddingOrg else if addingUser a then DAddingUser
               else if addingLinode a then DAddingInstance else DNone)"

text \<open>The dialogs the spec's state puts on the screen.\<close>

fun dialog_shown :: "dialog_state \<Rightarrow> dialog list" where
  "dialog_shown DNone = []"
| "dialog_shown DAddingOrg = [DlgAddOrg]"
| "dialog_shown DAddingUser = [DlgAddUser]"
| "dialog_shown DAddingInstance = [DlgAddLinode]"
| "dialog_shown (DViewingUser u) = [DlgUserDetails]"
| "dialog_shown (DFatal m) = [DlgError]"

text \<open>The invariant of the reachable App states under which the abstraction is
  faithful (C2, C3).\<close>

definition coord_inv :: "app \<Rightarrow> bool" where
  "coord_inv a \<longleftrightarrow> one_dialog a \<and> error_alone a"

definition narrows :: "dialog_state \<Rightarrow> dialog_state \<Rightarrow> bool" where
  "narrows d d' \<longleftrightarrow> d' = d \<or> (d' = DNone \<and> \<not> is_fatal d) \<or> is_fatal d'"

section \<open>Narrowing steps\<close>

text \<open>\<open>narrows d d'\<close>: the transitions that open nothing, i.e. staying, closing a
  non-fatal dialog, or entering the fatal state. They compose.\<close>

inductive_cases coord_step_fatalE: "coord_step (DFatal m) d'"

lemma narrows_refl [simp]: "narrows d d"
  by (simp add: narrows_def)

lemma narrows_trans: "narrows d1 d2 \<Longrightarrow> narrows d2 d3 \<Longrightarrow> narrows d1 d3"
  by (auto simp: narrows_def)

lemma narrows_coord_step: "narrows d d' \<Longrightarrow> coord_step d d'"
  by (auto simp: narrows_def intro: coord_step.intros elim: is_fatal.elims)

lemma coord_step_from_fatal: "coord_step (DFatal m) d' \<Longrightarrow> is_fatal d'"
  by (erule coord_step_fatalE) simp_all

section \<open>The invariant and the abstraction\<close>

lemma one_dialog_flags:
  "one_dialog a \<longleftrightarrow>
     (selectedUserId a \<noteq> None \<longrightarrow> \<not> addingOrg a \<and> \<not> addingUser a \<and> \<not> addingLinode a \<and> \<not> broke a)
   \<and> (addingOrg a \<longrightarrow> \<not> addingUser a \<and> \<not> addingLinode a \<and> \<not> broke a)
   \<and> (addingUser a \<longrightarrow> \<not> addingLinode a \<and> \<not> broke a)
   \<and> (addingLinode a \<longrightarrow> \<not> broke a)"
  by (auto simp: one_dialog_def app_visible_def all_dialogs_def)

lemma coord_inv_shown:
  assumes "coord_inv a"
  shows "app_visible a = dialog_shown (dialog_of a)"
proof (cases "broke a")
  case True
  with assms show ?thesis by (simp add: coord_inv_def error_alone_visible dialog_of_def)
next
  case False
  with assms show ?thesis
    by (cases "selectedUserId a")
       (simp_all add: coord_inv_def one_dialog_flags dialog_of_def app_visible_def all_dialogs_def)
qed

lemma coord_inv_init: "coord_inv app_init"
  by (simp add: coord_inv_def one_dialog_init error_alone_unbroken)

lemma coord_inv_step: "sys_step t e = Some t' \<Longrightarrow> coord_inv (sapp t) \<Longrightarrow> coord_inv (sapp t')"
  unfolding coord_inv_def using sys_step_one_dialog error_alone_step by blast

lemma coord_inv_reach: "reach t \<Longrightarrow> coord_inv (sapp t)"
  by (induction rule: reach.induct) (simp add: coord_inv_init, erule coord_inv_step)

lemma coord_inv_shrinks: "coord_inv a \<Longrightarrow> shrinks a b \<Longrightarrow> error_alone b \<Longrightarrow> coord_inv b"
  unfolding coord_inv_def by (blast intro: shrinks_one_dialog)

section \<open>The App operations narrow the dialog state\<close>

lemma narrows_setError [simp]: "narrows (dialog_of a) (dialog_of (app_setError a e m))"
  by (simp add: narrows_def dialog_of_def)

lemma narrows_closeReload [simp]:
  "coord_inv a \<Longrightarrow> narrows (dialog_of a) (dialog_of (fst (app_closeReload a x)))"
  by (auto simp: narrows_def dialog_of_def coord_inv_def one_dialog_flags app_closeReload_def
      split: option.splits)

lemma narrows_close [simp]:
  "coord_inv a \<Longrightarrow> narrows (dialog_of a) (dialog_of (app_close a c))"
  by (cases c) (auto simp: narrows_def dialog_of_def coord_inv_def one_dialog_flags app_unselectUser_def
      split: option.splits)

lemma narrows_onReply [simp]:
  "narrows (dialog_of a) (dialog_of (app_onReply a q r))"
  by (cases "(a, q, r)" rule: app_onReply.cases) (simp_all add: narrows_def dialog_of_def)

lemma coord_inv_setError [simp]: "coord_inv (app_setError a e m)"
  by (simp add: coord_inv_def one_dialog_def error_alone_visible)

lemma coord_inv_closeReload [simp]: "coord_inv a \<Longrightarrow> coord_inv (fst (app_closeReload a x))"
  unfolding coord_inv_def by (blast intro: shrinks_one_dialog shrinks_closeReload error_alone_closeReload)

lemma coord_inv_close [simp]: "coord_inv a \<Longrightarrow> coord_inv (app_close a c)"
  unfolding coord_inv_def by (blast intro: shrinks_one_dialog shrinks_close error_alone_close)

lemma coord_inv_onReply [simp]: "coord_inv a \<Longrightarrow> coord_inv (app_onReply a q r)"
  unfolding coord_inv_def by (blast intro: shrinks_one_dialog shrinks_onReply error_alone_onReply)

text \<open>Running the effects of a handler keeps the invariant and only narrows the dialog
  state: each \<open>Report\<close> enters the fatal state, each \<open>CloseReload\<close> closes.\<close>

lemma narrows_effects:
  "coord_inv (sapp t) \<Longrightarrow>
     coord_inv (sapp (sys_effects og es t)) \<and> narrows (dialog_of (sapp t)) (dialog_of (sapp (sys_effects og es t)))"
proof (induction es arbitrary: t)
  case (Cons f es)
  show ?case
  proof (cases f)
    case (Send r)
    with Cons.prems Cons.IH [of "sys_send og r t"] show ?thesis by simp
  next
    case (Report e m)
    with Cons.IH [of "sys_setApp (app_setError (sapp t) e m) t"] show ?thesis
      by (auto intro: narrows_trans [OF narrows_setError])
  next
    case CloseReload
    let ?a = "fst (app_closeReload (sapp t) (close_action og))"
    from Cons.prems have "coord_inv ?a" "narrows (dialog_of (sapp t)) (dialog_of ?a)" by simp_all
    with Cons.IH [of "sys_send OApp ReqOrgs (sys_setApp ?a t)"] CloseReload show ?thesis
      by (auto simp only: sys_effects_CloseReload sys_send_fields sys_setApp_sapp intro: narrows_trans)
  next
    case Debounce
    have "coord_inv (sapp (sys_effects og es (t\<lparr>timers := ts\<rparr>))) \<and>
          narrows (dialog_of (sapp t)) (dialog_of (sapp (sys_effects og es (t\<lparr>timers := ts\<rparr>))))" for ts
      using Cons.prems Cons.IH [of "t\<lparr>timers := ts\<rparr>"] by simp
    with Debounce Cons show ?thesis by (cases og) simp_all
  qed
qed simp

lemma narrows_effects' [simp]:
  "sapp t = a \<Longrightarrow> coord_inv a \<Longrightarrow> narrows (dialog_of a) (dialog_of (sapp (sys_effects og es t)))"
  using narrows_effects by blast

lemma narrows_deliver:
  "sapp t = a \<Longrightarrow> coord_inv a \<Longrightarrow> narrows (dialog_of a) (dialog_of (sapp (sys_deliver p r t)))"
  by (cases "(p, r, t)" rule: sys_deliver.cases) (auto simp: split_beta)

section \<open>Steps of the page\<close>

lemma uncovered_none: "\<not> page_covered t \<Longrightarrow> dialog_of (sapp t) = DNone"
  using app_visible_simps [of "sapp t"]
  by (auto simp: page_covered_def dialog_of_def split: option.splits)

lemma uncovered_button:
  assumes "\<not> page_covered t"
  shows "dialog_of (app_addOrg (sapp t)) = DAddingOrg" "dialog_of (app_addUser (sapp t)) = DAddingUser"
    "dialog_of (app_addLinode (sapp t)) = DAddingInstance"
  using assms app_visible_simps [of "sapp t"]
  by (auto simp: page_covered_def dialog_of_def app_addOrg_def app_addUser_def app_addLinode_def)

lemma uncovered_select:
  "\<not> page_covered t \<Longrightarrow> dialog_of (app_selectUser (sapp t) u) = DViewingUser u"
  using app_visible_simps(5) [of "sapp t"]
  by (auto simp: page_covered_def dialog_of_def app_selectUser_def)

text \<open>The step of the page seen through \<open>dialog_of\<close>: an event either opens a dialog
  from the uncovered page (a tap), or narrows the dialog state (every handler, reply,
  timer and close callback).\<close>

lemma sys_step_dialog:
  assumes "sys_step t e = Some t'" and "e \<noteq> Reload" and "coord_inv (sapp t)"
  shows "narrows (dialog_of (sapp t)) (dialog_of (sapp t')) \<or>
         (\<exists>b. e = Tap b \<and> \<not> page_covered t \<and> \<not> app_buttonDisabled (sapp t) b \<and>
              sapp t' = app_button (sapp t) b) \<or>
         (\<exists>u. e = TapUser u \<and> \<not> page_covered t \<and> sapp t' = app_selectUser (sapp t) u)"
  using assms
proof (induction t e rule: sys_step.induct)
  case (3 t d a)
  then show ?case by (auto split: option.splits)
next
  case (13 t k r)
  then show ?case by (auto intro: narrows_deliver split: if_splits)
qed (auto simp: split_beta split: option.splits if_splits)

lemma coord_step_sys:
  assumes "sys_step t e = Some t'" and "e \<noteq> Reload" and "coord_inv (sapp t)"
  shows "coord_step (dialog_of (sapp t)) (dialog_of (sapp t'))"
  using sys_step_dialog [OF assms]
proof (elim disjE exE conjE)
  fix b assume "\<not> page_covered t" "sapp t' = app_button (sapp t) b"
  then show ?thesis
    by (cases b) (simp_all add: uncovered_none uncovered_button cs_openCreate)
next
  fix u assume "\<not> page_covered t" "sapp t' = app_selectUser (sapp t) u"
  then show ?thesis by (simp add: uncovered_none uncovered_select cs_selectUser)
qed (rule narrows_coord_step)

section \<open>Properties\<close>

text \<open>C4. Refinement of the spec's coordinator: in every reachable state, every event
  of the page but a full reload moves the dialog state App's fields encode along a
  transition of the spec's \<open>DialogState\<close> machine (open from none, close to none,
  report an error, or stay).\<close>

theorem reach_coord_step:
  "reach t \<Longrightarrow> sys_step t e = Some t' \<Longrightarrow> e \<noteq> Reload \<Longrightarrow>
     coord_step (dialog_of (sapp t)) (dialog_of (sapp t'))"
  using coord_step_sys coord_inv_reach by blast

text \<open>C5. \<open>openCreate\<close> refuses the organisation-dependent dialogs while the
  snapshot has no organisation: a step that enters \<open>addingUser\<close> or \<open>addingInstance\<close>
  starts from a state whose \<open>orgsExist\<close> holds.\<close>

theorem reach_open_user_needs_orgs:
  assumes "reach t" and "sys_step t e = Some t'" and "e \<noteq> Reload"
    and "dialog_of (sapp t') \<in> {DAddingUser, DAddingInstance}" and "dialog_of (sapp t') \<noteq> dialog_of (sapp t)"
  shows "app_orgsExist (sapp t)"
proof -
  have "coord_inv (sapp t)" using assms(1) by (rule coord_inv_reach)
  from sys_step_dialog [OF assms(2,3) this] assms(4,5) show ?thesis
  proof (elim disjE exE conjE)
    fix b assume "\<not> page_covered t" "\<not> app_buttonDisabled (sapp t) b" "sapp t' = app_button (sapp t) b"
    with assms(4) show ?thesis by (cases b) (simp_all add: uncovered_button)
  next
    fix u assume "\<not> page_covered t" "sapp t' = app_selectUser (sapp t) u"
    with assms(4) show ?thesis by (simp add: uncovered_select)
  qed (auto simp: narrows_def)
qed

end
