(* ===== verification/UserDialog.thy ===== *)
theory UserDialog
  imports Requests Wellformed
begin

text \<open>
  The user dialog of \<open>App.js\<close> and its body \<open>components/UserDetails.js\<close> across
  the whole page. \<open>zero_quiet t\<close>: when the dialog shows the user \<open>0\<close>, its mounted
  UserDetails instance holds no user and has no request in flight. Every step keeps it
  (\<open>zero_quiet_step\<close>, together with the well-formedness \<open>sys_wf\<close> of theory
  Wellformed): the only event that selects a user is a tap on a link of the uncovered
  page, where no UserDetails is mounted, so the dialog's body is mounted afresh, with a
  fresh instance id that no request in flight names, and for the id \<open>0\<close> its
  \<open>componentWillMount\<close> sends nothing; a reply reaches the instance only through a
  request it sent.
\<close>

text \<open>The user dialog showing the user \<open>0\<close> is quiet.\<close>

definition zero_quiet :: "sys \<Rightarrow> bool" where
  "zero_quiet t \<longleftrightarrow> (\<forall>i. mounted t DlgUserDetails = Some i \<longrightarrow> selectedUserId (sapp t) = Some 0 \<longrightarrow>
     udt_user (detail_view t i) = None \<and> (\<forall>q. (ODetails i, q) \<notin> set (pending t)))"

lemma zero_quiet_send:
  "zero_quiet t \<Longrightarrow> (\<And>j. og \<noteq> ODetails j) \<Longrightarrow> zero_quiet (sys_send og r t)"
  by (auto simp: zero_quiet_def sys_send_def detail_view_def)

lemma zero_quiet_fields [simp]:
  "zero_quiet (t\<lparr>timers := ts\<rparr>) = zero_quiet t"
  "zero_quiet (set_org_form i s t) = zero_quiet t"
  "zero_quiet (set_user_form i u t) = zero_quiet t"
  "zero_quiet (set_linode_form i l t) = zero_quiet t"
  by (simp_all add: zero_quiet_def detail_view_def set_org_form_def set_user_form_def set_linode_form_def)

lemma zero_quiet_remove: "zero_quiet t \<Longrightarrow> zero_quiet (t\<lparr>pending := remove_nth k (pending t)\<rparr>)"
  using set_remove_nth [of k "pending t"] by (auto simp: zero_quiet_def detail_view_def)

section \<open>Preservation\<close>

text \<open>Re-rendering after a \<open>setState\<close>: the user dialog's body keeps its instance, is
  unmounted, or is mounted afresh; a fresh UserDetails for the id \<open>0\<close> sends nothing.\<close>

lemma reconcile1_other:
  "d \<noteq> DlgUserDetails \<Longrightarrow>
     mounted (sys_reconcile1 t d) DlgUserDetails = mounted t DlgUserDetails
   \<and> detailViews (sys_reconcile1 t d) = detailViews t \<and> pending (sys_reconcile1 t d) = pending t
   \<and> sapp (sys_reconcile1 t d) = sapp t"
  by (cases d) (auto simp: sys_reconcile1_def sys_mount_def Let_def)

lemma zero_quiet_reconcile_others:
  "zero_quiet t \<Longrightarrow> DlgUserDetails \<notin> set ds \<Longrightarrow> zero_quiet (foldl sys_reconcile1 t ds)"
proof (induction ds arbitrary: t)
  case (Cons d ds)
  then have "zero_quiet (sys_reconcile1 t d)"
    using reconcile1_other [of d t] by (auto simp: zero_quiet_def detail_view_def)
  with Cons show ?case by simp
qed simp

lemma no_pending_fresh: "heap_ok t \<Longrightarrow> (ODetails (nextId t), q) \<notin> set (pending t)"
  by (fastforce simp: heap_ok_def)

lemma zero_quiet_reconcile_details:
  assumes z: "zero_quiet t" and h: "heap_ok t"
  shows "zero_quiet (sys_reconcile1 t DlgUserDetails)"
proof (cases "md_visible (app_modal (sapp t) DlgUserDetails) \<and> mounted t DlgUserDetails = None")
  case True
  have "(ODetails (nextId t), q) \<notin> set (pending t)" for q using no_pending_fresh [OF h] .
  with True show ?thesis
    by (auto simp: sys_reconcile1_def sys_mount_def Let_def zero_quiet_def detail_view_def userDetails_init_def
        userDetails_componentWillMount_def sent_requests_def sys_send_def)
next
  case False
  with z show ?thesis
    by (auto simp: sys_reconcile1_def Let_def zero_quiet_def detail_view_def)
qed

lemma zero_quiet_setApp:
  assumes z: "zero_quiet t" and h: "heap_ok t"
    and c: "selectedUserId a = Some 0 \<Longrightarrow> selectedUserId (sapp t) = Some 0 \<or> mounted t DlgUserDetails = None"
  shows "zero_quiet (sys_setApp a t)"
proof -
  have z0: "zero_quiet (t\<lparr>sapp := a\<rparr>)"
    using z c by (auto simp: zero_quiet_def detail_view_def)
  have "zero_quiet (sys_reconcile1 (t\<lparr>sapp := a\<rparr>) DlgUserDetails)"
    using zero_quiet_reconcile_details [OF z0] h by simp
  then have "zero_quiet (foldl sys_reconcile1 (sys_reconcile1 (t\<lparr>sapp := a\<rparr>) DlgUserDetails)
                          [DlgAddOrg, DlgAddUser, DlgAddLinode])"
    by (rule zero_quiet_reconcile_others) simp
  then show ?thesis
    by (simp only: sys_setApp_def sys_reconcile_def body_dialogs_def foldl_Cons)
qed

lemma sys_effects_Cons_one: "sys_effects og (f # es) t = sys_effects og es (sys_effects og [f] t)"
  by (cases f) (simp_all add: split_beta split: origin.splits)

lemma selected_closeReload [simp]: "selectedUserId (fst (app_closeReload a x)) = selectedUserId a"
  by (simp add: app_closeReload_def)

lemma zero_quiet_effect:
  assumes z: "zero_quiet t" and w: "sys_wf t"
    and q: "\<And>j. og = ODetails j \<Longrightarrow> sent_requests [f] = []"
  shows "zero_quiet (sys_effects og [f] t)"
proof (cases f)
  case (Send r)
  with q have "og \<noteq> ODetails j" for j by (auto simp: sent_requests_def)
  with z Send show ?thesis by (simp add: zero_quiet_send)
next
  case (Report e m)
  have "zero_quiet (sys_setApp (app_setError (sapp t) e m) t)"
    using z w by (intro zero_quiet_setApp) (simp_all add: sys_wf_def)
  with Report show ?thesis by simp
next
  case CloseReload
  have "zero_quiet (sys_setApp (fst (app_closeReload (sapp t) (close_action og))) t)"
    using z w by (intro zero_quiet_setApp) (simp_all add: sys_wf_def)
  with CloseReload show ?thesis by (simp add: split_beta zero_quiet_send)
next
  case Debounce
  with z show ?thesis by (cases og) simp_all
qed

lemma zero_quiet_effects:
  "zero_quiet t \<Longrightarrow> sys_wf t \<Longrightarrow> origin_ok t og \<Longrightarrow> (\<And>j. og = ODetails j \<Longrightarrow> sent_requests es = []) \<Longrightarrow>
     zero_quiet (sys_effects og es t)"
proof (induction es arbitrary: t)
  case (Cons f es)
  have q1: "sent_requests [f] = []" and q2: "sent_requests es = []" if "og = ODetails j" for j
    using Cons.prems(4) [OF that] by (cases f; simp add: sent_requests_def)+
  have z1: "zero_quiet (sys_effects og [f] t)"
    using Cons.prems(1,2) q1 by (rule zero_quiet_effect)
  from wf_effects [OF Cons.prems(2,3), of "[f]"]
  have w1: "sys_wf (sys_effects og [f] t)" and o1: "origin_ok (sys_effects og [f] t) og"
    using grows_ok Cons.prems(3) by blast+
  show ?case
    by (subst sys_effects_Cons_one) (rule Cons.IH [OF z1 w1 o1 q2])
qed simp

lemma selected_onReply: "selectedUserId (app_onReply a q r) = selectedUserId a \<or> selectedUserId (app_onReply a q r) = None"
  by (cases "(a, q, r)" rule: app_onReply.cases) simp_all

lemma selected_close: "selectedUserId (app_close a c) = selectedUserId a \<or> selectedUserId (app_close a c) = None"
  by (cases c) (simp_all add: app_unselectUser_def)

lemma zero_quiet_set_detail:
  "zero_quiet t \<Longrightarrow> (mounted t DlgUserDetails = Some j \<Longrightarrow> selectedUserId (sapp t) \<noteq> Some 0) \<Longrightarrow>
     zero_quiet (set_detail_view j v t)"
  by (auto simp: zero_quiet_def set_detail_view_def detail_view_def)

lemma zero_quiet_deliver:
  assumes z: "zero_quiet t" and w: "sys_wf t" and ok: "origin_ok t (fst p)"
    and c: "\<And>j. fst p = ODetails j \<Longrightarrow> mounted t DlgUserDetails = Some j \<Longrightarrow> selectedUserId (sapp t) \<noteq> Some 0"
  shows "zero_quiet (sys_deliver p r t)"
proof (cases "(p, r, t)" rule: sys_deliver.cases)
  case (1 q r' t')
  have "zero_quiet (sys_setApp (app_onReply (sapp t) q r) t)"
    using z w selected_onReply [of "sapp t" q r] by (intro zero_quiet_setApp) (auto simp: sys_wf_def)
  with 1 show ?thesis by simp
next
  case (2 i q r' t')
  let ?x = "addOrg_onReply (org_form t i) q r"
  note s = wf_set_forms(1) [OF w, of i "fst ?x"]
  have o: "origin_ok (set_org_form i (fst ?x) t) (OOrg i)" by (rule grows_ok [OF conjunct2 [OF s]]) (use ok 2 in simp)
  from 2 have eq: "sys_deliver p r t = sys_effects (OOrg i) (snd ?x) (set_org_form i (fst ?x) t)"
    by (simp add: split_beta)
  show ?thesis unfolding eq by (rule zero_quiet_effects) (use z s o in simp_all)
next
  case (3 i q r' t')
  let ?x = "addUser_onReply (user_form t i) q r"
  note s = wf_set_forms(2) [OF w, of i "fst ?x"]
  have o: "origin_ok (set_user_form i (fst ?x) t) (OUser i)" by (rule grows_ok [OF conjunct2 [OF s]]) (use ok 3 in simp)
  from 3 have eq: "sys_deliver p r t = sys_effects (OUser i) (snd ?x) (set_user_form i (fst ?x) t)"
    by (simp add: split_beta)
  show ?thesis unfolding eq by (rule zero_quiet_effects) (use z s o in simp_all)
next
  case (4 i q r' t')
  let ?x = "addLinode_onReply (linode_form t i) q r"
  note s = wf_set_forms(3) [OF w, of i "fst ?x"]
  have o: "origin_ok (set_linode_form i (fst ?x) t) (OLinode i)" by (rule grows_ok [OF conjunct2 [OF s]]) (use ok 4 in simp)
  from 4 have eq: "sys_deliver p r t = sys_effects (OLinode i) (snd ?x) (set_linode_form i (fst ?x) t)"
    by (simp add: split_beta)
  show ?thesis unfolding eq by (rule zero_quiet_effects) (use z s o in simp_all)
next
  case (5 i q r' t')
  let ?x = "userDetails_onReply (detail_view t i) q r"
  note s = wf_set_forms(4) [OF w, of i "fst ?x"]
  have o: "origin_ok (set_detail_view i (fst ?x) t) (ODetails i)" by (rule grows_ok [OF conjunct2 [OF s]]) (use ok 5 in simp)
  have z1: "zero_quiet (set_detail_view i (fst ?x) t)"
    using 5 by (intro zero_quiet_set_detail [OF z] c) simp_all
  from 5 have eq: "sys_deliver p r t = sys_effects (ODetails i) (snd ?x) (set_detail_view i (fst ?x) t)"
    by (simp add: split_beta)
  show ?thesis unfolding eq by (rule zero_quiet_effects) (use z1 s o in \<open>simp_all add: onReply_sends_nothing\<close>)
qed

lemma uncovered_unmounted:
  "sys_wf t \<Longrightarrow> \<not> page_covered t \<Longrightarrow> mounted t DlgUserDetails = None"
  using app_visible_simps(1) [of "sapp t"]
  by (auto simp: sys_wf_def mounts_shown_def body_dialogs_def page_covered_def)

lemma zero_quiet_form_effects:
  assumes "sys_wf t" and "mounted t d = Some i" and "d \<in> {DlgAddOrg, DlgAddUser, DlgAddLinode}"
    and "sys_wf t1 \<and> grows t t1" and "zero_quiet t1"
  shows "zero_quiet (sys_effects (body_origin d i) es t1)"
proof -
  have "origin_ok t1 (body_origin d i)" using wf_mounted_ok [OF assms(1,2)] assms(4) by (blast intro: grows_ok)
  with assms(3,4,5) show ?thesis by (intro zero_quiet_effects) auto
qed

lemma zero_quiet_step:
  "sys_step t e = Some t' \<Longrightarrow> sys_wf t \<Longrightarrow> zero_quiet t \<Longrightarrow> zero_quiet t'"
proof (induction t e rule: sys_step.induct)
  case (1 t b)
  have "zero_quiet (sys_setApp (app_button (sapp t) b) t)"
    using 1 by (intro zero_quiet_setApp) (cases b; simp_all add: sys_wf_def handler_defs)+
  with 1 show ?case by (auto split: if_splits)
next
  case (2 t uid)
  have "zero_quiet (sys_setApp (app_selectUser (sapp t) uid) t)"
    using 2 uncovered_unmounted [of t] by (intro zero_quiet_setApp) (auto simp: sys_wf_def split: if_splits)
  with 2 show ?case by (auto split: if_splits)
next
  case (3 t d a)
  then obtain cb where "t' = sys_setApp (app_close (sapp t) cb) t" by (auto split: option.splits)
  moreover have "zero_quiet (sys_setApp (app_close (sapp t) cb) t)"
    using 3 selected_close [of "sapp t" cb] by (intro zero_quiet_setApp) (auto simp: sys_wf_def)
  ultimately show ?case by simp
next
  case (13 t k r)
  let ?t0 = "t\<lparr>pending := remove_nth k (pending t)\<rparr>"
  from 13 have k: "k < length (pending t)"
    and t': "t' = sys_deliver (pending t ! k) r ?t0" by (auto split: if_splits)
  from wf_settle [OF 13(2) k] have w0: "sys_wf ?t0" "origin_ok ?t0 (fst (pending t ! k))" by simp_all
  have "(ODetails j, snd (pending t ! k)) \<in> set (pending t)" if "fst (pending t ! k) = ODetails j" for j
    using nth_mem [OF k] that by (metis prod.collapse)
  with 13(3) have "selectedUserId (sapp ?t0) \<noteq> Some 0"
    if "fst (pending t ! k) = ODetails j" "mounted ?t0 DlgUserDetails = Some j" for j
    using that by (auto simp: zero_quiet_def)
  with zero_quiet_deliver [OF zero_quiet_remove [OF 13(3)] w0] t' show ?case by blast
next
  case (14 t)
  then show ?case by (auto simp: zero_quiet_def sys_eval)
next
  case (12 t i)
  then have t': "t' = sys_effects (OOrg i) (addOrg_checkValidity (org_form t i)) (t\<lparr>timers := remove1 i (timers t)\<rparr>)"
    and m: "i \<in> set (timers t)" by (auto split: if_splits)
  from wf_timer_fire [OF 12(2) m] 12(3) show ?case
    unfolding t' by (intro zero_quiet_effects) simp_all
next
  case (4 t v)
  then obtain i where m: "mounted t DlgAddOrg = Some i"
    and t': "t' = sys_effects (body_origin DlgAddOrg i) (snd (addOrg_update (org_form t i) v)) (set_org_form i (fst (addOrg_update (org_form t i) v)) t)"
    by (auto split: option.splits simp: split_beta)
  show ?case unfolding t'
    by (rule zero_quiet_form_effects [OF 4(2) m _ wf_set_forms(1) [OF 4(2)]]) (simp_all add: 4(3))
next
  case (6 t v)
  then obtain i where m: "mounted t DlgAddUser = Some i"
    and t': "t' = sys_effects (body_origin DlgAddUser i) (snd (addUser_updateEmail (user_form t i) v)) (set_user_form i (fst (addUser_updateEmail (user_form t i) v)) t)"
    by (auto split: option.splits simp: split_beta)
  show ?case unfolding t'
    by (rule zero_quiet_form_effects [OF 6(2) m _ wf_set_forms(2) [OF 6(2)]]) (simp_all add: 6(3))
next
  case (9 t v)
  then obtain i where m: "mounted t DlgAddLinode = Some i"
    and t': "t' = sys_effects (body_origin DlgAddLinode i) (snd (addLinode_updateName (linode_form t i) v)) (set_linode_form i (fst (addLinode_updateName (linode_form t i) v)) t)"
    by (auto split: option.splits simp: split_beta)
  show ?case unfolding t'
    by (rule zero_quiet_form_effects [OF 9(2) m _ wf_set_forms(3) [OF 9(2)]]) (simp_all add: 9(3))
next
  case (5 t)
  then obtain i where m: "mounted t DlgAddOrg = Some i"
    and t': "t' = sys_effects (body_origin DlgAddOrg i) (addOrg_submit (org_form t i)) t"
    by (auto split: option.splits if_splits)
  show ?case unfolding t'
    by (rule zero_quiet_form_effects [OF 5(2) m _ _ 5(3)]) (simp_all add: 5(2))
next
  case (8 t)
  then obtain i where m: "mounted t DlgAddUser = Some i"
    and t': "t' = sys_effects (body_origin DlgAddUser i) (addUser_submit (user_form t i)) t"
    by (auto split: option.splits if_splits)
  show ?case unfolding t'
    by (rule zero_quiet_form_effects [OF 8(2) m _ _ 8(3)]) (simp_all add: 8(2))
next
  case (11 t)
  then obtain i where m: "mounted t DlgAddLinode = Some i"
    and t': "t' = sys_effects (body_origin DlgAddLinode i) (addLinode_submit (linode_form t i)) t"
    by (auto split: option.splits if_splits)
  show ?case unfolding t'
    by (rule zero_quiet_form_effects [OF 11(2) m _ _ 11(3)]) (simp_all add: 11(2))
qed (auto split: option.splits if_splits)

lemma zero_quiet_reach: "reach t \<Longrightarrow> zero_quiet t"
proof -
  assume "reach t"
  then have "sys_wf t \<and> zero_quiet t"
  proof (induction rule: reach.induct)
    case reach_init
    have "zero_quiet sys_init" by (simp add: zero_quiet_def sys_eval)
    with wf_init show ?case by blast
  next
    case (reach_step t e t')
    then show ?case by (blast intro: wf_step zero_quiet_step)
  qed
  then show ?thesis by simp
qed

section \<open>Properties\<close>

text \<open>C20. The user with id \<open>0\<close> is never loaded: in every reachable state where the
  user dialog shows that user, its UserDetails instance has no user and nothing in
  flight, so it renders \<open>Loading...\<close> and no later reply can change that while the dialog
  stays open. \<open>componentWillMount\<close> skips the fetch because \<open>!userId\<close> holds of \<open>0\<close>
  (\<open>UserDetails.js\<close> line 22).\<close>

theorem reach_user_zero_loading:
  "reach t \<Longrightarrow> mounted t DlgUserDetails = Some i \<Longrightarrow> selectedUserId (sapp t) = Some 0 \<Longrightarrow>
     userDetails_view (detail_view t i) = DetailsLoading \<and> (\<forall>q. (ODetails i, q) \<notin> set (pending t))"
  using zero_quiet_reach [of t] by (simp add: zero_quiet_def userDetails_view_def)

end
