(* ===== verification/Spec2Isabelle.thy ===== *)
theory Spec2Isabelle
  imports Requests Validation Progress Shell Coordinator Server UserDialog
begin

text \<open>
  \<^bold>\<open>A verification model of the org_demo web console\<close> (\<open>src/web/src\<close>).

  \<^bold>\<open>The program.\<close> A React single-page console over three entity kinds
  (organisations, users, linodes). \<open>App.js\<close> (class \<open>App\<close>) owns the snapshot of
  all organisations, the selected user, one flag per creation dialog and the error flag
  \<open>broke\<close>; it renders five dialogs through \<open>components/MyModal.js\<close>. The bodies of
  three dialogs are the creation forms \<open>components/AddOrg.js\<close>,
  \<open>components/AddUser.js\<close>, \<open>components/AddLinode.js\<close>; the fourth shows
  \<open>components/UserDetails.js\<close>; the list of organisations is rendered by
  \<open>components/OrgDetails.js\<close>. The forms check the uniqueness of their identifier with
  \<open>GET /api/exists/...\<close> (AddOrg through a 250ms lodash debounce, the others on every
  keystroke), submit with \<open>POST /api/create/...\<close>, and call the App's \<open>closeReload\<close>
  on success and its \<open>setError\<close> on any failure. \<open>index.js\<close> and
  \<open>components/Header.js\<close> are the routing and navigation shell.

  \<^bold>\<open>The theories.\<close>
  \<^item> \<open>Prelude\<close>: the \<open>handler_defs\<close> and \<open>view_defs\<close> collections; JavaScript
    values the code relies on: \<open>parseInt(s, 10)\<close> (\<open>parse_int10\<close>, an integer or
    \<open>NaN\<close>, after leading white space and a sign), \<open>String(n)\<close>
    (\<open>int_to_string\<close>: decimal digits below \<open>10^21\<close>, exponent notation
    \<open>d.ddde+k\<close> from there on, as ECMAScript's Number::toString), truthiness of an id;
    the round trip \<open>parse_int10 (int_to_string i) = Num i\<close>, which holds exactly when
    \<open>|i| < 10^21\<close> (\<open>parseInt\<close> stops at the \<open>.\<close> of the exponent form).
  \<^item> \<open>Interface\<close>: the JSON shapes of the snapshot (records \<open>org\<close>, \<open>user_ref\<close>,
    \<open>linode_ref\<close>, \<open>user_detail\<close>), the routes (\<open>request\<close>, \<open>request_url\<close>), replies
    and failures (\<open>outcome = failure + reply\<close>), the \<open>effect\<close>s a component hands
    to its environment (\<open>Send\<close> a request, \<open>Report\<close> = \<open>setError\<close>,
    \<open>CloseReload\<close>, \<open>Debounce\<close>), and the form vocabulary shared by the three forms.
  \<^item> \<open>AddOrg\<close>, \<open>AddUser\<close>, \<open>AddLinode\<close>: one record per form state
    (\<open>name/email\<close>, \<open>orgIds/orgId\<close>, \<open>submitting\<close>, \<open>valid\<close>) and one function per
    method: \<open>update*\<close>, \<open>checkValidity\<close>, \<open>submit\<close>, \<open>updateOrg\<close> (the loops over the
    \<open>option\<close> elements as recursive functions), \<open>getValidationState\<close>, the disabled
    test of the submit button, and \<open>*_onReply\<close> holding the \<open>then\<close>/\<open>catch\<close>
    callbacks of each request. Handlers return \<open>(new state, effects)\<close>.
  \<^item> \<open>Modal\<close>: MyModal's props as a record over the caller's close callback and
    \<open>modal_request\<close>, which callback a user action reaches.
  \<^item> \<open>Details\<close>: OrgDetails' user links, UserDetails' mount-time fetch, reply handler,
    the loop \<open>getOrgNameById\<close> and its view.
  \<^item> \<open>App\<close>: record \<open>app\<close> and the methods \<open>fetchOrgs\<close>, \<open>selectUser\<close>,
    \<open>unselectUser\<close>, \<open>setError\<close>, \<open>closeReload\<close>, \<open>addOrg/addUser/addLinode\<close>;
    what \<open>render\<close> decides (disabled buttons, the five dialogs' props and close
    callbacks).
  \<^item> \<open>System\<close>: the running page. State \<open>sys\<close>: the App, stores of every form and
    detail instance ever mounted (the heap objects), which instance each dialog shows,
    the requests in flight in issue order (\<open>pending\<close>), the armed debounce timers, and
    the log \<open>sent\<close> of every request issued. \<open>sys_step\<close> runs one event (a tap, a
    keystroke, a selection, a submission, a debounce timer firing, the settling of any
    in-flight request with any reply that fits its route, a page reload) to completion,
    as the event loop does; \<open>None\<close> is an event the page does not offer (a control
    that is not rendered, a page covered by a dialog's backdrop). \<open>reach\<close> is the
    inductive set of reachable states. \<open>app_orgList\<close> is the list of OrgDetails under
    the buttons.
  \<^item> \<open>Requests\<close>: the log of issued requests (\<open>sends_only\<close>: which events may issue
    which requests), the forms' \<open>submitting\<close> flags, the route invariant
    \<open>routes_ok\<close> (\<open>route_of\<close>: which requests each origin issues), and the
    consequences of the unsequenced checks and of the missing single-flight guard.
  \<^item> \<open>Wellformed\<close>: the well-formedness \<open>sys_wf\<close> of the running page (every instance
    reference allocated, dialog bodies mounted exactly while shown, fresh ids) and its
    preservation by every operation.
  \<^item> \<open>Progress\<close>: the load \<open>sys_load\<close> of outstanding background work, the settling
    strategy \<open>settle\<close> and the bound on runs of replies and timer firings.
  \<^item> \<open>Shell\<close>: the routing shell of \<open>index.js\<close> and \<open>Header.js\<close>.
  \<^item> \<open>Validation\<close>: one checked field in isolation. \<open>field_step\<close> drives the real
    AddUser handlers over the list of checks in flight, any of which may be answered
    next; \<open>seq_step\<close> is the sequenced checker the spec requires (section 4.1): checks
    tagged with a generation, only the latest generation's reply sets the verdict. The
    simulation \<open>sim\<close> relates the two. \<open>linode_field_step\<close> runs the AddLinode name
    field on its handlers; \<open>org_field_step\<close> runs the debounced AddOrg field, with the
    lodash timer as a flag.
  \<^item> \<open>Coordinator\<close>: the spec's \<open>DialogState\<close> (section 3) as a datatype with the
    transition relation \<open>coord_step\<close> of section 4.4 (open from none, close to none,
    report an error), and the abstraction \<open>dialog_of\<close> that reads it off App's five
    fields, the error flag first.
  \<^item> \<open>Server\<close>: the remote service of section 6 (not in the repository): a state of
    organisations with their users and linodes, one answer per route; and the page
    closed with it (\<open>world_step\<close>: user events, and the server answering any request
    in flight), with the invariant \<open>snapshot_fresh\<close>: App's snapshot is the server's
    list of organisations unless a reload is in flight or the page is broken.
  \<^item> \<open>UserDialog\<close>: the invariant \<open>zero_quiet\<close> of the user dialog: while the
    selected user id is \<open>0\<close>, the shown UserDetails instance has no user and nothing
    in flight.
  \<^item> \<open>Spec2Isabelle\<close> (this theory): concrete runs of the whole page that apply
    the properties at concrete states, the reload behaviour of \<open>closeReload\<close> and of
    the close callbacks, and example runs of the spec's scenarios (section 8) and of the
    behaviours the findings describe.

  \<^bold>\<open>Modelling decisions.\<close> Asynchrony is explicit: a request is issued by one
  event and answered by a later \<open>Deliver\<close> event, and any in-flight request may be
  answered next, so responses may overtake each other. React ignores \<open>setState\<close> on an
  unmounted component but runs the rest of its callbacks; the model does the same. The
  DOM's part is modelled where the code relies on it: a disabled button does nothing, a
  disabled submit button blocks its form's submission, a dialog's backdrop covers the
  page. The 250ms debounce window is a timer that can fire at any time after it was
  armed: only the order of keystrokes, firings and replies matters to the code. Every
  function of the code is structurally recursive and the system is a step function over
  events. The only fuel is that of \<open>settle\<close>, the environment's strategy for
  answering requests; \<open>sys_load t\<close> units are enough, since every background event
  lowers the load by at least one (C12, C13).

  \<^bold>\<open>What is shown.\<close>
  \<^item> Invariants of the page (System, Coordinator): the error flag, once set, survives
    every event but a reload (C1); in every reachable state at most one dialog is shown
    (C2), and while \<open>broke\<close> is set the error dialog is the only one (C3). The
    coordinator refines the spec's dialog state machine: every event but a reload moves
    \<open>dialog_of\<close> along \<open>coord_step\<close> (C4), and entering \<open>addingUser\<close> or
    \<open>addingInstance\<close> needs an organisation in the snapshot (C5). The proofs carry
    \<open>coord_inv\<close> (C2 and C3 together).
  \<^item> Requests (Requests): a creation request is only ever issued by a submission of the
    shown form whose verdict is \<open>'yes'\<close>, and carries that form's value (C6, a frame
    argument over every event); no reachable state has a creation form with
    \<open>submitting\<close> set (C7); every request in flight is on its origin's route (C8).
  \<^item> Validation (Validation): with replies in issue order and all checks settled, the user
    field refines the sequenced checker of the spec (C9); the debounced organisation field
    settles on the right verdict for a non-empty name (C10); the linode field is the user
    field's engine (C11).
  \<^item> Progress (Progress): from every reachable state the page comes to rest whatever the
    server answers (C12), and background activity alone terminates within
    \<open>sys_load\<close> events (C13).
  \<^item> Against the server (Server): every state of the closed loop is a reachable page
    state (\<open>world_reach_reach\<close>), and at rest App's snapshot is exactly the server's
    list of organisations (C14).
  \<^item> Reloads (this theory): a successful creation reply reloads the snapshot exactly
    once (C15), a dismissal reloads nothing (C16).
  \<^item> What the code allows against the spec (Requests, UserDialog): the user form takes
    a stale existence answer as the verdict of its current email and submits it (C17);
    the organisation form creates an organisation with the empty name after a stale
    answer (C18); submissions are not single-flight (C19); the user with id \<open>0\<close>
    stays on \<open>Loading...\<close> with nothing in flight (C20).
  \<^item> Components: the organisation selector of AddUser reads back through
    \<open>parseInt\<close> exactly the ids \<open>String\<close> wrote iff they are below \<open>10^21\<close>
    (C21), and its selected placeholder yields \<open>NaN\<close> (C22); a pending check renders
    as \<open>'success'\<close> in AddOrg (C23); the loops \<open>getOrgNameById\<close> and AddLinode's
    \<open>updateOrg\<close> equal list searches (C24, C25).
  \<^item> Further lemmas, not numbered: every reachable state is well-formed
    (\<open>reach_heap_typed\<close>) and its armed timers are at most \<open>nextId\<close>
    (\<open>reach_timers_bounded\<close>); MyModal's \<open>onHide\<close> reaches the callback of a
    non-closeable dialog (\<open>modal_request_not_closeable\<close>); the example runs of this
    theory (scenarios A, B and C of the spec, the stale verdicts, the double submission, a
    late reply closing a newer dialog, a closed form still checking, the linode name input,
    the last fatal message winning, a created organisation reported taken after reload).

  \<^bold>\<open>Not modelled.\<close> Styling and layout (\<open>styles.js\<close>, inline styles); the
  tap-event plugin (a tap is an event of the model); PropTypes declarations, which only
  log warnings; the server's implementation beyond the contract of spec section 6 (in
  System its answers are the environment's choice, any answer that fits the route; the
  server of theory Server is one such environment, with representative failure codes);
  the DOM state of the select elements (a selection is any list of flags the user can
  produce); the wall-clock length of the debounce window.
\<close>

section \<open>Concrete data and runs\<close>

definition org_acme :: org where
  "org_acme = \<lparr>org_id = 1, org_name = ''acme'', org_users = [], org_linodes = []\<rparr>"

definition run_fetch_failed :: "event list" where
  "run_fetch_failed = [Deliver 0 (Inl NetworkError)]"

definition org_zero :: org where
  "org_zero = \<lparr>org_id = 1, org_name = ''acme'', org_users = [\<lparr>uref_id = 0, uref_email = ''root@acme''\<rparr>],
     org_linodes = []\<rparr>"

definition org_five :: org where
  "org_five = \<lparr>org_id = 1, org_name = ''acme'', org_users = [\<lparr>uref_id = 5, uref_email = ''e@acme''\<rparr>],
     org_linodes = []\<rparr>"

text \<open>Against the server of theory Server: the first snapshot, then \<open>acme\<close> typed, checked
  and created, the reload after the creation answered, a full reload of the page, the
  new snapshot, and \<open>acme\<close> typed and checked again.\<close>

definition run_create_reload :: "world_event list" where
  "run_create_reload = [Serve 0, UserEv (Tap BtnAddOrg), UserEv (OrgNameInput ''acme''),
     UserEv (TimerFire 0), Serve 0, UserEv SubmitOrg, Serve 0, Serve 0, UserEv Reload, Serve 0,
     UserEv (Tap BtnAddOrg), UserEv (OrgNameInput ''acme''), UserEv (TimerFire 0), Serve 0]"

section \<open>Servers used by the witnesses\<close>

text \<open>A server that accepts every request: the snapshot holds \<open>acme\<close>, every name is
  free, every creation succeeds.\<close>

fun server_ok :: "request \<Rightarrow> outcome" where
  "server_ok ReqOrgs = Inr (OrgsReply [org_acme])"
| "server_ok (ReqUser i) = Inr (UserReply \<lparr>ud_id = i, ud_email = ''a@b'', ud_orgs = [], ud_linodes = []\<rparr>)"
| "server_ok (ReqExists _ _) = Inr (ExistsReply False)"
| "server_ok (ReqCreateOrg _) = Inr CreatedReply"
| "server_ok (ReqCreateUser _ _) = Inr CreatedReply"
| "server_ok (ReqCreateLinode _ _) = Inr CreatedReply"

definition run_submit_org :: "event list" where
  "run_submit_org = [Deliver 0 (Inr (OrgsReply [])), Tap BtnAddOrg, OrgNameInput ''acme'',
     TimerFire 0, Deliver 0 (Inr (ExistsReply False)), SubmitOrg]"

definition org_one :: org where
  "org_one = \<lparr>org_id = 1, org_name = ''a'', org_users = [], org_linodes = []\<rparr>"

definition org_two :: org where
  "org_two = \<lparr>org_id = 2, org_name = ''b'', org_users = [], org_linodes = []\<rparr>"

section \<open>Witnesses of the invariants of the page\<close>

theorem sys_step_keeps_broke_witness:
  "\<exists>t t'. sys_run sys_init run_fetch_failed = Some t \<and> broke (sapp t)
     \<and> sys_step t (ModalAct DlgError Hide) = Some t' \<and> broke (sapp t')"
proof -
  obtain t where t: "sys_run sys_init run_fetch_failed = Some t" "broke (sapp t)"
    by (simp add: sys_eval run_fetch_failed_def)
  obtain t' where t': "sys_step t (ModalAct DlgError Hide) = Some t'"
    using t(2) by (simp add: modal_closeButton_def)
  have "broke (sapp t')" using sys_step_keeps_broke [OF t' _ t(2)] by simp
  with t t' show ?thesis by blast
qed

theorem reach_one_dialog_witness:
  "\<exists>t. sys_run sys_init [Deliver 0 (Inr (OrgsReply [org_acme])), Tap BtnAddUser] = Some t
     \<and> app_visible (sapp t) = [DlgAddUser] \<and> length (app_visible (sapp t)) \<le> 1"
proof -
  obtain t where t: "sys_run sys_init [Deliver 0 (Inr (OrgsReply [org_acme])), Tap BtnAddUser] = Some t"
      and v: "app_visible (sapp t) = [DlgAddUser]"
    by (simp add: sys_eval org_acme_def)
  have "reach t" using sys_run_reach [OF t reach_init] .
  then have "length (app_visible (sapp t)) \<le> 1" by (rule reach_one_dialog)
  with t v show ?thesis by blast
qed

text \<open>A failure reported while the Add User dialog is open leaves the error dialog alone.\<close>

theorem reach_error_alone_witness:
  "\<exists>t. sys_run sys_init [Deliver 0 (Inr (OrgsReply [org_acme])), Tap BtnAddUser,
        UserEmailInput ''x'', Deliver 0 (Inl NetworkError)] = Some t
     \<and> broke (sapp t) \<and> app_visible (sapp t) = [DlgError]"
proof -
  obtain t where t: "sys_run sys_init [Deliver 0 (Inr (OrgsReply [org_acme])), Tap BtnAddUser,
        UserEmailInput ''x'', Deliver 0 (Inl NetworkError)] = Some t" and b: "broke (sapp t)"
    by (simp add: sys_eval org_acme_def)
  have "reach t" using sys_run_reach [OF t reach_init] .
  from reach_error_alone [OF this b] t b show ?thesis by blast
qed

theorem reach_coord_step_witness:
  "\<exists>t t'. sys_run sys_init [Deliver 0 (Inr (OrgsReply [org_acme]))] = Some t
     \<and> sys_step t (Tap BtnAddUser) = Some t'
     \<and> dialog_of (sapp t) = DNone \<and> dialog_of (sapp t') = DAddingUser
     \<and> coord_step (dialog_of (sapp t)) (dialog_of (sapp t'))"
proof -
  obtain t t' where t: "sys_run sys_init [Deliver 0 (Inr (OrgsReply [org_acme]))] = Some t"
    and s: "sys_step t (Tap BtnAddUser) = Some t'"
    and d: "dialog_of (sapp t) = DNone" "dialog_of (sapp t') = DAddingUser"
    by (simp add: sys_eval org_acme_def dialog_of_def)
  have "reach t" using sys_run_reach [OF t reach_init] .
  from reach_coord_step [OF this s] t s d show ?thesis by blast
qed

theorem reach_open_user_needs_orgs_witness:
  "\<exists>t t'. sys_run sys_init [Deliver 0 (Inr (OrgsReply [org_acme]))] = Some t
     \<and> sys_step t (Tap BtnAddLinode) = Some t'
     \<and> dialog_of (sapp t') = DAddingInstance \<and> dialog_of (sapp t') \<noteq> dialog_of (sapp t)
     \<and> app_orgsExist (sapp t)"
proof -
  obtain t t' where t: "sys_run sys_init [Deliver 0 (Inr (OrgsReply [org_acme]))] = Some t"
    and s: "sys_step t (Tap BtnAddLinode) = Some t'"
    and d: "dialog_of (sapp t') = DAddingInstance" "dialog_of (sapp t) = DNone"
    by (simp add: sys_eval org_acme_def dialog_of_def)
  have "reach t" using sys_run_reach [OF t reach_init] .
  from reach_open_user_needs_orgs [OF this s] t s d show ?thesis by simp
qed

text \<open>Submitting the checked name \<open>acme\<close> issues its creation from the mounted form.\<close>

theorem create_only_from_submit_witness:
  "\<exists>t t'. sys_run sys_init [Deliver 0 (Inr (OrgsReply [])), Tap BtnAddOrg, OrgNameInput ''acme'',
        TimerFire 0, Deliver 0 (Inr (ExistsReply False))] = Some t
     \<and> sys_step t SubmitOrg = Some t'
     \<and> (\<exists>i. mounted t DlgAddOrg = Some i \<and> ao_valid (org_form t i) = Yes
          \<and> ReqCreateOrg ''acme'' = ReqCreateOrg (ao_name (org_form t i)))"
proof -
  obtain t where t: "sys_run sys_init [Deliver 0 (Inr (OrgsReply [])), Tap BtnAddOrg, OrgNameInput ''acme'',
        TimerFire 0, Deliver 0 (Inr (ExistsReply False))] = Some t"
    and m: "mounted t DlgAddOrg = Some 0" "org_form t 0 = \<lparr>ao_name = ''acme'', ao_submitting = False, ao_valid = Yes\<rparr>"
    by (simp add: sys_eval)
  obtain t' where t': "sys_step t SubmitOrg = Some t'"
    and new: "ReqCreateOrg ''acme'' \<in> set (drop (length (sent t)) (sent t'))"
    using m by (simp add: sys_eval)
  from create_only_from_submit [OF t' new] t t' show ?thesis by auto
qed

theorem reach_never_submitting_witness:
  "\<exists>t. sys_run sys_init [Deliver 0 (Inr (OrgsReply [])), Tap BtnAddOrg, OrgNameInput ''acme''] = Some t
     \<and> mounted t DlgAddOrg = Some 0 \<and> \<not> ao_submitting (org_form t 0)"
proof -
  obtain t where t: "sys_run sys_init [Deliver 0 (Inr (OrgsReply [])), Tap BtnAddOrg, OrgNameInput ''acme''] = Some t"
      and m: "mounted t DlgAddOrg = Some 0"
    by (simp add: sys_eval)
  have "reach t" using sys_run_reach [OF t reach_init] .
  then have "\<not> ao_submitting (org_form t 0)" by (simp add: reach_never_submitting)
  with t m show ?thesis by blast
qed

text \<open>The check the user form sends for \<open>a\<close> travels on the user route.\<close>

theorem reach_request_routes_witness:
  "\<exists>t. sys_run sys_init [Deliver 0 (Inr (OrgsReply [org_acme])), Tap BtnAddUser,
        UserEmailInput ''a''] = Some t
     \<and> (OUser 0, ReqExists ''user'' ''a'') \<in> set (pending t) \<and> route_of (OUser 0) (ReqExists ''user'' ''a'')"
proof -
  obtain t where t: "sys_run sys_init [Deliver 0 (Inr (OrgsReply [org_acme])), Tap BtnAddUser,
        UserEmailInput ''a''] = Some t"
    and p: "(OUser 0, ReqExists ''user'' ''a'') \<in> set (pending t)"
    by (simp add: sys_eval org_acme_def)
  have "reach t" using sys_run_reach [OF t reach_init] .
  from reach_request_routes [OF this p] t p show ?thesis by blast
qed

section \<open>Witnesses of the properties of the forms\<close>

text \<open>Selecting the second of two organisations stores its id.\<close>

theorem addUser_updateOrg_roundtrip_witness:
  "au_orgIds (addUser_updateOrg addUser_init (org_options [org_one, org_two]) [False, False, True]) = [Num 2]"
  using addUser_updateOrg_roundtrip [of "[False, True]" "[org_one, org_two]" addUser_init]
  by (simp add: org_one_def org_two_def)

theorem addOrg_pending_shown_success_witness:
  "addOrg_getValidationState (fst (addOrg_update addOrg_init ''acme'')) = Some Success"
  using addOrg_pending_shown_success [of "''acme''" addOrg_init] by simp

text \<open>The user types \<open>a\<close>, then \<open>acme\<close>, and selects \<open>acme\<close>'s organisation; the
  answer \<open>'free'\<close> to the check for \<open>a\<close> lets \<open>acme\<close> be created.\<close>

theorem stale_check_user_submits_witness:
  "\<exists>t t' t''. sys_run sys_init [Deliver 0 (Inr (OrgsReply [org_acme])), Tap BtnAddUser,
        UserEmailInput ''a'', UserEmailInput ''acme'', UserOrgSelect [False, True]] = Some t
     \<and> pending t ! 0 = (OUser 0, ReqExists ''user'' ''a'') \<and> au_email (user_form t 0) = ''acme''
     \<and> sys_step t (Deliver 0 (Inr (ExistsReply False))) = Some t' \<and> sys_step t' SubmitUser = Some t''
     \<and> ReqCreateUser ''acme'' [Num 1] \<in> set (sent t'')"
proof -
  obtain t where t: "sys_run sys_init [Deliver 0 (Inr (OrgsReply [org_acme])), Tap BtnAddUser,
        UserEmailInput ''a'', UserEmailInput ''acme'', UserOrgSelect [False, True]] = Some t"
    and k: "0 < length (pending t)" and p: "pending t ! 0 = (OUser 0, ReqExists ''user'' ''a'')"
    and m: "mounted t DlgAddUser = Some 0" and o: "au_orgIds (user_form t 0) = [Num 1]"
    and e: "au_email (user_form t 0) = ''acme''"
    by (simp add: sys_eval org_acme_def)
  have r: "reach t" using sys_run_reach [OF t reach_init] .
  have ne: "au_orgIds (user_form t 0) \<noteq> []" using o by simp
  from stale_check_user_submits [OF r k p m ne] o e t p show ?thesis by auto
qed

text \<open>The name \<open>a\<close> is checked and erased; the answer to its check enables the
  creation of the empty name.\<close>

theorem stale_check_empty_org_name_witness:
  "\<exists>t t' t''. sys_run sys_init [Deliver 0 (Inr (OrgsReply [])), Tap BtnAddOrg, OrgNameInput ''a'',
        TimerFire 0, OrgNameInput []] = Some t
     \<and> pending t ! 0 = (OOrg 0, ReqExists ''org'' ''a'') \<and> ao_name (org_form t 0) = []
     \<and> sys_step t (Deliver 0 (Inr (ExistsReply False))) = Some t' \<and> sys_step t' SubmitOrg = Some t''
     \<and> ReqCreateOrg [] \<in> set (sent t'')"
proof -
  obtain t where t: "sys_run sys_init [Deliver 0 (Inr (OrgsReply [])), Tap BtnAddOrg, OrgNameInput ''a'',
        TimerFire 0, OrgNameInput []] = Some t"
    and k: "0 < length (pending t)" and p: "pending t ! 0 = (OOrg 0, ReqExists ''org'' ''a'')"
    and m: "mounted t DlgAddOrg = Some 0" and e: "ao_name (org_form t 0) = []"
    by (simp add: sys_eval)
  have r: "reach t" using sys_run_reach [OF t reach_init] .
  from stale_check_empty_org_name [OF r k p m e] t p e show ?thesis by auto
qed

text \<open>Once \<open>acme\<close> is checked free, two submissions post it twice.\<close>

theorem submit_org_twice_witness:
  "\<exists>t t' t''. sys_run sys_init [Deliver 0 (Inr (OrgsReply [])), Tap BtnAddOrg, OrgNameInput ''acme'',
        TimerFire 0, Deliver 0 (Inr (ExistsReply False))] = Some t
     \<and> sys_step t SubmitOrg = Some t' \<and> sys_step t' SubmitOrg = Some t''
     \<and> sent t'' = sent t @ [ReqCreateOrg ''acme'', ReqCreateOrg ''acme'']"
proof -
  obtain t t' where t: "sys_run sys_init [Deliver 0 (Inr (OrgsReply [])), Tap BtnAddOrg, OrgNameInput ''acme'',
        TimerFire 0, Deliver 0 (Inr (ExistsReply False))] = Some t"
    and s: "sys_step t SubmitOrg = Some t'" and m: "mounted t DlgAddOrg = Some 0"
    and n: "ao_name (org_form t 0) = ''acme''"
    by (simp add: sys_eval)
  from submit_org_twice [OF s] m n t s show ?thesis by auto
qed

text \<open>Tapping the link of the user \<open>0\<close> opens a dialog that stays on \<open>Loading...\<close>.\<close>

theorem reach_user_zero_loading_witness:
  "\<exists>t. sys_run sys_init [Deliver 0 (Inr (OrgsReply [org_zero])), TapUser 0] = Some t
     \<and> mounted t DlgUserDetails = Some 0 \<and> selectedUserId (sapp t) = Some 0
     \<and> userDetails_view (detail_view t 0) = DetailsLoading \<and> (\<forall>q. (ODetails 0, q) \<notin> set (pending t))"
proof -
  obtain t where t: "sys_run sys_init [Deliver 0 (Inr (OrgsReply [org_zero])), TapUser 0] = Some t"
    and m: "mounted t DlgUserDetails = Some 0" and u: "selectedUserId (sapp t) = Some 0"
    by (simp add: sys_eval org_zero_def)
  have "reach t" using sys_run_reach [OF t reach_init] .
  from reach_user_zero_loading [OF this m u] t m u show ?thesis by blast
qed

section \<open>Witnesses of progress\<close>

lemma server_ok_fits: "\<forall>q. reply_fits q (server_ok q)"
proof
  fix q show "reply_fits q (server_ok q)" by (cases q) simp_all
qed

text \<open>After submitting \<open>acme\<close>, a server that accepts everything brings the page to
  rest.\<close>

theorem reach_settles_witness:
  "\<exists>t t'. sys_run sys_init run_submit_org = Some t
     \<and> sys_run t (settle (sys_load t) server_ok t) = Some t' \<and> pending t' = [] \<and> timers t' = []"
proof -
  obtain t where t: "sys_run sys_init run_submit_org = Some t"
    by (simp add: run_submit_org_def sys_eval)
  have "reach t" using sys_run_reach [OF t reach_init] .
  from reach_settles [OF this server_ok_fits] t show ?thesis by blast
qed

text \<open>After submitting \<open>acme\<close> the load is two, and the two background events that follow
  (the creation reply, then the reply of the snapshot fetch it triggers) use it up.\<close>

theorem reach_background_terminates_witness:
  "\<exists>t t'. sys_run sys_init run_submit_org = Some t
     \<and> sys_run t [Deliver 0 (Inr CreatedReply), Deliver 0 (Inr (OrgsReply []))] = Some t'
     \<and> sys_load t = 2 \<and> length [Deliver 0 (Inr CreatedReply), Deliver 0 (Inr (OrgsReply []))] \<le> sys_load t"
proof -
  obtain t t' where t: "sys_run sys_init run_submit_org = Some t"
      and t': "sys_run t [Deliver 0 (Inr CreatedReply), Deliver 0 (Inr (OrgsReply []))] = Some t'"
      and l: "sys_load t = 2"
    by (simp add: run_submit_org_def sys_eval sys_load_def)
  have "reach t" using sys_run_reach [OF t reach_init] .
  from reach_background_terminates [OF this t'] have
    "length [Deliver 0 (Inr CreatedReply), Deliver 0 (Inr (OrgsReply []))] \<le> sys_load t"
    by simp
  with t t' l show ?thesis by blast
qed

section \<open>The page and the server\<close>


section \<open>Closing and reloading\<close>

text \<open>C15. A successful creation reply closes the dialog and reloads the snapshot exactly
  once: \<open>closeReload('addingOrg')\<close> clears the flag and calls \<open>fetchOrgs\<close>, which issues
  one \<open>GET /api/orgs\<close>, whatever the state the reply finds.\<close>

theorem create_reply_reloads_once:
  "\<not> addingOrg (sapp (sys_deliver (OOrg i, ReqCreateOrg n) (Inr CreatedReply) t))
   \<and> filter (\<lambda>r. r = ReqOrgs)
       (drop (length (sent t)) (sent (sys_deliver (OOrg i, ReqCreateOrg n) (Inr CreatedReply) t)))
     = [ReqOrgs]"
proof -
  let ?t0 = "set_org_form i (org_form t i) t"
  let ?a = "fst (app_closeReload (sapp t) ''addingOrg'')"
  have eq: "sys_deliver (OOrg i, ReqCreateOrg n) (Inr CreatedReply) t
      = sys_send OApp ReqOrgs (sys_setApp ?a ?t0)"
    by (simp add: split_beta)
  obtain rs where rs: "sent (sys_setApp ?a ?t0) = sent ?t0 @ rs" "list_all is_user_fetch rs"
    using sys_setApp_fetches [of ?t0 ?a] by (auto simp: sends_only_def)
  have "filter (\<lambda>r. r = ReqOrgs) rs = []"
    using rs(2) by (induction rs) (auto simp: is_user_fetch_def)
  with rs(1) show ?thesis unfolding eq by (simp add: app_closeReload_def)
qed

text \<open>C16. Dismissing a creation dialog (the header or footer Close button, Escape or a
  click on the backdrop) closes it without reloading the snapshot: \<open>closeAddOrg\<close> and its
  siblings only set their flag, so the step issues no \<open>GET /api/orgs\<close>.\<close>

theorem dismiss_add_dialog_no_reload:
  "d \<in> {DlgAddOrg, DlgAddUser, DlgAddLinode} \<Longrightarrow> sys_step t (ModalAct d a) = Some t' \<Longrightarrow>
   d \<notin> set (app_visible (sapp t')) \<and> ReqOrgs \<notin> set (drop (length (sent t)) (sent t'))"
proof -
  assume d: "d \<in> {DlgAddOrg, DlgAddUser, DlgAddLinode}" and st: "sys_step t (ModalAct d a) = Some t'"
  then obtain cb where cb: "modal_request (app_modal (sapp t) d) a = Some cb"
    and t': "t' = sys_setApp (app_close (sapp t) cb) t"
    by (auto split: option.splits)
  from modal_request_Some [OF cb] have "cb = md_close (app_modal (sapp t) d)" by simp
  with d have hidden: "d \<notin> set (app_visible (sapp t'))"
    using t' by (auto simp: in_app_visible)
  from sys_setApp_fetches [of t "app_close (sapp t) cb"] t'
  have "ReqOrgs \<notin> set (drop (length (sent t)) (sent t'))"
    by (auto simp: sends_only_def list_all_iff is_user_fetch_def dest: bspec [where x = ReqOrgs])
  with hidden show ?thesis by blast
qed

theorem dismiss_add_dialog_no_reload_witness:
  "\<exists>t t'. sys_run sys_init [Deliver 0 (Inr (OrgsReply [])), Tap BtnAddOrg] = Some t
     \<and> sys_step t (ModalAct DlgAddOrg FooterClose) = Some t'
     \<and> DlgAddOrg \<notin> set (app_visible (sapp t')) \<and> ReqOrgs \<notin> set (drop (length (sent t)) (sent t'))"
proof -
  obtain t where t: "sys_run sys_init [Deliver 0 (Inr (OrgsReply [])), Tap BtnAddOrg] = Some t"
    and v: "addingOrg (sapp t)"
    by (simp add: sys_eval)
  then obtain t' where t': "sys_step t (ModalAct DlgAddOrg FooterClose) = Some t'"
    by (simp add: modal_footer_def)
  from dismiss_add_dialog_no_reload [OF _ t'] t t' show ?thesis by blast
qed

section \<open>Example runs\<close>

text \<open>Runs of the whole page on concrete inputs: the scenarios of spec section 8 and the
  runs that exhibit the findings. Each is evaluated by the simplifier.\<close>

text \<open>Scenario A: the user types \<open>acme\<close> into the organisation form, the debounced
  check finds it free, submission posts it, and on success the dialog closes and a fresh
  snapshot fetch is in flight.\<close>

theorem scenario_create_org:
  "\<exists>t. sys_run sys_init [Deliver 0 (Inr (OrgsReply [])), Tap BtnAddOrg, OrgNameInput ''acme'',
        TimerFire 0, Deliver 0 (Inr (ExistsReply False)), SubmitOrg, Deliver 0 (Inr CreatedReply)] = Some t
     \<and> sent t = [ReqOrgs, ReqExists ''org'' ''acme'', ReqCreateOrg ''acme'', ReqOrgs]
     \<and> app_visible (sapp t) = [] \<and> pending t = [(OApp, ReqOrgs)]"
  by (simp add: sys_eval)

text \<open>Scenario C: whatever the failure of the start-up snapshot fetch, the page shows
  the error dialog alone with the message \<open>Failed fetching orgs\<close>, and no snapshot.\<close>

theorem scenario_fetch_failure:
  "\<exists>t. sys_step sys_init (Deliver 0 (Inl e)) = Some t \<and> broke (sapp t)
     \<and> errorMsg (sapp t) = ''Failed fetching orgs'' \<and> app_visible (sapp t) = [DlgError]
     \<and> orgs (sapp t) = None \<and> pending t = []"
  by (simp add: sys_eval)

text \<open>Scenario B for the organisation field, keystrokes within one debounce window:
  after \<open>a\<close>, \<open>ac\<close>, \<open>acme\<close> and one timer firing, the only existence check issued is
  for \<open>acme\<close>, and its answer alone sets the verdict, whatever it is.\<close>

theorem scenario_b_one_window:
  "\<exists>t. sys_run sys_init [Deliver 0 (Inr (OrgsReply [])), Tap BtnAddOrg, OrgNameInput ''a'',
        OrgNameInput ''ac'', OrgNameInput ''acme'', TimerFire 0, Deliver 0 (Inr (ExistsReply b))] = Some t
     \<and> filter (\<lambda>r. r \<noteq> ReqOrgs) (sent t) = [ReqExists ''org'' ''acme'']
     \<and> ao_name (org_form t 0) = ''acme'' \<and> ao_valid (org_form t 0) = exists_verdict b"
  by (simp add: sys_eval)

text \<open>Scenario B fails for the organisation field when the user pauses: if the
  timer fires after \<open>a\<close> and again after \<open>acme\<close>, the late reply for \<open>a\<close> (free)
  overwrites the verdict for \<open>acme\<close> (taken), and the field reads \<open>'yes'\<close>: the debounce
  window is no substitute for sequencing.\<close>

theorem scenario_b_across_windows:
  "\<exists>t. sys_run sys_init [Deliver 0 (Inr (OrgsReply [])), Tap BtnAddOrg, OrgNameInput ''a'',
        TimerFire 0, OrgNameInput ''ac'', OrgNameInput ''acme'', TimerFire 0,
        Deliver 1 (Inr (ExistsReply True)), Deliver 0 (Inr (ExistsReply False))] = Some t
     \<and> ao_name (org_form t 0) = ''acme'' \<and> ao_valid (org_form t 0) = Yes
     \<and> \<not> addOrg_submitDisabled (org_form t 0)"
  by (simp add: sys_eval)

text \<open>The user form applies whichever existence check answers last, not the one for
  the current email: the user types \<open>a\<close> then \<open>acme\<close>, the server answers that
  \<open>acme\<close> is taken and then, late, that \<open>a\<close> is free; the form shows the email
  \<open>acme\<close> as available, and submitting creates the taken email.\<close>

theorem stale_user_verdict:
  "\<exists>t1 t. sys_run sys_init [Deliver 0 (Inr (OrgsReply [org_acme])), Tap BtnAddUser,
            UserEmailInput ''a'', UserEmailInput ''acme''] = Some t1
     \<and> pending t1 = [(OUser 0, ReqExists ''user'' ''a''), (OUser 0, ReqExists ''user'' ''acme'')]
     \<and> sys_run t1 [Deliver 1 (Inr (ExistsReply True)), Deliver 0 (Inr (ExistsReply False)),
            UserOrgSelect [False, True], SubmitUser] = Some t
     \<and> au_email (user_form t 0) = ''acme'' \<and> au_valid (user_form t 0) = Yes
     \<and> last (sent t) = ReqCreateUser ''acme'' [Num 1]"
  by (simp add: sys_eval org_acme_def)

text \<open>After the name \<open>a\<close> is checked and then erased, the debounced check reads the
  empty name and sends nothing, so the reply for \<open>a\<close> sets \<open>valid\<close> to \<open>'yes'\<close> and
  the form submits an organisation with an empty name.\<close>

theorem stale_org_verdict_empty_name:
  "\<exists>t. sys_run sys_init [Deliver 0 (Inr (OrgsReply [])), Tap BtnAddOrg, OrgNameInput ''a'', TimerFire 0,
        OrgNameInput [], TimerFire 0, Deliver 0 (Inr (ExistsReply False)), SubmitOrg] = Some t
     \<and> ao_name (org_form t 0) = [] \<and> last (sent t) = ReqCreateOrg []"
  by (simp add: sys_eval)

text \<open>The organisation form posts the same creation twice when submitted twice:
  \<open>submitting\<close> is never set, so the submit button stays enabled while the first
  request is in flight.\<close>

theorem double_submit_org:
  "\<exists>t. sys_run sys_init [Deliver 0 (Inr (OrgsReply [])), Tap BtnAddOrg, OrgNameInput ''acme'',
        TimerFire 0, Deliver 0 (Inr (ExistsReply False)), SubmitOrg, SubmitOrg] = Some t
     \<and> filter is_create (sent t) = [ReqCreateOrg ''acme'', ReqCreateOrg ''acme'']"
  by (simp add: sys_eval)

text \<open>A creation reply for a closed form closes the dialog opened since: the user
  submits \<open>acme\<close>, dismisses the dialog while the request is in flight, opens Add Org
  again and types \<open>beta\<close>; the late success runs \<open>closeReload('addingOrg')\<close> and
  discards the new form.\<close>

theorem stale_create_closes_new_dialog:
  "\<exists>t t'. sys_run sys_init (run_submit_org @ [ModalAct DlgAddOrg FooterClose, Tap BtnAddOrg,
        OrgNameInput ''beta'']) = Some t
     \<and> mounted t DlgAddOrg = Some 1 \<and> ao_name (org_form t 1) = ''beta''
     \<and> sys_step t (Deliver 0 (Inr CreatedReply)) = Some t'
     \<and> \<not> addingOrg (sapp t') \<and> mounted t' DlgAddOrg = None"
  by (simp add: run_submit_org_def sys_eval modal_footer_def)

text \<open>The debounced check outlives its form: closing the Add Org dialog within the
  250ms window does not cancel the lodash timer (AddOrg has no
  \<open>componentWillUnmount\<close>), so the unmounted form still sends its existence check.\<close>

theorem closed_form_still_checks:
  "\<exists>t. sys_run sys_init [Deliver 0 (Inr (OrgsReply [])), Tap BtnAddOrg, OrgNameInput ''a'',
        ModalAct DlgAddOrg FooterClose, TimerFire 0] = Some t
     \<and> mounted t DlgAddOrg = None \<and> last (sent t) = ReqExists ''org'' ''a''
     \<and> pending t = [(OOrg 0, ReqExists ''org'' ''a'')]"
  by (simp add: sys_eval modal_footer_def)

text \<open>The linode name field does not show what was typed: after \<open>web1\<close> is typed
  the form's state holds it, but the rendered input's \<open>value\<close> is
  \<open>this.state.nanme\<close>, undefined, while the other two forms render their state.\<close>

theorem linode_name_not_rendered:
  "\<exists>t. sys_run sys_init [Deliver 0 (Inr (OrgsReply [org_acme])), Tap BtnAddLinode,
        LinodeNameInput ''web1''] = Some t
     \<and> mounted t DlgAddLinode = Some 0 \<and> al_name (linode_form t 0) = ''web1''
     \<and> fv_value (addLinode_render (linode_form t 0) [org_acme]) = None
     \<and> fv_value (addOrg_render (addOrg_init\<lparr>ao_name := ''web1''\<rparr>)) = Some ''web1''"
  by (simp add: sys_eval org_acme_def linode_form_def addLinode_render_def addOrg_render_def)

text \<open>A user with id \<open>0\<close> can never be viewed: tapping its link opens the user
  dialog (\<open>viewingUser 0\<close>) and mounts UserDetails, whose \<open>componentWillMount\<close> sends
  nothing, so nothing is in flight, no timer is armed, no reply can ever be delivered and
  the dialog reads \<open>Loading...\<close> until it is closed.\<close>

theorem user_zero_loading_forever:
  "\<exists>t i. sys_run sys_init [Deliver 0 (Inr (OrgsReply [org_zero])), TapUser 0] = Some t
     \<and> dialog_of (sapp t) = DViewingUser 0 \<and> mounted t DlgUserDetails = Some i
     \<and> userDetails_view (detail_view t i) = DetailsLoading
     \<and> pending t = [] \<and> timers t = [] \<and> (\<forall>k r. sys_step t (Deliver k r) = None)"
  by (simp add: sys_eval org_zero_def dialog_of_def userDetails_init_def)

text \<open>A failed user-detail fetch enters the fatal state with UserDetails' message,
  and a later failure of an already dismissed form replaces the message: after the AddOrg
  dialog is closed with its check in flight, a user is viewed and its fetch fails; the
  check's failure, delivered next, reaches \<open>setError\<close> through the unmounted form and
  the error dialog now reads AddOrg's message. The spec's \<open>reportError\<close> overrides the
  state, but says nothing of which of two failures the message reports.\<close>

theorem fatal_message_last_wins:
  "\<exists>t t'. sys_run sys_init [Deliver 0 (Inr (OrgsReply [org_five])), Tap BtnAddOrg, OrgNameInput ''a'',
        TimerFire 0, ModalAct DlgAddOrg HeaderClose, TapUser 5, Deliver 1 (Inl NetworkError)] = Some t
     \<and> dialog_of (sapp t) = DFatal ''failed fetching user details''
     \<and> app_visible (sapp t) = [DlgError]
     \<and> sys_step t (Deliver 0 (Inl NetworkError)) = Some t'
     \<and> dialog_of (sapp t') = DFatal ''Failed checking org validity''"
  by (simp add: sys_eval org_five_def dialog_of_def)

text \<open>End to end against the server: creating \<open>acme\<close> through the Add Org dialog
  stores it on the server and, through \<open>closeReload\<close>, in the page's snapshot; after a
  full reload the page fetches it again, and typing \<open>acme\<close> into a new Add Org dialog
  gets the verdict \<open>'no'\<close> from the existence check and keeps the submit button
  disabled, with nothing left in flight.\<close>

theorem create_then_taken:
  "\<exists>t s. world_run (sys_init, server_empty) run_create_reload = Some (t, s)
     \<and> map org_name (the (orgs (sapp t))) = [''acme''] \<and> mounted t DlgAddOrg = Some 0
     \<and> ao_name (org_form t 0) = ''acme'' \<and> ao_valid (org_form t 0) = No
     \<and> addOrg_submitDisabled (org_form t 0) \<and> pending t = []
     \<and> srv_orgs s = [\<lparr>org_id = 1, org_name = ''acme'', org_users = [], org_linodes = []\<rparr>]"
  by (simp add: run_create_reload_def server_empty_def sys_eval server_exists_def server_names_def
      create_org_def)

end
